theory Spec2Isabelle
  imports Complex_Main "HOL-Library.Sublist" "HOL-Library.Multiset" "HOL-Library.AList"
begin

section \<open>Numbers and points\<close>

text \<open>
  The editor computes with Python floats and Qt's \<open>QPointF\<close> (a pair of doubles).  They are
  modelled by exact real numbers: a point is a pair of reals, \<open>+\<close> on points is the
  component-wise sum of \<open>QPointF\<close>.  Rounding error of the sums, products and quotients
  is outside this model; the functions of the module \<open>math\<close>, whose results are not exact
  even on exact arguments, are a parameter of the rotation.
\<close>

type_synonym point = "real \<times> real"

definition point_add :: "point \<Rightarrow> point \<Rightarrow> point" where
  "point_add p q = (fst p + fst q, snd p + snd q)"

section \<open>SVG port parser (config/svg\_port\_parser.py)\<close>

subsection \<open>Python primitives used by the parser\<close>

text \<open>
  Exceptions are values: a function that can raise returns \<open>py_error + 'a\<close>.
\<close>

datatype py_error = ZeroDivisionError | ValueError | AttributeError

text \<open>
  \<open>round(x, ndigits)\<close> on a float rounds to the nearest multiple of \<open>10 ^ -ndigits\<close>,
  ties to the even neighbour.
\<close>

definition round_half_even :: "real \<Rightarrow> int" where
  "round_half_even x =
     (let f = \<lfloor>x\<rfloor>; d = x - of_int f
      in if d < 1 / 2 then f
         else if 1 / 2 < d then f + 1
         else if even f then f else f + 1)"

definition py_round :: "real \<Rightarrow> nat \<Rightarrow> real" where
  "py_round x ndigits = of_int (round_half_even (x * 10 ^ ndigits)) / 10 ^ ndigits"

text \<open>
  Strings are ASCII.  \<open>str.lower\<close>, the character classes \<open>\d\<close> and \<open>\w\<close>, the
  substring test \<open>kw in s\<close> and \<open>int\<close> on a run of digits.
\<close>

definition lower_char :: "char \<Rightarrow> char" where
  "lower_char c =
     (case map_of (zip ''ABCDEFGHIJKLMNOPQRSTUVWXYZ'' ''abcdefghijklmnopqrstuvwxyz'') c of
        Some l \<Rightarrow> l
      | None \<Rightarrow> c)"

definition lower :: "string \<Rightarrow> string" where
  "lower s = map lower_char s"

definition is_digit :: "char \<Rightarrow> bool" where
  "is_digit c = (c \<in> set ''0123456789'')"

definition is_word_char :: "char \<Rightarrow> bool" where
  "is_word_char c =
     (c \<in> set ''abcdefghijklmnopqrstuvwxyzABCDEFGHIJKLMNOPQRSTUVWXYZ0123456789_'')"

definition digit_value :: "char \<Rightarrow> nat" where
  "digit_value c = (case map_of (zip ''0123456789'' [0, 1, 2, 3, 4, 5, 6, 7, 8, 9]) c of Some d \<Rightarrow> d | None \<Rightarrow> 0)"

definition py_int :: "string \<Rightarrow> nat" where
  "py_int ds = foldl (\<lambda>n c. 10 * n + digit_value c) 0 ds"

fun str_contains :: "string \<Rightarrow> string \<Rightarrow> bool" where
  "str_contains kw [] = (kw = [])"
| "str_contains kw (c # cs) = (take (length kw) (c # cs) = kw \<or> str_contains kw cs)"

text \<open>
  \<open>re.search(r'(\d+)', s)\<close>: the leftmost maximal run of digits, if there is one.
\<close>

definition first_number :: "string \<Rightarrow> string option" where
  "first_number s =
     (let rest = dropWhile (\<lambda>c. \<not> is_digit c) s
      in if rest = [] then None else Some (takeWhile is_digit rest))"

text \<open>
  In a pattern, \<open>$\<close> matches at the end of the string and just before a newline that ends
  the string.
\<close>

definition before_dollar :: "string \<Rightarrow> string" where
  "before_dollar s = (if s \<noteq> [] \<and> last s = CHR 0x0A then butlast s else s)"

subsection \<open>Parsed drawing\<close>

text \<open>
  A circle element with its attribute dictionary.  \<open>circle.get(k, d)\<close> is \<open>get_attr\<close>.
\<close>

record circle =
  attrib :: "string \<rightharpoonup> string"

definition get_attr :: "circle \<Rightarrow> string \<Rightarrow> string \<Rightarrow> string" where
  "get_attr c k d = (case attrib c k of Some v \<Rightarrow> v | None \<Rightarrow> d)"

type_synonym viewbox = "real \<times> real \<times> real \<times> real"

text \<open>
  The dictionary built by \<open>_analyze_circle_as_port\<close>, without the entries
  \<open>description\<close>, \<open>original_circle\<close> and \<open>conversion_info\<close>, which no later step reads.
\<close>

record port_info =
  info_id :: string
  info_type :: string
  info_position :: point
  svg_element_id :: string

subsection \<open>The parser's methods\<close>

text \<open>
  \<open>port_id_patterns\<close>, matched with \<open>re.match\<close> and \<open>re.IGNORECASE\<close>:
  \<open>^[Pp]ort\d+$\<close>, \<open>^[Pp]ort_\d+$\<close> and \<open>^[Pp]ort[-_]?\w+$\<close>.
\<close>

definition matches_port_digits :: "string \<Rightarrow> bool" where
  "matches_port_digits s =
     (let t = before_dollar s
      in lower (take 4 t) = ''port'' \<and> drop 4 t \<noteq> [] \<and> list_all is_digit (drop 4 t))"

definition matches_port_underscore_digits :: "string \<Rightarrow> bool" where
  "matches_port_underscore_digits s =
     (let t = before_dollar s
      in lower (take 4 t) = ''port'' \<and> take 1 (drop 4 t) = ''_'' \<and>
         drop 5 t \<noteq> [] \<and> list_all is_digit (drop 5 t))"

definition matches_port_word :: "string \<Rightarrow> bool" where
  "matches_port_word s =
     (let t = before_dollar s; rest = drop 4 t
      in lower (take 4 t) = ''port'' \<and>
         ((rest \<noteq> [] \<and> list_all is_word_char rest) \<or>
          (take 1 rest \<in> {''-'', ''_''} \<and> drop 1 rest \<noteq> [] \<and>
           list_all is_word_char (drop 1 rest))))"

definition is_port_id :: "string \<Rightarrow> bool" where
  "is_port_id element_id =
     (if matches_port_digits element_id then True
      else if matches_port_underscore_digits element_id then True
      else if matches_port_word element_id then True
      else False)"

text \<open>
  \<open>_extract_circle_position\<close>.  Python's \<open>float\<close> on an attribute string is the
  parameter \<open>float_of\<close> (\<open>None\<close> when it raises \<open>ValueError\<close>); a missing attribute
  defaults to the number \<open>0\<close>.
\<close>

definition extract_circle_position :: "(string \<Rightarrow> real option) \<Rightarrow> circle \<Rightarrow> point option" where
  "extract_circle_position float_of c =
     (case (case attrib c ''cx'' of None \<Rightarrow> Some 0 | Some s \<Rightarrow> float_of s) of
        None \<Rightarrow> None
      | Some cx \<Rightarrow>
          (case (case attrib c ''cy'' of None \<Rightarrow> Some 0 | Some s \<Rightarrow> float_of s) of
             None \<Rightarrow> None
           | Some cy \<Rightarrow> Some (cx, cy)))"

text \<open>\<open>_convert_svg_to_qt_coordinates\<close>; a float division by zero raises.\<close>

definition convert_svg_to_qt_coordinates :: "point \<Rightarrow> viewbox \<Rightarrow> point \<Rightarrow> py_error + point" where
  "convert_svg_to_qt_coordinates svg_pos svg_viewbox target_size =
     (case svg_pos of (svg_x, svg_y) \<Rightarrow>
      case svg_viewbox of (vb_x, vb_y, vb_width, vb_height) \<Rightarrow>
      case target_size of (target_width, target_height) \<Rightarrow>
        if vb_width = 0 then Inl ZeroDivisionError
        else
          let qt_x = ((svg_x - vb_x) / vb_width) * target_width
          in if vb_height = 0 then Inl ZeroDivisionError
             else
               let qt_y = ((svg_y - vb_y) / vb_height) * target_height
               in Inr (py_round qt_x 2, py_round qt_y 2))"

text \<open>\<open>port_type_mapping\<close>, in the insertion order in which the dictionary is iterated.\<close>

definition port_type_mapping :: "(string \<times> string) list" where
  "port_type_mapping =
     [(''inlet'', ''input''), (''in'', ''input''), (''aspiration'', ''input''),
      (''suction'', ''input''), (''entry'', ''input''), (''entree'', ''input''),
      (''outlet'', ''output''), (''out'', ''output''), (''discharge'', ''output''),
      (''refoulement'', ''output''), (''exit'', ''output''), (''sortie'', ''output''),
      (''connection'', ''bidirectional''), (''conn'', ''bidirectional''),
      (''both'', ''bidirectional''), (''bidirect'', ''bidirectional'')]"

definition port_kinds :: "string list" where
  "port_kinds = [''input'', ''output'', ''bidirectional'']"

definition determine_port_type :: "string \<Rightarrow> circle \<Rightarrow> string" where
  "determine_port_type circle_id c =
     (let data_type = lower (get_attr c ''data-type'' '''')
      in if data_type \<in> set port_kinds then data_type
         else
           let class_attr = lower (get_attr c ''class'' '''')
           in case find (\<lambda>port_type. str_contains port_type class_attr) port_kinds of
                Some port_type \<Rightarrow> port_type
              | None \<Rightarrow>
                  let id_lower = lower circle_id
                  in case find (\<lambda>(keyword, port_type). str_contains keyword id_lower)
                            port_type_mapping of
                       Some (keyword, port_type) \<Rightarrow> port_type
                     | None \<Rightarrow>
                         (case first_number circle_id of
                            Some port_num \<Rightarrow>
                              if py_int port_num mod 2 = 1 then ''input'' else ''output''
                          | None \<Rightarrow> ''bidirectional''))"

text \<open>\<open>_clean_port_id\<close>: \<open>re.sub(r'^[Pp]ort[-_]?', '', svg_id)\<close>, case-sensitive.\<close>

definition clean_port_id :: "string \<Rightarrow> string" where
  "clean_port_id svg_id =
     (let cleaned =
            (if take 1 svg_id \<in> {''P'', ''p''} \<and> take 3 (drop 1 svg_id) = ''ort''
             then (if take 1 (drop 4 svg_id) \<in> {''-'', ''_''} then drop 5 svg_id
                   else drop 4 svg_id)
             else svg_id)
      in if cleaned \<noteq> [] then lower cleaned else lower svg_id)"

text \<open>\<open>_extract_port_number\<close>, the sort key.\<close>

definition extract_port_number :: "string \<Rightarrow> nat" where
  "extract_port_number svg_id =
     (case first_number svg_id of Some port_num \<Rightarrow> py_int port_num | None \<Rightarrow> 999)"

definition analyze_circle_as_port ::
  "(string \<Rightarrow> real option) \<Rightarrow> circle \<Rightarrow> viewbox \<Rightarrow> point \<Rightarrow> py_error + port_info option" where
  "analyze_circle_as_port float_of c vb target_size =
     (let circle_id = get_attr c ''id'' ''''
      in if \<not> is_port_id circle_id then Inr None
         else
           case extract_circle_position float_of c of
             None \<Rightarrow> Inr None
           | Some svg_position \<Rightarrow>
               (case convert_svg_to_qt_coordinates svg_position vb target_size of
                  Inl e \<Rightarrow> Inl e
                | Inr qt_position \<Rightarrow>
                    Inr (Some \<lparr>info_id = clean_port_id circle_id,
                               info_type = determine_port_type circle_id c,
                               info_position = qt_position,
                               svg_element_id = circle_id\<rparr>)))"

text \<open>The key of the final sort: \<open>lambda p: self._extract_port_number(p['svg_element_id'])\<close>.\<close>

definition port_sort_key :: "port_info \<Rightarrow> nat" where
  "port_sort_key p = extract_port_number (svg_element_id p)"

text \<open>
  The loop of \<open>parse_svg_ports\<close> over the circles in document order, then the sort.  The
  arguments \<open>vb\<close> and \<open>target_size\<close> are the results of \<open>_get_svg_viewbox\<close> and
  \<open>_get_target_size_from_svg\<close>.  Any exception inside the \<open>try\<close> block yields the empty
  list.  \<open>list.sort(key=...)\<close> is a stable sort, as \<open>sort_key\<close> is.
\<close>

fun collect_ports ::
  "(string \<Rightarrow> real option) \<Rightarrow> viewbox \<Rightarrow> point \<Rightarrow> port_info list \<Rightarrow> circle list \<Rightarrow>
     py_error + port_info list" where
  "collect_ports float_of vb target_size ports [] = Inr ports"
| "collect_ports float_of vb target_size ports (c # circles) =
     (case analyze_circle_as_port float_of c vb target_size of
        Inl e \<Rightarrow> Inl e
      | Inr None \<Rightarrow> collect_ports float_of vb target_size ports circles
      | Inr (Some port_info) \<Rightarrow>
          collect_ports float_of vb target_size (ports @ [port_info]) circles)"

definition parse_svg_ports ::
  "(string \<Rightarrow> real option) \<Rightarrow> viewbox \<Rightarrow> point \<Rightarrow> circle list \<Rightarrow> port_info list" where
  "parse_svg_ports float_of vb target_size circles =
     (case collect_ports float_of vb target_size [] circles of
        Inl e \<Rightarrow> []
      | Inr ports \<Rightarrow> sort_key port_sort_key ports)"

text \<open>
  For the statements below: the list \<open>ports\<close> as it stands before the sort (document
  order), and the trailing run of digits of an identifier, which is what the specification
  calls its numeric suffix.
\<close>

definition ports_in_document_order ::
  "(string \<Rightarrow> real option) \<Rightarrow> viewbox \<Rightarrow> point \<Rightarrow> circle list \<Rightarrow> port_info list" where
  "ports_in_document_order float_of vb target_size circles =
     (case collect_ports float_of vb target_size [] circles of
        Inl e \<Rightarrow> []
      | Inr ports \<Rightarrow> ports)"

definition numeric_suffix :: "string \<Rightarrow> string" where
  "numeric_suffix s = rev (takeWhile is_digit (rev s))"

text \<open>
  The three circles of the module's own test drawing (\<open>Port1\<close>, \<open>Port2\<close>,
  \<open>port_drain\<close>), here in the document order drain, 2, 1, and \<open>float\<close> on the
  coordinate strings that occur in it.
\<close>

definition test_float_of :: "string \<Rightarrow> real option" where
  "test_float_of = map_of [(''5'', 5), (''15'', 15), (''25'', 25)]"

definition test_circles :: "circle list" where
  "test_circles =
     [\<lparr>attrib = [''id'' \<mapsto> ''port_drain'', ''cx'' \<mapsto> ''15'', ''cy'' \<mapsto> ''25'',
                  ''data-type'' \<mapsto> ''output'']\<rparr>,
      \<lparr>attrib = [''id'' \<mapsto> ''Port2'', ''cx'' \<mapsto> ''25'', ''cy'' \<mapsto> ''15'',
                  ''data-type'' \<mapsto> ''output'']\<rparr>,
      \<lparr>attrib = [''id'' \<mapsto> ''Port1'', ''cx'' \<mapsto> ''5'', ''cy'' \<mapsto> ''15'',
                  ''data-type'' \<mapsto> ''input'']\<rparr>]"

section \<open>Ports and hydraulic objects (components/ports.py, components/hydraulic\_object.py)\<close>

text \<open>
  Python objects have an identity; \<open>==\<close> on ports and on components compares identities.
  An identity is a number.  A port carries its own identity and that of the component
  that created it.
\<close>

type_synonym obj_id = nat

text \<open>
  \<open>Port\<close>.  \<open>port_pos\<close> is the item's Qt position; ports are never put into the
  component's group, so it is also \<open>scenePos()\<close>.  \<open>port_in_scene\<close> says whether
  \<open>port.scene()\<close> is set.  \<open>port_scale\<close> is the attribute \<open>current_scale\<close> of the port.
  Pens, brushes, hover state and signals are left out.
\<close>

record port =
  port_self :: obj_id
  port_id :: string
  port_type :: string
  parent_component :: obj_id
  is_connected :: bool
  connected_pipe :: "nat option"
  initial_position :: point
  port_pos :: point
  port_in_scene :: bool
  port_scale :: real
  effective_radius :: real

definition BASE_RADIUS :: real where
  "BASE_RADIUS = 3"

definition new_port :: "obj_id \<Rightarrow> string \<Rightarrow> string \<Rightarrow> point \<Rightarrow> obj_id \<Rightarrow> port" where
  "new_port self pid ptype position parent =
     \<lparr>port_self = self, port_id = pid, port_type = ptype, parent_component = parent,
      is_connected = False, connected_pipe = None, initial_position = position,
      port_pos = (0, 0), port_in_scene = False, port_scale = 1,
      effective_radius = BASE_RADIUS\<rparr>"

text \<open>\<open>Port.update_scale\<close>.\<close>

definition port_update_scale :: "port \<Rightarrow> real \<Rightarrow> port" where
  "port_update_scale p scale =
     (if scale \<noteq> port_scale p
      then p\<lparr>port_scale := scale, effective_radius := BASE_RADIUS * scale\<rparr>
      else p)"

definition connect_to_pipe :: "port \<Rightarrow> nat \<Rightarrow> port" where
  "connect_to_pipe p pipe = p\<lparr>is_connected := True, connected_pipe := Some pipe\<rparr>"

definition disconnect_from_pipe :: "port \<Rightarrow> port" where
  "disconnect_from_pipe p = p\<lparr>is_connected := False, connected_pipe := None\<rparr>"

text \<open>\<open>Port.can_connect_to\<close>, with its three refusals in the order of the source.\<close>

definition can_connect_to :: "port \<Rightarrow> port \<Rightarrow> bool" where
  "can_connect_to self other_port =
     (if is_connected self \<or> is_connected other_port then False
      else if port_self self = port_self other_port then False
      else if parent_component self = parent_component other_port then False
      else True)"

text \<open>
  The entry of \<open>HYDRAULIC_OBJECT_TYPES\<close> for one type, as far as the geometry reads it:
  \<open>svg_scale\<close> and the port list that \<open>get_port_configs\<close> returns (the parsed ports of the
  type's drawing, whose positions are tuples).
\<close>

record object_config =
  svg_scale :: real
  port_configs :: "port_info list"

type_synonym object_types = "string \<rightharpoonup> object_config"

definition get_port_configs :: "object_types \<Rightarrow> string \<Rightarrow> port_info list" where
  "get_port_configs types otype =
     (case types otype of None \<Rightarrow> [] | Some config \<Rightarrow> port_configs config)"

text \<open>
  \<open>HydraulicObject\<close>.  \<open>scene_pos\<close> is the item's position (components have no parent
  item), \<open>rotation\<close> and \<open>item_scale\<close> are Qt's rotation and scale of the group, and
  \<open>transform\<close> is the linear part \<open>(m11, m12, m21, m22)\<close> of its \<open>QTransform\<close>.  The
  property dictionary, the shape and the signals are left out.
\<close>

record hydraulic_object =
  object_self :: obj_id
  component_id :: string
  object_type :: string
  base_svg_scale :: real
  current_scale :: real
  ports :: "port list"
  scene_pos :: point
  rotation :: real
  item_scale :: real
  transform :: "real \<times> real \<times> real \<times> real"

text \<open>\<open>update_ports_positions\<close>, called by \<open>itemChange\<close> and by the transform controller.\<close>

definition update_ports_positions :: "hydraulic_object \<Rightarrow> point \<Rightarrow> hydraulic_object" where
  "update_ports_positions obj new_component_position =
     obj\<lparr>ports :=
       map (\<lambda>port. port\<lparr>port_pos := point_add new_component_position (initial_position port)\<rparr>)
         (ports obj)\<rparr>"

text \<open>
  \<open>QGraphicsItem.setPos\<close> on a component: nothing happens when the position is the
  current one; otherwise \<open>itemChange(ItemPositionChange, p)\<close> runs (the flag
  \<open>ItemSendsGeometryChanges\<close> is set), which moves the ports, and the position is stored.
\<close>

definition setPos :: "hydraulic_object \<Rightarrow> point \<Rightarrow> hydraulic_object" where
  "setPos obj p =
     (if scene_pos obj = p then obj
      else (update_ports_positions obj p)\<lparr>scene_pos := p\<rparr>)"

text \<open>\<open>update_ports_scale\<close>: the loop over \<open>enumerate(self.ports)\<close>.\<close>

definition update_ports_scale :: "object_types \<Rightarrow> hydraulic_object \<Rightarrow> hydraulic_object" where
  "update_ports_scale types obj =
     (let cfgs = get_port_configs types (object_type obj)
      in obj\<lparr>ports :=
           map (\<lambda>(i, port).
                  if i < length cfgs then
                    let base_position = info_position (cfgs ! i);
                        scaled_x = fst base_position * current_scale obj;
                        scaled_y = snd base_position * current_scale obj;
                        new_position = (scaled_x, scaled_y);
                        port1 = port\<lparr>initial_position := new_position\<rparr>;
                        port2 = (if port_in_scene port1
                                 then port1\<lparr>port_pos := point_add (scene_pos obj) new_position\<rparr>
                                 else port1)
                    in port_update_scale port2 (current_scale obj)
                  else port)
             (enumerate 0 (ports obj))\<rparr>)"

text \<open>
  \<open>update_scale\<close>.  The class attribute \<open>GLOBAL_SCALE\<close> is the argument \<open>global_scale\<close>;
  the optional argument is \<open>None\<close> or \<open>Some s\<close>.
\<close>

definition update_scale ::
  "object_types \<Rightarrow> real \<Rightarrow> hydraulic_object \<Rightarrow> real option \<Rightarrow> hydraulic_object" where
  "update_scale types global_scale obj new_global_scale =
     (let new_scale =
            (case new_global_scale of
               Some s \<Rightarrow> base_svg_scale obj * s
             | None \<Rightarrow> base_svg_scale obj * global_scale)
      in if new_scale \<noteq> current_scale obj
         then update_ports_scale types (obj\<lparr>current_scale := new_scale, item_scale := new_scale\<rparr>)
         else obj)"

text \<open>
  \<open>HydraulicObject.__init__\<close>: an unknown type raises \<open>ValueError\<close>; otherwise one port per
  configured port at its base position, then the scale of the group, then
  \<open>update_ports_scale\<close>.  The new object takes the identity \<open>alloc\<close>, its ports the
  identities after it.
\<close>

definition create_ports :: "obj_id \<Rightarrow> port_info list \<Rightarrow> port list" where
  "create_ports self cfgs =
     map (\<lambda>(i, cfg). new_port (self + 1 + i) (info_id cfg) (info_type cfg) (info_position cfg) self)
       (enumerate 0 cfgs)"

definition new_hydraulic_object ::
  "object_types \<Rightarrow> real \<Rightarrow> obj_id \<Rightarrow> string \<Rightarrow> string \<Rightarrow> py_error + hydraulic_object" where
  "new_hydraulic_object types global_scale alloc cid otype =
     (case types otype of
        None \<Rightarrow> Inl ValueError
      | Some config \<Rightarrow>
          Inr (update_ports_scale types
                 \<lparr>object_self = alloc, component_id = cid, object_type = otype,
                  base_svg_scale = svg_scale config,
                  current_scale = svg_scale config * global_scale,
                  ports = create_ports alloc (get_port_configs types otype),
                  scene_pos = (0, 0), rotation = 0,
                  item_scale = svg_scale config * global_scale,
                  transform = (1, 0, 0, 1)\<rparr>))"

text \<open>
  \<open>create_hydraulic_object\<close> and the steps of \<open>ComponentController.add_object\<close> that put
  the object and its ports into the scene.
\<close>

definition create_hydraulic_object ::
  "object_types \<Rightarrow> real \<Rightarrow> obj_id \<Rightarrow> string \<Rightarrow> string \<Rightarrow> real option \<Rightarrow> point option \<Rightarrow>
     py_error + hydraulic_object" where
  "create_hydraulic_object types global_scale alloc cid otype custom_scale position =
     (case new_hydraulic_object types global_scale alloc cid otype of
        Inl e \<Rightarrow> Inl e
      | Inr obj \<Rightarrow>
          let obj1 = (case custom_scale of
                        None \<Rightarrow> obj
                      | Some s \<Rightarrow> update_scale types global_scale obj (Some s))
          in Inr (case position of None \<Rightarrow> obj1 | Some p \<Rightarrow> setPos obj1 p))"

definition add_object_ports_to_scene :: "hydraulic_object \<Rightarrow> point \<Rightarrow> hydraulic_object" where
  "add_object_ports_to_scene obj position =
     obj\<lparr>ports :=
       map (\<lambda>port. port\<lparr>port_pos := point_add position (initial_position port),
                          port_in_scene := True\<rparr>)
         (ports obj)\<rparr>"

definition add_object ::
  "object_types \<Rightarrow> real \<Rightarrow> obj_id \<Rightarrow> string \<Rightarrow> string \<Rightarrow> point \<Rightarrow> py_error + hydraulic_object" where
  "add_object types global_scale alloc cid otype position =
     (case create_hydraulic_object types global_scale alloc cid otype None (Some position) of
        Inl e \<Rightarrow> Inl e
      | Inr obj \<Rightarrow> Inr (add_object_ports_to_scene obj position))"

text \<open>\<open>get_port_by_id\<close>: the first port with the identifier.\<close>

definition get_port_by_id :: "hydraulic_object \<Rightarrow> string \<Rightarrow> port option" where
  "get_port_by_id obj pid = find (\<lambda>port. port_id port = pid) (ports obj)"

text \<open>
  For the statements below.  \<open>component_of_type\<close>: the object is of a configured type, with
  that type's base scale and one port per configured port, as the constructor leaves it.
  \<open>template_positions\<close>: the configured base positions times a scale.
  \<open>ports_at_template\<close>: the relative port positions are the base positions times the
  object's current scale.  \<open>ports_in_place\<close>: every port is in the scene, at the object's
  position plus its relative position.
\<close>

definition component_of_type :: "object_types \<Rightarrow> hydraulic_object \<Rightarrow> bool" where
  "component_of_type types obj =
     (case types (object_type obj) of
        None \<Rightarrow> False
      | Some config \<Rightarrow>
          base_svg_scale obj = svg_scale config \<and>
          length (ports obj) = length (port_configs config))"

definition template_positions :: "object_types \<Rightarrow> string \<Rightarrow> real \<Rightarrow> point list" where
  "template_positions types otype scale =
     map (\<lambda>cfg. (fst (info_position cfg) * scale, snd (info_position cfg) * scale))
       (get_port_configs types otype)"

definition ports_at_template :: "object_types \<Rightarrow> hydraulic_object \<Rightarrow> bool" where
  "ports_at_template types obj =
     (map initial_position (ports obj) =
        template_positions types (object_type obj) (current_scale obj))"

definition ports_in_place :: "hydraulic_object \<Rightarrow> bool" where
  "ports_in_place obj =
     list_all (\<lambda>p. port_in_scene p \<and> port_pos p = point_add (scene_pos obj) (initial_position p))
       (ports obj)"

text \<open>
  A type table with the pump type alone: base scale \<open>2\<close> and one port at the base position
  \<open>(5, 15)\<close>.
\<close>

definition test_types :: object_types where
  "test_types =
     [''PUMP'' \<mapsto> \<lparr>svg_scale = 2,
                     port_configs = [\<lparr>info_id = ''1'', info_type = ''input'',
                                      info_position = (5, 15), svg_element_id = ''Port1''\<rparr>]\<rparr>]"

text \<open>
  The pump that the constructor builds from \<open>test_types\<close> with global scale \<open>1\<close>,
  identity \<open>0\<close> and the name \<open>pump_002\<close>.
\<close>

definition fresh_pump :: hydraulic_object where
  "fresh_pump =
     \<lparr>object_self = 0, component_id = ''pump_002'', object_type = ''PUMP'',
      base_svg_scale = 2, current_scale = 2,
      ports = [\<lparr>port_self = 1, port_id = ''1'', port_type = ''input'', parent_component = 0,
                is_connected = False, connected_pipe = None, initial_position = (10, 30),
                port_pos = (0, 0), port_in_scene = False, port_scale = 2,
                effective_radius = 6\<rparr>],
      scene_pos = (0, 0), rotation = 0, item_scale = 2, transform = (1, 0, 0, 1)\<rparr>"

section \<open>Orthogonal pipe routing (components/pipe.py)\<close>

text \<open>\<open>OrthogonalPipe.create_orthogonal_segments\<close>: one leg, always three points.\<close>

definition create_orthogonal_segments :: "point \<Rightarrow> point \<Rightarrow> point list" where
  "create_orthogonal_segments start end' =
     (let dx = fst end' - fst start;
          dy = snd end' - snd start
      in if \<bar>dx\<bar> \<ge> \<bar>dy\<bar>
         then [start, (fst end', snd start), end']
         else [start, (fst start, snd end'), end'])"

text \<open>
  The loop of \<open>calculate_orthogonal_path\<close> over the waypoints; its state is the list
  \<open>points\<close> built so far and \<open>current_pos\<close>.  \<open>ortho_points[1:]\<close> is \<open>drop 1\<close>.
\<close>

fun route_waypoints :: "point list \<Rightarrow> point \<Rightarrow> point list \<Rightarrow> point list \<times> point" where
  "route_waypoints points current_pos [] = (points, current_pos)"
| "route_waypoints points current_pos (waypoint # rest) =
     route_waypoints (points @ drop 1 (create_orthogonal_segments current_pos waypoint))
       waypoint rest"

definition calculate_orthogonal_path :: "point \<Rightarrow> point \<Rightarrow> point list \<Rightarrow> point list" where
  "calculate_orthogonal_path start_pos end_pos waypoints =
     (case route_waypoints [start_pos] start_pos waypoints of
        (points, current_pos) \<Rightarrow>
          points @ drop 1 (create_orthogonal_segments current_pos end_pos))"

text \<open>
  Two readings of a segment between consecutive path points.  \<open>pure_axis_segment\<close> is
  the specification's wording (the points differ in exactly one coordinate);
  \<open>shares_axis\<close> allows the two points to coincide as well.
\<close>

definition pure_axis_segment :: "point \<Rightarrow> point \<Rightarrow> bool" where
  "pure_axis_segment p q = ((fst p \<noteq> fst q) \<noteq> (snd p \<noteq> snd q))"

definition shares_axis :: "point \<Rightarrow> point \<Rightarrow> bool" where
  "shares_axis p q = (fst p = fst q \<or> snd p = snd q)"

subsection \<open>The pipe object\<close>

text \<open>
  A pipe refers to its two components by identity and to their ports by identifier.  The
  objects live in a heap, a function from identities to hydraulic objects.  \<open>path\<close> is the
  list of points of the painter path, \<open>pipe_length\<close> the attribute \<open>length\<close>.  Pen,
  waypoint indicators, diameter and material are left out.
\<close>

type_synonym heap = "obj_id \<Rightarrow> hydraulic_object"

record orthogonal_pipe =
  pipe_self :: obj_id
  pipe_id :: nat
  start_component :: obj_id
  start_port :: string
  end_component :: obj_id
  end_port :: string
  waypoints :: "point list"
  path :: "point list"
  pipe_length :: real

text \<open>\<open>calculate_total_length\<close>: the sum over consecutive points, halved and rounded.\<close>

fun sum_of_segments :: "point list \<Rightarrow> real" where
  "sum_of_segments (p # q # rest) =
     (let dx = fst q - fst p; dy = snd q - snd p
      in sqrt (dx * dx + dy * dy) + sum_of_segments (q # rest))"
| "sum_of_segments _ = 0"

definition calculate_total_length :: "point list \<Rightarrow> real" where
  "calculate_total_length points = py_round (sum_of_segments points * 0.5) 1"

text \<open>
  \<open>update_orthogonal_path\<close>.  The result is the pipe after the call and what the call
  printed.  No operation of the \<open>try\<close> block raises in this model, so the \<open>except\<close>
  clause has no branch here.
\<close>

datatype path_report = Path_updated | Ports_not_found | Nothing_printed

definition update_orthogonal_path :: "heap \<Rightarrow> orthogonal_pipe \<Rightarrow> orthogonal_pipe \<times> path_report" where
  "update_orthogonal_path h pipe =
     (let start_port_obj = get_port_by_id (h (start_component pipe)) (start_port pipe);
          end_port_obj = get_port_by_id (h (end_component pipe)) (end_port pipe)
      in case start_port_obj of
           None \<Rightarrow> (pipe, Ports_not_found)
         | Some sp \<Rightarrow>
             (case end_port_obj of
                None \<Rightarrow> (pipe, Ports_not_found)
              | Some ep \<Rightarrow>
                  let start_pos = port_pos sp;
                      end_pos = port_pos ep;
                      points = calculate_orthogonal_path start_pos end_pos (waypoints pipe)
                  in if points \<noteq> []
                     then (pipe\<lparr>path := points, pipe_length := calculate_total_length points\<rparr>,
                           Path_updated)
                     else (pipe, Nothing_printed)))"

text \<open>
  \<open>OrthogonalPipe.__init__\<close>: \<open>waypoints or []\<close>, length \<open>0\<close>, an empty path, then
  \<open>setup_pipe\<close> computes the route.  The first \<open>pipe_id\<close> is derived from the identity.
\<close>

definition new_orthogonal_pipe ::
  "heap \<Rightarrow> obj_id \<Rightarrow> obj_id \<Rightarrow> string \<Rightarrow> obj_id \<Rightarrow> string \<Rightarrow> point list \<Rightarrow> orthogonal_pipe" where
  "new_orthogonal_pipe h self start_comp start_pid end_comp end_pid wps =
     fst (update_orthogonal_path h
            \<lparr>pipe_self = self, pipe_id = self, start_component = start_comp,
             start_port = start_pid, end_component = end_comp, end_port = end_pid,
             waypoints = wps, path = [], pipe_length = 0\<rparr>)"

section \<open>Transform controller (controllers/transform\_controller.py)\<close>

text \<open>
  The controller receives a list of scene items.  An item that has the attributes
  \<open>component_id\<close> and \<open>object_type\<close> is a hydraulic object; any other item is ignored.
  A list holds distinct objects (it is a selection), so mutating the objects in a loop is a
  \<open>map\<close> over the list.  A \<open>HydraulicObject\<close> has the methods \<open>update_ports_positions\<close>
  and \<open>setTransform\<close> and the attribute \<open>ports\<close>, and every port has
  \<open>initial_position\<close>; it has no method \<open>rotate_ports_around_center\<close> (the function of
  that name stands at module level), so \<open>_rotate_object_ports\<close> takes its second path.
  Signals and the transformation history are left out.
\<close>

datatype scene_item = Hydraulic hydraulic_object | Other_item

fun filter_hydraulic_objects :: "scene_item list \<Rightarrow> hydraulic_object list" where
  "filter_hydraulic_objects [] = []"
| "filter_hydraulic_objects (Hydraulic obj # objects) = obj # filter_hydraulic_objects objects"
| "filter_hydraulic_objects (Other_item # objects) = filter_hydraulic_objects objects"


subsection \<open>Rotation\<close>

text \<open>
  The three functions of the module \<open>math\<close> that the controller calls.  They work on
  floats and return the roundings of the platform's library, not exact values:
  \<open>math.cos(math.radians(90.0))\<close> is \<open>6.123233995736766e-17\<close>, not \<open>0\<close>, while
  \<open>math.sin(math.radians(90.0))\<close> is \<open>1.0\<close>.  The model takes the three functions as a
  parameter and assumes nothing about them.  The products and sums of the rotation are
  taken on real numbers.
\<close>

record math_module =
  math_radians :: "real \<Rightarrow> real"
  math_cos :: "real \<Rightarrow> real"
  math_sin :: "real \<Rightarrow> real"




subsection \<open>Alignment\<close>

text \<open>
  \<open>_calculate_alignment_reference\<close> raises \<open>ValueError\<close> on an empty list and on an
  unknown alignment type; \<open>_align_objects\<close> catches it and answers \<open>False\<close>.
  \<open>objects[-1]\<close> is \<open>last\<close> on a non-empty list.
\<close>

definition calculate_alignment_reference :: "hydraulic_object list \<Rightarrow> string \<Rightarrow> py_error + real" where
  "calculate_alignment_reference objects alignment_type =
     (if objects = [] then Inl ValueError
      else
        let reference_object = last objects;
            reference_pos = scene_pos reference_object
        in if alignment_type = ''horizontal'' then Inr (snd reference_pos)
           else if alignment_type = ''vertical'' then Inr (fst reference_pos)
           else Inl ValueError)"

definition update_object_ports_after_move ::
  "hydraulic_object \<Rightarrow> point \<Rightarrow> point \<Rightarrow> hydraulic_object" where
  "update_object_ports_after_move obj old_pos new_pos = update_ports_positions obj new_pos"

definition align_single_object :: "hydraulic_object \<Rightarrow> real \<Rightarrow> string \<Rightarrow> bool \<times> hydraulic_object" where
  "align_single_object obj reference_line alignment_type =
     (let current_pos = scene_pos obj
      in if alignment_type = ''horizontal'' then
           let new_pos = (fst current_pos, reference_line)
           in (True, update_object_ports_after_move (setPos obj new_pos) current_pos new_pos)
         else if alignment_type = ''vertical'' then
           let new_pos = (reference_line, snd current_pos)
           in (True, update_object_ports_after_move (setPos obj new_pos) current_pos new_pos)
         else (False, obj))"

definition align_objects :: "scene_item list \<Rightarrow> string \<Rightarrow> bool \<times> scene_item list" where
  "align_objects objects alignment_type =
     (if length objects < 2 then (False, objects)
      else
        let hydraulic_objects = filter_hydraulic_objects objects
        in if length hydraulic_objects < 2 then (False, objects)
           else
             case calculate_alignment_reference hydraulic_objects alignment_type of
               Inl e \<Rightarrow> (False, objects)
             | Inr reference_line \<Rightarrow>
                 (True,
                  map (\<lambda>item.
                         case item of
                           Hydraulic obj \<Rightarrow>
                             Hydraulic (snd (align_single_object obj reference_line alignment_type))
                         | Other_item \<Rightarrow> Other_item)
                    objects))"

definition align_objects_horizontal :: "scene_item list \<Rightarrow> bool \<times> scene_item list" where
  "align_objects_horizontal objects = align_objects objects ''horizontal''"

definition align_objects_vertical :: "scene_item list \<Rightarrow> bool \<times> scene_item list" where
  "align_objects_vertical objects = align_objects objects ''vertical''"

subsection \<open>Mirror\<close>

text \<open>\<open>QTransform\<close> product and \<open>QTransform().scale(sx, sy)\<close>, linear part only.\<close>

definition transform_mult ::
  "real \<times> real \<times> real \<times> real \<Rightarrow> real \<times> real \<times> real \<times> real \<Rightarrow> real \<times> real \<times> real \<times> real" where
  "transform_mult a b =
     (case a of (a11, a12, a21, a22) \<Rightarrow>
      case b of (b11, b12, b21, b22) \<Rightarrow>
        (a11 * b11 + a12 * b21, a11 * b12 + a12 * b22,
         a21 * b11 + a22 * b21, a21 * b12 + a22 * b22))"

definition scale_transform :: "real \<Rightarrow> real \<Rightarrow> real \<times> real \<times> real \<times> real" where
  "scale_transform sx sy = (sx, 0, 0, sy)"

definition flip_object_ports :: "hydraulic_object \<Rightarrow> string \<Rightarrow> hydraulic_object" where
  "flip_object_ports obj flip_type =
     (if ports obj = [] then obj
      else
        obj\<lparr>ports :=
          map (\<lambda>port.
                 let current_rel_pos = initial_position port
                 in if flip_type = ''horizontal'' then
                      let new_rel_pos = (- fst current_rel_pos, snd current_rel_pos)
                      in port\<lparr>initial_position := new_rel_pos,
                              port_pos := point_add (scene_pos obj) new_rel_pos\<rparr>
                    else if flip_type = ''vertical'' then
                      let new_rel_pos = (fst current_rel_pos, - snd current_rel_pos)
                      in port\<lparr>initial_position := new_rel_pos,
                              port_pos := point_add (scene_pos obj) new_rel_pos\<rparr>
                    else port)
            (ports obj)\<rparr>)"

definition flip_single_object_around_center ::
  "hydraulic_object \<Rightarrow> string \<Rightarrow> bool \<times> hydraulic_object" where
  "flip_single_object_around_center obj flip_type =
     (let obj1 = flip_object_ports obj flip_type;
          current_transform = transform obj1
      in if flip_type = ''horizontal'' then
           (True, obj1\<lparr>transform := transform_mult current_transform (scale_transform (- 1) 1)\<rparr>)
         else if flip_type = ''vertical'' then
           (True, obj1\<lparr>transform := transform_mult current_transform (scale_transform 1 (- 1))\<rparr>)
         else (False, obj1))"

text \<open>
  \<open>flip_objects_horizontal\<close> and \<open>flip_objects_vertical\<close>: every hydraulic object of the
  list is mirrored on its own.
\<close>

definition flip_objects_horizontal :: "scene_item list \<Rightarrow> bool \<times> scene_item list" where
  "flip_objects_horizontal objects =
     (if objects = [] then (False, objects)
      else if filter_hydraulic_objects objects = [] then (False, objects)
      else
        (True,
         map (\<lambda>item.
                case item of
                  Hydraulic obj \<Rightarrow>
                    Hydraulic (snd (flip_single_object_around_center obj ''horizontal''))
                | Other_item \<Rightarrow> Other_item)
           objects))"

definition flip_objects_vertical :: "scene_item list \<Rightarrow> bool \<times> scene_item list" where
  "flip_objects_vertical objects =
     (if objects = [] then (False, objects)
      else if filter_hydraulic_objects objects = [] then (False, objects)
      else
        (True,
         map (\<lambda>item.
                case item of
                  Hydraulic obj \<Rightarrow>
                    Hydraulic (snd (flip_single_object_around_center obj ''vertical''))
                | Other_item \<Rightarrow> Other_item)
           objects))"

text \<open>
  For the statements below: the rotation formula of the specification,
  \<open>(x cos \<theta> - y sin \<theta>, x sin \<theta> + y cos \<theta>)\<close> for \<open>\<theta>\<close> in degrees, with the cosine and the
  sine that the module \<open>math\<close> returns for the angle; the difference of two points; and the
  arithmetic mean of the scene positions of a list of components.
\<close>

definition rotated :: "math_module \<Rightarrow> real \<Rightarrow> point \<Rightarrow> point" where
  "rotated math angle_degrees v =
     (fst v * math_cos math (math_radians math angle_degrees) -
        snd v * math_sin math (math_radians math angle_degrees),
      fst v * math_sin math (math_radians math angle_degrees) +
        snd v * math_cos math (math_radians math angle_degrees))"



text \<open>
  The three objects of the controller's own test (\<open>pump_001\<close> at \<open>(100, 100)\<close>,
  \<open>valve_002\<close> at \<open>(200, 150)\<close>, \<open>tank_003\<close> at \<open>(150, 200)\<close>), each given one port at
  the relative position \<open>(10, 30)\<close>.
\<close>

definition test_object :: "obj_id \<Rightarrow> string \<Rightarrow> point \<Rightarrow> hydraulic_object" where
  "test_object self cid position =
     \<lparr>object_self = self, component_id = cid, object_type = ''PUMP'',
      base_svg_scale = 2, current_scale = 2,
      ports = [(new_port (self + 1) ''1'' ''input'' (10, 30) self)
                 \<lparr>port_pos := point_add position (10, 30), port_in_scene := True\<rparr>],
      scene_pos = position, rotation = 0, item_scale = 2, transform = (1, 0, 0, 1)\<rparr>"

definition pump_001 :: hydraulic_object where
  "pump_001 = test_object 10 ''pump_001'' (100, 100)"

definition valve_002 :: hydraulic_object where
  "valve_002 = test_object 20 ''valve_002'' (200, 150)"

definition tank_003 :: hydraulic_object where
  "tank_003 = test_object 30 ''tank_003'' (150, 200)"

text \<open>A heap that holds the three test objects at their identities.\<close>

definition test_heap :: heap where
  "test_heap ref = (if ref = 10 then pump_001 else if ref = 20 then valve_002 else tank_003)"

definition test_pipe :: orthogonal_pipe where
  "test_pipe =
     \<lparr>pipe_self = 40, pipe_id = 1, start_component = 10, start_port = ''1'',
      end_component = 20, end_port = ''1'', waypoints = [],
      path = [(110, 130), (210, 130), (210, 180)], pipe_length = 75\<rparr>"





section \<open>Connection controller (controllers/connection\_controller.py)\<close>

text \<open>
  The scene and the objects it shows.  \<open>objects\<close> is the heap; \<open>scene_items\<close> lists the
  identities of the hydraulic objects among \<open>scene.items()\<close>, in the order of that call;
  \<open>next_identity\<close> is the identity the next new pipe receives.
\<close>

record world =
  objects :: heap
  scene_items :: "obj_id list"
  next_identity :: obj_id

text \<open>\<open>InteractivePipeBuilder\<close>, without its preview path.\<close>

record interactive_pipe_builder =
  builder_start_component :: obj_id
  builder_start_port :: string
  builder_waypoints :: "point list"

text \<open>
  \<open>ConnectionController\<close>.  \<open>cc_start_component\<close> and \<open>cc_start_port_id\<close> are its
  attributes \<open>start_component\<close> and \<open>start_port_id\<close>.  The dictionary \<open>pipes\<close> is an
  association list in insertion order; the key \<open>n\<close> stands for the string \<open>pipe_n\<close>
  (three digits), which \<open>register_pipe\<close> also stores as the pipe's \<open>pipe_id\<close>.  Signals
  are left out.
\<close>

record connection_controller =
  connection_mode :: bool
  pipe_builder :: "interactive_pipe_builder option"
  cc_start_component :: "obj_id option"
  cc_start_port_id :: "string option"
  hovering_port :: "(string \<times> string) option"
  pipes :: "(nat \<times> orthogonal_pipe) list"
  pipe_counter :: nat

definition new_connection_controller :: connection_controller where
  "new_connection_controller =
     \<lparr>connection_mode = False, pipe_builder = None, cc_start_component = None,
      cc_start_port_id = None, hovering_port = None, pipes = [], pipe_counter = 0\<rparr>"

text \<open>
  A method applied to the port object that \<open>get_port_by_id\<close> returns changes the first
  port of the component with that identifier.
\<close>

fun map_first :: "('a \<Rightarrow> bool) \<Rightarrow> ('a \<Rightarrow> 'a) \<Rightarrow> 'a list \<Rightarrow> 'a list" where
  "map_first P f [] = []"
| "map_first P f (x # xs) = (if P x then f x # xs else x # map_first P f xs)"

definition update_port_by_id :: "hydraulic_object \<Rightarrow> string \<Rightarrow> (port \<Rightarrow> port) \<Rightarrow> hydraulic_object" where
  "update_port_by_id obj pid f = obj\<lparr>ports := map_first (\<lambda>port. port_id port = pid) f (ports obj)\<rparr>"

definition update_object :: "world \<Rightarrow> obj_id \<Rightarrow> (hydraulic_object \<Rightarrow> hydraulic_object) \<Rightarrow> world" where
  "update_object w ref f = w\<lparr>objects := (objects w)(ref := f (objects w ref))\<rparr>"

text \<open>\<open>find_component_by_id\<close>: the first scene item with the component identifier.\<close>

definition find_component_by_id :: "world \<Rightarrow> string \<Rightarrow> obj_id option" where
  "find_component_by_id w cid = find (\<lambda>ref. component_id (objects w ref) = cid) (scene_items w)"

text \<open>\<open>can_connect_ports\<close>: \<open>False\<close> when a port is missing, else the check of the ports.\<close>

definition can_connect_ports :: "port option \<Rightarrow> port option \<Rightarrow> bool" where
  "can_connect_ports start_port_obj end_port_obj =
     (case start_port_obj of
        None \<Rightarrow> False
      | Some sp \<Rightarrow>
          (case end_port_obj of
             None \<Rightarrow> False
           | Some ep \<Rightarrow> can_connect_to sp ep))"

definition cleanup_pipe_construction :: "connection_controller \<Rightarrow> connection_controller" where
  "cleanup_pipe_construction cc =
     cc\<lparr>pipe_builder := None, cc_start_component := None, cc_start_port_id := None,
        hovering_port := None\<rparr>"

definition cancel_pipe_construction :: "connection_controller \<Rightarrow> connection_controller" where
  "cancel_pipe_construction cc =
     (if pipe_builder cc \<noteq> None then cleanup_pipe_construction cc else cc)"

definition start_pipe_construction ::
  "connection_controller \<Rightarrow> obj_id \<Rightarrow> string \<Rightarrow> connection_controller" where
  "start_pipe_construction cc start_comp start_pid =
     (let cc1 = (if pipe_builder cc \<noteq> None then cancel_pipe_construction cc else cc)
      in cc1\<lparr>cc_start_component := Some start_comp,
             cc_start_port_id := Some start_pid,
             pipe_builder := Some \<lparr>builder_start_component = start_comp,
                                    builder_start_port = start_pid,
                                    builder_waypoints = []\<rparr>\<rparr>)"

definition add_waypoint :: "connection_controller \<Rightarrow> point \<Rightarrow> connection_controller" where
  "add_waypoint cc position =
     (case pipe_builder cc of
        None \<Rightarrow> cc
      | Some builder \<Rightarrow>
          cc\<lparr>pipe_builder :=
               Some (builder\<lparr>builder_waypoints := builder_waypoints builder @ [position]\<rparr>)\<rparr>)"

text \<open>\<open>register_pipe\<close>: the counter is the new key.\<close>

definition register_pipe ::
  "connection_controller \<Rightarrow> orthogonal_pipe \<Rightarrow> connection_controller \<times> nat" where
  "register_pipe cc pipe =
     (let n = pipe_counter cc + 1
      in (cc\<lparr>pipe_counter := n, pipes := AList.update n (pipe\<lparr>pipe_id := n\<rparr>) (pipes cc)\<rparr>, n))"

text \<open>
  \<open>InteractivePipeBuilder.finish_pipe\<close>: the pipe runs from the builder's start to the end
  given.  It raises nothing in this model, so the result is never \<open>None\<close>.
\<close>

definition finish_pipe ::
  "world \<Rightarrow> interactive_pipe_builder \<Rightarrow> obj_id \<Rightarrow> string \<Rightarrow> orthogonal_pipe" where
  "finish_pipe w builder end_comp end_pid =
     new_orthogonal_pipe (objects w) (next_identity w)
       (builder_start_component builder) (builder_start_port builder)
       end_comp end_pid (builder_waypoints builder)"

text \<open>
  \<open>finish_pipe_construction\<close>.  The check reads the controller's own start component and
  start port; with a builder but no start component the attribute access raises.
\<close>

definition finish_pipe_construction ::
  "world \<Rightarrow> connection_controller \<Rightarrow> string \<Rightarrow> string \<Rightarrow>
     py_error + world \<times> connection_controller" where
  "finish_pipe_construction w cc end_component_id end_port_id =
     (case pipe_builder cc of
        None \<Rightarrow> Inr (w, cc)
      | Some builder \<Rightarrow>
          (case find_component_by_id w end_component_id of
             None \<Rightarrow> Inr (w, cc)
           | Some end_comp \<Rightarrow>
               (case cc_start_component cc of
                  None \<Rightarrow> Inl AttributeError
                | Some start_comp \<Rightarrow>
                    let start_port_obj =
                          (case cc_start_port_id cc of
                             None \<Rightarrow> None
                           | Some pid \<Rightarrow> get_port_by_id (objects w start_comp) pid);
                        end_port_obj = get_port_by_id (objects w end_comp) end_port_id
                    in if \<not> can_connect_ports start_port_obj end_port_obj then Inr (w, cc)
                       else
                         let pipe = finish_pipe w builder end_comp end_port_id;
                             w1 = w\<lparr>next_identity := next_identity w + 1\<rparr>;
                             cc1 = fst (register_pipe cc pipe);
                             w2 = (case cc_start_port_id cc of
                                     None \<Rightarrow> w1
                                   | Some pid \<Rightarrow>
                                       update_object w1 start_comp
                                         (\<lambda>obj. update_port_by_id obj pid
                                            (\<lambda>p. connect_to_pipe p (pipe_self pipe))));
                             w3 = update_object w2 end_comp
                                    (\<lambda>obj. update_port_by_id obj end_port_id
                                       (\<lambda>p. connect_to_pipe p (pipe_self pipe)))
                         in Inr (w3, cleanup_pipe_construction cc1))))"

text \<open>
  \<open>remove_pipe\<close>: both ports are disconnected when they are found, the entry is deleted.
\<close>

definition remove_pipe ::
  "world \<Rightarrow> connection_controller \<Rightarrow> nat \<Rightarrow> (world \<times> connection_controller) \<times> bool" where
  "remove_pipe w cc key =
     (case map_of (pipes cc) key of
        None \<Rightarrow> ((w, cc), False)
      | Some pipe \<Rightarrow>
          let w1 = update_object w (start_component pipe)
                     (\<lambda>obj. update_port_by_id obj (start_port pipe) disconnect_from_pipe);
              w2 = update_object w1 (end_component pipe)
                     (\<lambda>obj. update_port_by_id obj (end_port pipe) disconnect_from_pipe)
          in ((w2, cc\<lparr>pipes := AList.delete key (pipes cc)\<rparr>), True))"

text \<open>The slots for the port signals and the mouse.\<close>

definition on_port_clicked ::
  "world \<Rightarrow> connection_controller \<Rightarrow> obj_id \<Rightarrow> string \<Rightarrow>
     py_error + world \<times> connection_controller" where
  "on_port_clicked w cc component pid =
     (if \<not> connection_mode cc then Inr (w, cc)
      else
        case get_port_by_id (objects w component) pid of
          None \<Rightarrow> Inr (w, cc)
        | Some port \<Rightarrow>
            if is_connected port then Inr (w, cc)
            else if pipe_builder cc = None
            then Inr (w, start_pipe_construction cc component pid)
            else
              (case cc_start_component cc of
                 None \<Rightarrow> Inl AttributeError
               | Some start_comp \<Rightarrow>
                   if component_id (objects w start_comp) = component_id (objects w component) \<and>
                      cc_start_port_id cc = Some pid
                   then Inr (w, cancel_pipe_construction cc)
                   else finish_pipe_construction w cc (component_id (objects w component)) pid))"

definition on_port_hovered ::
  "world \<Rightarrow> connection_controller \<Rightarrow> obj_id \<Rightarrow> string \<Rightarrow> bool \<Rightarrow> connection_controller" where
  "on_port_hovered w cc component pid is_entering =
     (if \<not> connection_mode cc then cc
      else if is_entering
      then cc\<lparr>hovering_port := Some (component_id (objects w component), pid)\<rparr>
      else cc\<lparr>hovering_port := None\<rparr>)"

definition handle_mouse_click ::
  "world \<Rightarrow> connection_controller \<Rightarrow> point \<Rightarrow> bool \<Rightarrow>
     py_error + world \<times> connection_controller" where
  "handle_mouse_click w cc position left_button =
     (if \<not> connection_mode cc \<or> \<not> left_button then Inr (w, cc)
      else if pipe_builder cc = None then Inr (w, cc)
      else
        case hovering_port cc of
          Some (cid, pid) \<Rightarrow> finish_pipe_construction w cc cid pid
        | None \<Rightarrow> Inr (w, add_waypoint cc position))"

definition toggle_mode :: "connection_controller \<Rightarrow> bool option \<Rightarrow> connection_controller" where
  "toggle_mode cc active =
     (let a = (case active of None \<Rightarrow> \<not> connection_mode cc | Some b \<Rightarrow> b)
      in if a = connection_mode cc then cc
         else if a then cc\<lparr>connection_mode := True\<rparr>
         else cancel_pipe_construction (cc\<lparr>connection_mode := False\<rparr>))"

text \<open>
  \<open>clear_all\<close>: a construction in progress is cancelled, every pipe is removed in the
  order of \<open>list(self.pipes.keys())\<close>, the counter is reset and the connection mode
  switched off.
\<close>

definition clear_all :: "world \<Rightarrow> connection_controller \<Rightarrow> world \<times> connection_controller" where
  "clear_all w cc =
     (let cc1 = (if pipe_builder cc \<noteq> None then cancel_pipe_construction cc else cc);
          s2 = fold (\<lambda>key s. fst (remove_pipe (fst s) (snd s) key)) (map fst (pipes cc1)) (w, cc1);
          cc3 = (snd s2)\<lparr>pipe_counter := 0\<rparr>
      in (fst s2, if connection_mode cc3 then toggle_mode cc3 (Some False) else cc3))"

text \<open>
  What the user and the other controllers can do to the connection controller: the slots
  above and direct calls of its public methods.
\<close>

datatype event =
    Port_clicked obj_id string
  | Port_hovered obj_id string bool
  | Mouse_clicked point bool
  | Toggle_mode "bool option"
  | Start_construction obj_id string
  | Add_waypoint point
  | Finish_construction string string
  | Cancel_construction
  | Remove_pipe nat
  | Clear_all

fun handle_event ::
  "event \<Rightarrow> world \<times> connection_controller \<Rightarrow> py_error + world \<times> connection_controller" where
  "handle_event (Port_clicked component pid) (w, cc) = on_port_clicked w cc component pid"
| "handle_event (Port_hovered component pid is_entering) (w, cc) =
     Inr (w, on_port_hovered w cc component pid is_entering)"
| "handle_event (Mouse_clicked position left_button) (w, cc) =
     handle_mouse_click w cc position left_button"
| "handle_event (Toggle_mode active) (w, cc) = Inr (w, toggle_mode cc active)"
| "handle_event (Start_construction component pid) (w, cc) =
     Inr (w, start_pipe_construction cc component pid)"
| "handle_event (Add_waypoint position) (w, cc) = Inr (w, add_waypoint cc position)"
| "handle_event (Finish_construction cid pid) (w, cc) = finish_pipe_construction w cc cid pid"
| "handle_event Cancel_construction (w, cc) = Inr (w, cancel_pipe_construction cc)"
| "handle_event (Remove_pipe key) (w, cc) = Inr (fst (remove_pipe w cc key))"
| "handle_event Clear_all (w, cc) = Inr (clear_all w cc)"

text \<open>
  Every port of an object names that object as its parent, as the constructor sets it.
\<close>

definition owned_ports :: "heap \<Rightarrow> bool" where
  "owned_ports h = (\<forall>ref. \<forall>p\<in>set (ports (h ref)). parent_component p = object_self (h ref))"

text \<open>
  For the statements below.  A port of a component, named by its identifier, holds a
  connection when \<open>get_port_by_id\<close> finds it and its flag \<open>is_connected\<close> is set.  The ends
  of a pipe are the two ports it names.
\<close>

definition connected_at :: "world \<Rightarrow> obj_id \<Rightarrow> string \<Rightarrow> bool" where
  "connected_at w component pid =
     (case get_port_by_id (objects w component) pid of
        None \<Rightarrow> False
      | Some port \<Rightarrow> is_connected port)"

definition pipe_ends :: "orthogonal_pipe \<Rightarrow> (obj_id \<times> string) set" where
  "pipe_ends pipe =
     {(start_component pipe, start_port pipe), (end_component pipe, end_port pipe)}"

text \<open>
  The states the editor can reach from a new controller: by an event that does not raise
  (one that raises leaves the state as it was), or by any change that the rest of the
  program makes to the objects and the scene, as long as ports stay with their owners.
\<close>

inductive reachable :: "world \<times> connection_controller \<Rightarrow> bool" where
  initial: "owned_ports (objects w) \<Longrightarrow> reachable (w, new_connection_controller)"
| step: "reachable s \<Longrightarrow> handle_event e s = Inr s' \<Longrightarrow> reachable s'"
| environment: "reachable (w, cc) \<Longrightarrow> owned_ports (objects w') \<Longrightarrow> reachable (w', cc)"

text \<open>
  The same, when the rest of the program takes no connection from a port.  Only the
  connection controller and the pipes it removes disconnect ports, except for
  \<open>ComponentController.remove_object\<close>, which disconnects the ports of the component it
  deletes and leaves the pipes of that component registered (the source marks this as still
  to be done).  Deleting a component that has pipes is therefore not among the changes of
  this second relation.
\<close>

inductive reachable_keeping_connections :: "world \<times> connection_controller \<Rightarrow> bool" where
  initial: "owned_ports (objects w) \<Longrightarrow>
     reachable_keeping_connections (w, new_connection_controller)"
| step: "reachable_keeping_connections s \<Longrightarrow> handle_event e s = Inr s' \<Longrightarrow>
     reachable_keeping_connections s'"
| environment:
    "reachable_keeping_connections (w, cc) \<Longrightarrow> owned_ports (objects w') \<Longrightarrow>
     (\<forall>component pid. connected_at w component pid \<longrightarrow> connected_at w' component pid) \<Longrightarrow>
     reachable_keeping_connections (w', cc)"

text \<open>
  The builder and the controller agree on the start of the construction; every registered
  pipe runs between two different components; both ends of every registered pipe hold a
  connection; no port is an end of two registered pipes.
\<close>

definition builder_agrees :: "connection_controller \<Rightarrow> bool" where
  "builder_agrees cc =
     (case pipe_builder cc of
        None \<Rightarrow> True
      | Some builder \<Rightarrow>
          cc_start_component cc = Some (builder_start_component builder) \<and>
          cc_start_port_id cc = Some (builder_start_port builder))"

definition pipes_join_two_components :: "connection_controller \<Rightarrow> bool" where
  "pipes_join_two_components cc =
     list_all (\<lambda>entry. start_component (snd entry) \<noteq> end_component (snd entry)) (pipes cc)"

definition pipes_on_connected_ports :: "world \<Rightarrow> connection_controller \<Rightarrow> bool" where
  "pipes_on_connected_ports w cc =
     list_all (\<lambda>entry. connected_at w (start_component (snd entry)) (start_port (snd entry)) \<and>
                      connected_at w (end_component (snd entry)) (end_port (snd entry)))
       (pipes cc)"

definition no_shared_port :: "connection_controller \<Rightarrow> bool" where
  "no_shared_port cc =
     (\<forall>e1 \<in> set (pipes cc). \<forall>e2 \<in> set (pipes cc).
        e1 \<noteq> e2 \<longrightarrow> pipe_ends (snd e1) \<inter> pipe_ends (snd e2) = {})"

definition controller_invariant :: "world \<times> connection_controller \<Rightarrow> bool" where
  "controller_invariant s =
     (owned_ports (objects (fst s)) \<and> builder_agrees (snd s) \<and>
      pipes_join_two_components (snd s))"

definition connection_invariant :: "world \<times> connection_controller \<Rightarrow> bool" where
  "connection_invariant s =
     (pipes_on_connected_ports (fst s) (snd s) \<and> no_shared_port (snd s))"

text \<open>The world of the three test objects, all of them in the scene.\<close>

definition test_world :: world where
  "test_world = \<lparr>objects = test_heap, scene_items = [10, 20, 30], next_identity = 40\<rparr>"

section \<open>Properties of the SVG port parser\<close>

subsection \<open>Coordinate conversion\<close>







subsection \<open>Port kind\<close>

text \<open>The helpers mean what their names say.\<close>


lemma take_eq_iff_prefix: "take (length kw) s = kw \<longleftrightarrow> (\<exists>suf. s = kw @ suf)"
proof
  assume "take (length kw) s = kw"
  then have "s = kw @ drop (length kw) s" by (metis append_take_drop_id)
  then show "\<exists>suf. s = kw @ suf" ..
next
  assume "\<exists>suf. s = kw @ suf"
  then show "take (length kw) s = kw" by auto
qed

lemma first_number_None_iff: "first_number s = None \<longleftrightarrow> (\<forall>c\<in>set s. \<not> is_digit c)"
  by (simp add: first_number_def Let_def dropWhile_eq_Nil_conv)

lemma first_number_Some:
  assumes "first_number s = Some ds"
  shows "\<exists>pre suf. s = pre @ ds @ suf \<and> (\<forall>c\<in>set pre. \<not> is_digit c) \<and> ds \<noteq> [] \<and>
           (\<forall>c\<in>set ds. is_digit c) \<and> (suf = [] \<or> \<not> is_digit (hd suf))"
proof -
  define rest where "rest = dropWhile (\<lambda>c. \<not> is_digit c) s"
  from assms have ne: "rest \<noteq> []" and ds: "ds = takeWhile is_digit rest"
    by (auto simp: first_number_def Let_def rest_def split: if_splits)
  have "s = takeWhile (\<lambda>c. \<not> is_digit c) s @ rest"
    by (simp add: rest_def)
  moreover have "rest = ds @ dropWhile is_digit rest"
    by (simp add: ds)
  ultimately have s: "s = takeWhile (\<lambda>c. \<not> is_digit c) s @ ds @ dropWhile is_digit rest"
    by simp
  have "\<not> \<not> is_digit (hd rest)"
    using ne unfolding rest_def by (rule hd_dropWhile)
  then have "ds \<noteq> []" using ne by (cases rest) (simp_all add: ds)
  moreover have "\<forall>c\<in>set (takeWhile (\<lambda>c. \<not> is_digit c) s). \<not> is_digit c"
    using set_takeWhileD by fastforce
  moreover have "\<forall>c\<in>set ds. is_digit c"
    unfolding ds using set_takeWhileD by fastforce
  moreover have "dropWhile is_digit rest = [] \<or> \<not> is_digit (hd (dropWhile is_digit rest))"
    using hd_dropWhile [of is_digit rest] by blast
  ultimately show ?thesis using s by blast
qed


lemma str_contains_iff: "str_contains kw s \<longleftrightarrow> (\<exists>pre suf. s = pre @ kw @ suf)"
proof (induction s)
  case Nil
  then show ?case by simp
next
  case (Cons c cs)
  show ?case
  proof
    assume "str_contains kw (c # cs)"
    then consider "take (length kw) (c # cs) = kw" | "str_contains kw cs" by auto
    then show "\<exists>pre suf. c # cs = pre @ kw @ suf"
    proof cases
      case 1
      then obtain suf where "c # cs = kw @ suf" using take_eq_iff_prefix by blast
      then have "c # cs = [] @ kw @ suf" by simp
      then show ?thesis by blast
    next
      case 2
      then obtain pre suf where "cs = pre @ kw @ suf" using Cons.IH by blast
      then have "c # cs = (c # pre) @ kw @ suf" by simp
      then show ?thesis by blast
    qed
  next
    assume "\<exists>pre suf. c # cs = pre @ kw @ suf"
    then obtain pre suf where e: "c # cs = pre @ kw @ suf" by blast
    show "str_contains kw (c # cs)"
    proof (cases pre)
      case Nil
      then have "c # cs = kw @ suf" using e by simp
      then have "take (length kw) (c # cs) = kw" using take_eq_iff_prefix by blast
      then show ?thesis by simp
    next
      case (Cons a pre')
      then have "cs = pre' @ kw @ suf" using e by simp
      then have "str_contains kw cs" using Cons.IH by blast
      then show ?thesis by simp
    qed
  qed
qed

lemma find_first_match:
  assumes "find P xs = Some x"
  shows "\<exists>pre suf. xs = pre @ x # suf \<and> P x \<and> (\<forall>y\<in>set pre. \<not> P y)"
  using assms
proof (induction xs)
  case Nil
  then show ?case by simp
next
  case (Cons a xs)
  show ?case
  proof (cases "P a")
    case True
    with Cons.prems have "a = x" by simp
    with True have "a # xs = [] @ x # xs \<and> P x \<and> (\<forall>y\<in>set []. \<not> P y)" by simp
    then show ?thesis by blast
  next
    case False
    with Cons.prems have "find P xs = Some x" by simp
    then obtain pre suf where "xs = pre @ x # suf" "P x" "\<forall>y\<in>set pre. \<not> P y"
      using Cons.IH by blast
    with False have "a # xs = (a # pre) @ x # suf \<and> P x \<and> (\<forall>y\<in>set (a # pre). \<not> P y)"
      by simp
    then show ?thesis by blast
  qed
qed

text \<open>
  C7 (as amended).  The port kind is decided by the first stage that applies:
  (a) the \<open>data-type\<close> attribute, lower-cased, when it is \<open>input\<close>, \<open>output\<close> or
  \<open>bidirectional\<close>; otherwise (b) the first of these three words, in this order, that
  occurs in the lower-cased \<open>class\<close> attribute; otherwise (c) the kind of the first keyword
  of the vocabulary, in table order, that occurs in the lower-cased identifier; otherwise
  (d) the parity of the first run of digits in the identifier (odd is \<open>input\<close>, even is
  \<open>output\<close>); otherwise (e) \<open>bidirectional\<close>.  The vocabulary maps \<open>inlet\<close>,
  \<open>aspiration\<close> and \<open>suction\<close> to \<open>input\<close>, \<open>outlet\<close>, \<open>discharge\<close> and
  \<open>refoulement\<close> to \<open>output\<close>, \<open>connection\<close> and \<open>both\<close> to \<open>bidirectional\<close>.
\<close>

theorem determine_port_type_precedence:
  "determine_port_type cid c =
     (let data_type = lower (get_attr c ''data-type'' '''');
          class_attr = lower (get_attr c ''class'' '''');
          id_lower = lower cid
      in if data_type = ''input'' \<or> data_type = ''output'' \<or> data_type = ''bidirectional''
         then data_type
         else if str_contains ''input'' class_attr then ''input''
         else if str_contains ''output'' class_attr then ''output''
         else if str_contains ''bidirectional'' class_attr then ''bidirectional''
         else case find (\<lambda>(keyword, kind). str_contains keyword id_lower) port_type_mapping of
                Some (keyword, kind) \<Rightarrow> kind
              | None \<Rightarrow>
                  (case first_number cid of
                     Some digits \<Rightarrow> if odd (py_int digits) then ''input'' else ''output''
                   | None \<Rightarrow> ''bidirectional'')) \<and>
   map (map_of port_type_mapping)
     [''inlet'', ''aspiration'', ''suction'', ''outlet'', ''discharge'', ''refoulement'',
      ''connection'', ''both''] =
     [Some ''input'', Some ''input'', Some ''input'', Some ''output'', Some ''output'',
      Some ''output'', Some ''bidirectional'', Some ''bidirectional'']"
proof
  show "determine_port_type cid c =
     (let data_type = lower (get_attr c ''data-type'' '''');
          class_attr = lower (get_attr c ''class'' '''');
          id_lower = lower cid
      in if data_type = ''input'' \<or> data_type = ''output'' \<or> data_type = ''bidirectional''
         then data_type
         else if str_contains ''input'' class_attr then ''input''
         else if str_contains ''output'' class_attr then ''output''
         else if str_contains ''bidirectional'' class_attr then ''bidirectional''
         else case find (\<lambda>(keyword, kind). str_contains keyword id_lower) port_type_mapping of
                Some (keyword, kind) \<Rightarrow> kind
              | None \<Rightarrow>
                  (case first_number cid of
                     Some digits \<Rightarrow> if odd (py_int digits) then ''input'' else ''output''
                   | None \<Rightarrow> ''bidirectional''))"
    by (simp add: determine_port_type_def port_kinds_def Let_def odd_iff_mod_2_eq_one
        split: option.splits)
  show "map (map_of port_type_mapping)
     [''inlet'', ''aspiration'', ''suction'', ''outlet'', ''discharge'', ''refoulement'',
      ''connection'', ''both''] =
     [Some ''input'', Some ''input'', Some ''input'', Some ''output'', Some ''output'',
      Some ''output'', Some ''bidirectional'', Some ''bidirectional'']"
    by (simp add: port_type_mapping_def)
qed

text \<open>
  Stage (d) does not read the numeric suffix: \<open>Port1_2\<close> matches the port patterns, its
  numeric suffix \<open>2\<close> is even, and the parser answers \<open>input\<close>, from the first run of
  digits \<open>1\<close>.
\<close>

theorem determine_port_type_suffix_counterexample:
  "is_port_id ''Port1_2'' \<and> numeric_suffix ''Port1_2'' = ''2'' \<and>
   even (py_int (numeric_suffix ''Port1_2'')) \<and>
   determine_port_type ''Port1_2'' \<lparr>attrib = Map.empty\<rparr> = ''input''"
  by code_simp

subsection \<open>Port order\<close>

lemma parse_svg_ports_sort:
  "parse_svg_ports f vb ts cs = sort_key port_sort_key (ports_in_document_order f vb ts cs)"
  by (simp add: parse_svg_ports_def ports_in_document_order_def split: sum.splits)

lemma collect_ports_document_order:
  assumes "collect_ports f vb ts acc cs = Inr ps"
  shows "\<exists>qs. ps = acc @ qs \<and>
           subseq (map svg_element_id qs) (map (\<lambda>c. get_attr c ''id'' '''') cs) \<and>
           list_all (\<lambda>q. is_port_id (svg_element_id q)) qs"
  using assms
proof (induction cs arbitrary: acc)
  case Nil
  then show ?case by simp
next
  case (Cons c cs)
  show ?case
  proof (cases "analyze_circle_as_port f c vb ts")
    case (Inl e)
    with Cons.prems show ?thesis by simp
  next
    case (Inr r)
    show ?thesis
    proof (cases r)
      case None
      with Inr Cons.prems have "collect_ports f vb ts acc cs = Inr ps" by simp
      then obtain qs where "ps = acc @ qs"
        "subseq (map svg_element_id qs) (map (\<lambda>c. get_attr c ''id'' '''') cs)"
        "list_all (\<lambda>q. is_port_id (svg_element_id q)) qs"
        using Cons.IH by blast
      then show ?thesis by (auto intro: subseq_Cons')
    next
      case (Some info)
      with Inr Cons.prems have "collect_ports f vb ts (acc @ [info]) cs = Inr ps" by simp
      then obtain qs where qs: "ps = (acc @ [info]) @ qs"
        "subseq (map svg_element_id qs) (map (\<lambda>c. get_attr c ''id'' '''') cs)"
        "list_all (\<lambda>q. is_port_id (svg_element_id q)) qs"
        using Cons.IH by blast
      from Inr Some have id: "svg_element_id info = get_attr c ''id'' ''''"
        and port: "is_port_id (svg_element_id info)"
        by (auto simp: analyze_circle_as_port_def Let_def split: if_splits option.splits sum.splits)
      have "ps = acc @ (info # qs)" using qs(1) by simp
      moreover have "subseq (map svg_element_id (info # qs))
                       (map (\<lambda>c. get_attr c ''id'' '''') (c # cs))"
        using qs(2) id by simp
      moreover have "list_all (\<lambda>q. is_port_id (svg_element_id q)) (info # qs)"
        using qs(3) port by simp
      ultimately show ?thesis by blast
    qed
  qed
qed

lemma no_number_sentinel: "first_number s = None \<Longrightarrow> extract_port_number s = 999"
  by (simp add: extract_port_number_def)

text \<open>
  C8 (as amended).  The port list returned for a drawing is the list of ports found in
  document order, stably sorted by the key of each port's original identifier: the value of
  its first run of digits, or the sentinel \<open>999\<close> when it holds no digit.  The keys are
  ascending, ports with equal keys keep their document order, and every identifier without
  a number stands after every identifier whose number is below \<open>999\<close>.
\<close>

theorem parse_svg_ports_sorted:
  "sorted (map port_sort_key (parse_svg_ports f vb ts cs)) \<and>
   mset (parse_svg_ports f vb ts cs) = mset (ports_in_document_order f vb ts cs) \<and>
   (\<forall>k. filter (\<lambda>p. port_sort_key p = k) (parse_svg_ports f vb ts cs) =
        filter (\<lambda>p. port_sort_key p = k) (ports_in_document_order f vb ts cs)) \<and>
   subseq (map svg_element_id (ports_in_document_order f vb ts cs))
     (map (\<lambda>c. get_attr c ''id'' '''') cs) \<and>
   (\<forall>i j. i < length (parse_svg_ports f vb ts cs) \<and> j < length (parse_svg_ports f vb ts cs) \<and>
      first_number (svg_element_id (parse_svg_ports f vb ts cs ! i)) = None \<and>
      port_sort_key (parse_svg_ports f vb ts cs ! j) < 999 \<longrightarrow> j < i)"
proof -
  let ?r = "parse_svg_ports f vb ts cs"
  let ?d = "ports_in_document_order f vb ts cs"
  have r: "?r = sort_key port_sort_key ?d" by (rule parse_svg_ports_sort)
  have sorted: "sorted (map port_sort_key ?r)" unfolding r by simp
  have perm: "mset ?r = mset ?d" unfolding r by simp
  have stable: "\<forall>k. filter (\<lambda>p. port_sort_key p = k) ?r = filter (\<lambda>p. port_sort_key p = k) ?d"
    unfolding r by (simp add: sort_key_stable)
  have doc: "subseq (map svg_element_id ?d) (map (\<lambda>c. get_attr c ''id'' '''') cs)"
  proof (cases "collect_ports f vb ts [] cs")
    case (Inl e)
    then show ?thesis by (simp add: ports_in_document_order_def)
  next
    case (Inr ps)
    then show ?thesis
      using collect_ports_document_order [OF Inr] by (auto simp: ports_in_document_order_def)
  qed
  have last: "j < i" if "i < length ?r" "j < length ?r"
    "first_number (svg_element_id (?r ! i)) = None" "port_sort_key (?r ! j) < 999" for i j
  proof (rule ccontr)
    assume "\<not> j < i"
    then have "i \<le> j" by simp
    then have "map port_sort_key ?r ! i \<le> map port_sort_key ?r ! j"
      using sorted that(2) by (simp add: sorted_iff_nth_mono del: nth_map)
    then have "port_sort_key (?r ! i) \<le> port_sort_key (?r ! j)"
      using that(1,2) by simp
    moreover have "port_sort_key (?r ! i) = 999"
      using that(3) by (simp add: port_sort_key_def no_number_sentinel)
    ultimately show False using that(4) by simp
  qed
  show ?thesis using sorted perm stable doc last by blast
qed

text \<open>Unfolding the parser on a concrete drawing.\<close>


lemmas parser_eval = parse_svg_ports_def test_circles_def test_float_of_def
  analyze_circle_as_port_def get_attr_def is_port_id_def matches_port_word_def
  matches_port_digits_def matches_port_underscore_digits_def before_dollar_def lower_def
  lower_char_def is_digit_def is_word_char_def extract_circle_position_def
  convert_svg_to_qt_coordinates_def py_round_def round_half_even_def Let_def
  clean_port_id_def determine_port_type_def port_kinds_def port_sort_key_def
  extract_port_number_def first_number_def py_int_def digit_value_def

theorem parse_svg_ports_sorted_witness:
  "map svg_element_id (parse_svg_ports test_float_of (0, 0, 30, 30) (30, 30) test_circles)
     = [''Port1'', ''Port2'', ''port_drain''] \<and>
   map info_position (parse_svg_ports test_float_of (0, 0, 30, 30) (30, 30) test_circles)
     = [(5, 15), (25, 15), (15, 25)] \<and>
   sorted (map port_sort_key
     (parse_svg_ports test_float_of (0, 0, 30, 30) (30, 30) test_circles)) \<and>
   first_number (svg_element_id
     (parse_svg_ports test_float_of (0, 0, 30, 30) (30, 30) test_circles ! 2)) = None \<and>
   port_sort_key (parse_svg_ports test_float_of (0, 0, 30, 30) (30, 30) test_circles ! 0)
     < 999 \<and>
   (0 :: nat) < 2"
proof -
  let ?r = "parse_svg_ports test_float_of (0, 0, 30, 30) (30, 30) test_circles"
  note at_test = parse_svg_ports_sorted [of test_float_of "(0, 0, 30, 30)" "(30, 30)" test_circles]
  have ids: "map svg_element_id ?r = [''Port1'', ''Port2'', ''port_drain'']"
    by code_simp
  have pos: "map info_position ?r = [(5, 15), (25, 15), (15, 25)]"
    by (simp add: parser_eval)
  have len: "length ?r = 3"
    by code_simp
  have i: "first_number (svg_element_id (?r ! 2)) = None"
    by code_simp
  have j: "port_sort_key (?r ! 0) < 999"
    by code_simp
  have s: "sorted (map port_sort_key ?r)" using at_test by (elim conjE)
  from at_test have "\<forall>i j. i < length ?r \<and> j < length ?r \<and>
      first_number (svg_element_id (?r ! i)) = None \<and>
      port_sort_key (?r ! j) < 999 \<longrightarrow> j < i"
    by (elim conjE)
  then have "2 < length ?r \<and> 0 < length ?r \<and>
      first_number (svg_element_id (?r ! 2)) = None \<and>
      port_sort_key (?r ! 0) < 999 \<longrightarrow> (0 :: nat) < 2"
    by (elim allE)
  then have o: "(0 :: nat) < 2" using len i j by (simp only: )
  show ?thesis
    by (intro conjI ids pos s i j o)
qed

text \<open>
  An identifier without a number does not always come last: with the circles \<open>Port1000\<close>
  and \<open>Port_a\<close> the key \<open>999\<close> of \<open>Port_a\<close> is the smaller one.
\<close>

theorem parse_svg_ports_sentinel_counterexample:
  "map svg_element_id
     (parse_svg_ports (\<lambda>s. None) (0, 0, 30, 30) (30, 30)
        [\<lparr>attrib = [''id'' \<mapsto> ''Port1000'']\<rparr>, \<lparr>attrib = [''id'' \<mapsto> ''Port_a'']\<rparr>])
     = [''Port_a'', ''Port1000'']"
  by code_simp

section \<open>Properties of scaling\<close>

lemma port_update_scale_fields [simp]:
  "initial_position (port_update_scale p s) = initial_position p"
  "port_pos (port_update_scale p s) = port_pos p"
  "port_in_scene (port_update_scale p s) = port_in_scene p"
  by (simp_all add: port_update_scale_def)

lemma update_ports_scale_fields [simp]:
  "object_type (update_ports_scale types obj) = object_type obj"
  "base_svg_scale (update_ports_scale types obj) = base_svg_scale obj"
  "current_scale (update_ports_scale types obj) = current_scale obj"
  "scene_pos (update_ports_scale types obj) = scene_pos obj"
  "length (ports (update_ports_scale types obj)) = length (ports obj)"
  by (simp_all add: update_ports_scale_def Let_def)

lemma update_ports_scale_in_scene [simp]:
  "map port_in_scene (ports (update_ports_scale types obj)) = map port_in_scene (ports obj)"
  by (rule nth_equalityI)
    (auto simp: update_ports_scale_def Let_def nth_enumerate_eq)

lemma update_ports_scale_rel:
  assumes "length (ports obj) = length (get_port_configs types (object_type obj))"
  shows "map initial_position (ports (update_ports_scale types obj)) =
           template_positions types (object_type obj) (current_scale obj)"
  by (rule nth_equalityI)
    (use assms in \<open>auto simp: update_ports_scale_def template_positions_def Let_def
       nth_enumerate_eq\<close>)

lemma update_ports_scale_abs:
  assumes "length (ports obj) = length (get_port_configs types (object_type obj))"
    and "list_all port_in_scene (ports obj)"
  shows "ports_in_place (update_ports_scale types obj)"
  unfolding ports_in_place_def list_all_length
proof (intro allI impI)
  fix n
  assume "n < length (ports (update_ports_scale types obj))"
  then have n: "n < length (ports obj)" by simp
  then have "port_in_scene (ports obj ! n)"
    using assms(2) by (simp add: list_all_length)
  then show "port_in_scene (ports (update_ports_scale types obj) ! n) \<and>
      port_pos (ports (update_ports_scale types obj) ! n) =
      point_add (scene_pos (update_ports_scale types obj))
        (initial_position (ports (update_ports_scale types obj) ! n))"
    using n assms(1) by (simp add: update_ports_scale_def Let_def nth_enumerate_eq)
qed

lemma component_of_type_length:
  "component_of_type types obj \<Longrightarrow>
     length (ports obj) = length (get_port_configs types (object_type obj))"
  by (auto simp: component_of_type_def get_port_configs_def split: option.splits)

lemma update_scale_fields [simp]:
  "object_type (update_scale types g obj s) = object_type obj"
  "base_svg_scale (update_scale types g obj s) = base_svg_scale obj"
  "scene_pos (update_scale types g obj s) = scene_pos obj"
  "length (ports (update_scale types g obj s)) = length (ports obj)"
  "map port_in_scene (ports (update_scale types g obj s)) = map port_in_scene (ports obj)"
  by (simp_all add: update_scale_def Let_def)

lemma update_scale_current [simp]:
  "current_scale (update_scale types g obj (Some s)) = base_svg_scale obj * s"
  by (simp add: update_scale_def Let_def)

lemma update_scale_component_of_type:
  "component_of_type types obj \<Longrightarrow> component_of_type types (update_scale types g obj s)"
  by (simp add: component_of_type_def split: option.splits)

lemma all_in_scene_map:
  "list_all port_in_scene ps \<longleftrightarrow> (\<forall>b\<in>set (map port_in_scene ps). b)"
  by (auto simp: list_all_iff)

lemma update_scale_all_in_scene:
  "list_all port_in_scene (ports obj) \<Longrightarrow>
     list_all port_in_scene (ports (update_scale types g obj s))"
  unfolding all_in_scene_map by (simp only: update_scale_fields)

lemma update_scale_at_template:
  assumes "component_of_type types obj"
    and "ports_at_template types obj \<or> base_svg_scale obj * s \<noteq> current_scale obj"
  shows "ports_at_template types (update_scale types g obj (Some s))"
proof (cases "base_svg_scale obj * s = current_scale obj")
  case True
  then have "update_scale types g obj (Some s) = obj"
    by (simp add: update_scale_def)
  with assms(2) True show ?thesis by simp
next
  case False
  let ?o = "obj\<lparr>current_scale := base_svg_scale obj * s, item_scale := base_svg_scale obj * s\<rparr>"
  have "length (ports ?o) = length (get_port_configs types (object_type ?o))"
    using component_of_type_length [OF assms(1)] by simp
  then have "map initial_position (ports (update_ports_scale types ?o)) =
      template_positions types (object_type ?o) (current_scale ?o)"
    by (rule update_ports_scale_rel)
  moreover have "update_scale types g obj (Some s) = update_ports_scale types ?o"
    using False by (simp add: update_scale_def Let_def)
  ultimately show ?thesis
    by (simp add: ports_at_template_def)
qed

lemma update_scale_in_place:
  assumes "component_of_type types obj"
    and "list_all port_in_scene (ports obj)"
    and "ports_in_place obj \<or> base_svg_scale obj * s \<noteq> current_scale obj"
  shows "ports_in_place (update_scale types g obj (Some s))"
proof (cases "base_svg_scale obj * s = current_scale obj")
  case True
  then have "update_scale types g obj (Some s) = obj"
    by (simp add: update_scale_def)
  with assms(3) True show ?thesis by simp
next
  case False
  let ?o = "obj\<lparr>current_scale := base_svg_scale obj * s, item_scale := base_svg_scale obj * s\<rparr>"
  have "length (ports ?o) = length (get_port_configs types (object_type ?o))"
    using component_of_type_length [OF assms(1)] by simp
  moreover have "list_all port_in_scene (ports ?o)" using assms(2) by simp
  ultimately have "ports_in_place (update_ports_scale types ?o)"
    by (rule update_ports_scale_abs)
  moreover have "update_scale types g obj (Some s) = update_ports_scale types ?o"
    using False by (simp add: update_scale_def Let_def)
  ultimately show ?thesis by simp
qed

lemma ports_in_place_positions:
  "ports_in_place obj \<Longrightarrow>
     map port_pos (ports obj) = map (point_add (scene_pos obj)) (map initial_position (ports obj))"
  by (simp add: ports_in_place_def list_all_iff)

lemma new_hydraulic_object_props:
  assumes "new_hydraulic_object types g alloc cid otype = Inr fresh"
  shows "component_of_type types fresh" "ports_at_template types fresh"
    "object_type fresh = otype" "scene_pos fresh = (0, 0)"
    "\<exists>config. types otype = Some config \<and> base_svg_scale fresh = svg_scale config"
proof -
  from assms obtain config where cfg: "types otype = Some config"
    by (auto simp: new_hydraulic_object_def split: option.splits)
  let ?o = "\<lparr>object_self = alloc, component_id = cid, object_type = otype,
                  base_svg_scale = svg_scale config,
                  current_scale = svg_scale config * g,
                  ports = create_ports alloc (get_port_configs types otype),
                  scene_pos = (0, 0), rotation = 0,
                  item_scale = svg_scale config * g,
                  transform = (1, 0, 0, 1)\<rparr>"
  have fresh: "fresh = update_ports_scale types ?o"
    using assms cfg by (simp add: new_hydraulic_object_def)
  have len: "length (ports ?o) = length (get_port_configs types (object_type ?o))"
    by (simp add: create_ports_def)
  show "component_of_type types fresh"
    using cfg len by (simp add: fresh component_of_type_def get_port_configs_def)
  show "ports_at_template types fresh"
    using update_ports_scale_rel [OF len] by (simp add: fresh ports_at_template_def)
  show "object_type fresh = otype" by (simp add: fresh)
  show "scene_pos fresh = (0, 0)" by (simp add: fresh)
  show "\<exists>config. types otype = Some config \<and> base_svg_scale fresh = svg_scale config"
    using cfg by (simp add: fresh)
qed

lemma add_object_props:
  assumes "add_object types g alloc cid otype position = Inr placed"
  shows "component_of_type types placed" "ports_at_template types placed"
    "object_type placed = otype" "scene_pos placed = position"
    "list_all port_in_scene (ports placed)" "ports_in_place placed"
    "\<exists>config. types otype = Some config \<and> base_svg_scale placed = svg_scale config"
proof -
  from assms obtain fresh where
    fresh: "new_hydraulic_object types g alloc cid otype = Inr fresh"
    and placed: "placed = add_object_ports_to_scene (setPos fresh position) position"
    by (auto simp: add_object_def create_hydraulic_object_def split: sum.splits)
  note f = new_hydraulic_object_props [OF fresh]
  have ports: "ports placed =
      map (\<lambda>port. port\<lparr>port_pos := point_add position (initial_position port),
                          port_in_scene := True\<rparr>) (ports fresh)"
    by (simp add: placed add_object_ports_to_scene_def setPos_def update_ports_positions_def
        comp_def)
  have same: "object_type placed = object_type fresh"
    "base_svg_scale placed = base_svg_scale fresh"
    "current_scale placed = current_scale fresh"
    by (simp_all add: placed add_object_ports_to_scene_def setPos_def update_ports_positions_def)
  show "scene_pos placed = position"
    by (simp add: placed add_object_ports_to_scene_def setPos_def update_ports_positions_def)
  then show "ports_in_place placed"
    by (simp add: ports_in_place_def ports list_all_iff)
  show "list_all port_in_scene (ports placed)"
    by (simp add: ports list_all_iff)
  show "component_of_type types placed"
    using f(1) by (simp add: component_of_type_def same ports split: option.splits)
  show "ports_at_template types placed"
    using f(2) by (simp add: ports_at_template_def same ports comp_def)
  show "object_type placed = otype" using f(3) same by simp
  show "\<exists>config. types otype = Some config \<and> base_svg_scale placed = svg_scale config"
    using f(5) same by simp
qed

lemma ports_at_template_rel:
  "ports_at_template types obj \<Longrightarrow>
     map initial_position (ports obj) =
       template_positions types (object_type obj) (current_scale obj)"
  by (simp add: ports_at_template_def)

text \<open>
  C2 (as amended).  Let \<open>c\<close> be a component of a configured type, and let \<open>s1\<close>,
  \<open>s2\<close> be scale multipliers such that the ports of \<open>c\<close> stand at the template
  positions times the current scale (as after construction and after every rescale that
  changed the scale), or the first or the second call changes the effective scale.  Then
  after \<open>update_scale(s1)\<close>, \<open>update_scale(s2)\<close>, \<open>update_scale(s1)\<close> every relative
  port position equals the one of a freshly constructed component after
  \<open>update_scale(s1)\<close>, namely the template position times \<open>base * s1\<close>.  If moreover
  the ports of \<open>c\<close> are in the scene (and in place, when no call changes the scale), the
  absolute port positions equal those of a component freshly added to the scene at the same
  position, after \<open>update_scale(s1)\<close>.
\<close>

theorem update_scale_round_trip:
  assumes type: "component_of_type types c"
    and fresh: "new_hydraulic_object types g alloc cid (object_type c) = Inr fresh"
    and placed: "add_object types g alloc cid (object_type c) (scene_pos c) = Inr placed"
    and moved: "ports_at_template types c \<or> base_svg_scale c * s1 \<noteq> current_scale c \<or>
                base_svg_scale c * s2 \<noteq> base_svg_scale c * s1"
  shows "map initial_position
           (ports (update_scale types g
              (update_scale types g (update_scale types g c (Some s1)) (Some s2)) (Some s1))) =
           map initial_position (ports (update_scale types g fresh (Some s1))) \<and>
         map initial_position (ports (update_scale types g fresh (Some s1))) =
           template_positions types (object_type c) (base_svg_scale c * s1) \<and>
         (list_all port_in_scene (ports c) \<and>
          (ports_in_place c \<or> base_svg_scale c * s1 \<noteq> current_scale c \<or>
           base_svg_scale c * s2 \<noteq> base_svg_scale c * s1) \<longrightarrow>
          map port_pos
            (ports (update_scale types g
               (update_scale types g (update_scale types g c (Some s1)) (Some s2)) (Some s1))) =
            map port_pos (ports (update_scale types g placed (Some s1))))"
proof -
  let ?c1 = "update_scale types g c (Some s1)"
  let ?c2 = "update_scale types g ?c1 (Some s2)"
  let ?c3 = "update_scale types g ?c2 (Some s1)"
  let ?f1 = "update_scale types g fresh (Some s1)"
  let ?p1 = "update_scale types g placed (Some s1)"
  let ?a = "base_svg_scale c * s1"
  let ?b = "base_svg_scale c * s2"
  have t1: "component_of_type types ?c1" using type by (rule update_scale_component_of_type)
  have t2: "component_of_type types ?c2" using t1 by (rule update_scale_component_of_type)
  have cur1: "current_scale ?c1 = ?a" by simp
  have cur2: "current_scale ?c2 = ?b" by simp
  have cur3: "current_scale ?c3 = ?a" by simp
  have at3: "ports_at_template types ?c3"
  proof (cases "?b = ?a")
    case False
    then have "base_svg_scale ?c2 * s1 \<noteq> current_scale ?c2" by simp
    then show ?thesis using update_scale_at_template [OF t2] by blast
  next
    case True
    with moved have "ports_at_template types c \<or> ?a \<noteq> current_scale c" by blast
    then have "ports_at_template types ?c1"
      using update_scale_at_template [OF type] by blast
    then have "ports_at_template types ?c2"
      using update_scale_at_template [OF t1] by blast
    then show ?thesis
      using update_scale_at_template [OF t2] by blast
  qed
  have rel3: "map initial_position (ports ?c3) = template_positions types (object_type c) ?a"
    using ports_at_template_rel [OF at3] by simp
  note f = new_hydraulic_object_props [OF fresh]
  obtain config where cfg: "types (object_type c) = Some config"
    "base_svg_scale fresh = svg_scale config"
    using f(5) by blast
  have base: "base_svg_scale fresh = base_svg_scale c"
    using type cfg by (simp add: component_of_type_def)
  have "ports_at_template types ?f1"
    using update_scale_at_template [OF f(1)] f(2) by blast
  then have relf: "map initial_position (ports ?f1) =
      template_positions types (object_type c) ?a"
    using ports_at_template_rel [of types ?f1] f(3) base by simp
  have abs: "map port_pos (ports ?c3) = map port_pos (ports ?p1)"
    if scene: "list_all port_in_scene (ports c)"
      and moved': "ports_in_place c \<or> ?a \<noteq> current_scale c \<or> ?b \<noteq> ?a"
  proof -
    have s1: "list_all port_in_scene (ports ?c1)" using scene by (rule update_scale_all_in_scene)
    have s2: "list_all port_in_scene (ports ?c2)" using s1 by (rule update_scale_all_in_scene)
    have in3: "ports_in_place ?c3"
    proof (cases "?b = ?a")
      case False
      then have "base_svg_scale ?c2 * s1 \<noteq> current_scale ?c2" by simp
      then show ?thesis using update_scale_in_place [OF t2 s2] by blast
    next
      case True
      with moved' have "ports_in_place c \<or> ?a \<noteq> current_scale c" by blast
      then have "ports_in_place ?c1"
        using update_scale_in_place [OF type scene] by blast
      then have "ports_in_place ?c2"
        using update_scale_in_place [OF t1 s1] by blast
      then show ?thesis
        using update_scale_in_place [OF t2 s2] by blast
    qed
    note p = add_object_props [OF placed]
    have basep: "base_svg_scale placed = base_svg_scale c"
      using type p(7) by (auto simp: component_of_type_def)
    have "ports_at_template types ?p1"
      using update_scale_at_template [OF p(1)] p(2) by blast
    then have relp: "map initial_position (ports ?p1) =
        template_positions types (object_type c) ?a"
      using ports_at_template_rel [of types ?p1] p(3) basep by simp
    have "ports_in_place ?p1"
      using update_scale_in_place [OF p(1) p(5)] p(6) by blast
    then have "map port_pos (ports ?p1) =
        map (point_add (scene_pos c)) (template_positions types (object_type c) ?a)"
      using ports_in_place_positions [of ?p1] relp p(4) by simp
    moreover have "map port_pos (ports ?c3) =
        map (point_add (scene_pos c)) (template_positions types (object_type c) ?a)"
      using ports_in_place_positions [OF in3] rel3 by simp
    ultimately show ?thesis by simp
  qed
  show ?thesis using rel3 relf abs by simp
qed

lemma fresh_pump_constructed:
  "new_hydraulic_object test_types 1 0 ''pump_002'' ''PUMP'' = Inr fresh_pump"
  by (simp add: new_hydraulic_object_def test_types_def fresh_pump_def update_ports_scale_def
      get_port_configs_def create_ports_def new_port_def port_update_scale_def BASE_RADIUS_def
      Let_def)

lemma pump_001_settled:
  "component_of_type test_types pump_001" "ports_at_template test_types pump_001"
  "list_all port_in_scene (ports pump_001)" "ports_in_place pump_001"
  by (simp_all add: component_of_type_def ports_at_template_def ports_in_place_def
      template_positions_def get_port_configs_def
      pump_001_def test_object_def test_types_def new_port_def point_add_def)

theorem update_scale_round_trip_witness:
  "component_of_type test_types pump_001 \<and> ports_at_template test_types pump_001 \<and>
   list_all port_in_scene (ports pump_001) \<and> ports_in_place pump_001 \<and>
   new_hydraulic_object test_types 1 0 ''pump_002'' ''PUMP'' = Inr fresh_pump \<and>
   map initial_position
     (ports (update_scale test_types 1
        (update_scale test_types 1 (update_scale test_types 1 pump_001 (Some 1.5)) (Some 3))
        (Some 1.5))) = [(15, 45)] \<and>
   map initial_position (ports (update_scale test_types 1 fresh_pump (Some 1.5))) = [(15, 45)] \<and>
   (\<exists>placed.
      add_object test_types 1 0 ''pump_002'' ''PUMP'' (100, 100) = Inr placed \<and>
      map port_pos
        (ports (update_scale test_types 1
           (update_scale test_types 1 (update_scale test_types 1 pump_001 (Some 1.5)) (Some 3))
           (Some 1.5))) =
      map port_pos (ports (update_scale test_types 1 placed (Some 1.5))))"
proof -
  let ?c3 = "update_scale test_types 1
        (update_scale test_types 1 (update_scale test_types 1 pump_001 (Some 1.5)) (Some 3))
        (Some 1.5)"
  have ot: "object_type pump_001 = ''PUMP''" "scene_pos pump_001 = (100, 100)"
    "base_svg_scale pump_001 = 2"
    by (simp_all add: pump_001_def test_object_def)
  obtain placed where
    placed: "add_object test_types 1 0 ''pump_002'' ''PUMP'' (100, 100) = Inr placed"
    by (simp add: add_object_def create_hydraulic_object_def fresh_pump_constructed)
  have fresh: "new_hydraulic_object test_types 1 0 ''pump_002'' (object_type pump_001) =
      Inr fresh_pump"
    by (simp add: ot fresh_pump_constructed)
  have placed': "add_object test_types 1 0 ''pump_002'' (object_type pump_001)
      (scene_pos pump_001) = Inr placed"
    by (simp add: ot placed)
  have moved: "ports_at_template test_types pump_001 \<or>
      base_svg_scale pump_001 * 1.5 \<noteq> current_scale pump_001 \<or>
      base_svg_scale pump_001 * 3 \<noteq> base_svg_scale pump_001 * 1.5"
    using pump_001_settled(2) by blast
  note rt = update_scale_round_trip [OF pump_001_settled(1) fresh placed' moved]
  have tp: "template_positions test_types (object_type pump_001) (base_svg_scale pump_001 * 1.5)
      = [(15, 45)]"
    by (simp add: ot template_positions_def get_port_configs_def test_types_def)
  have r1: "map initial_position (ports (update_scale test_types 1 fresh_pump (Some 1.5))) =
      [(15, 45)]"
    using rt tp by simp
  have r3: "map initial_position (ports ?c3) = [(15, 45)]"
    using rt r1 by simp
  have ab: "map port_pos (ports ?c3) =
      map port_pos (ports (update_scale test_types 1 placed (Some 1.5)))"
    using rt pump_001_settled(3,4) by blast
  show ?thesis
    using pump_001_settled fresh_pump_constructed r3 r1 placed ab by blast
qed

text \<open>
  The guard of \<open>update_scale\<close> skips the recomputation when the scale does not change:
  the test pump mirrored horizontally keeps the mirrored port through three calls with
  the multiplier \<open>1\<close>, while a fresh pump has the port at \<open>(10, 30)\<close>.
\<close>

theorem update_scale_round_trip_mirrored_counterexample:
  "new_hydraulic_object test_types 1 0 ''pump_002'' ''PUMP'' = Inr fresh_pump \<and>
   map initial_position (ports (update_scale test_types 1 fresh_pump (Some 1))) = [(10, 30)] \<and>
   component_of_type test_types
     (snd (flip_single_object_around_center pump_001 ''horizontal'')) \<and>
   map initial_position
     (ports (update_scale test_types 1
        (update_scale test_types 1
           (update_scale test_types 1
              (snd (flip_single_object_around_center pump_001 ''horizontal'')) (Some 1))
           (Some 1))
        (Some 1))) = [(- 10, 30)]"
proof (intro conjI)
  show "new_hydraulic_object test_types 1 0 ''pump_002'' ''PUMP'' = Inr fresh_pump"
    by (rule fresh_pump_constructed)
  show "map initial_position (ports (update_scale test_types 1 fresh_pump (Some 1))) = [(10, 30)]"
    by (simp add: update_scale_def fresh_pump_def)
  show "component_of_type test_types
      (snd (flip_single_object_around_center pump_001 ''horizontal''))"
    by (simp add: component_of_type_def flip_single_object_around_center_def
        flip_object_ports_def pump_001_def test_object_def test_types_def Let_def)
  show "map initial_position
     (ports (update_scale test_types 1
        (update_scale test_types 1
           (update_scale test_types 1
              (snd (flip_single_object_around_center pump_001 ''horizontal'')) (Some 1))
           (Some 1))
        (Some 1))) = [(- 10, 30)]"
    by (simp add: update_scale_def flip_single_object_around_center_def flip_object_ports_def
        pump_001_def test_object_def new_port_def Let_def)
qed

section \<open>Properties of the pipe router\<close>

lemma create_orthogonal_segments_tail:
  "\<exists>m. drop 1 (create_orthogonal_segments a b) = [m, b] \<and> shares_axis a m \<and> shares_axis m b"
  by (simp add: create_orthogonal_segments_def shares_axis_def Let_def)

lemma route_waypoints_invariant:
  assumes "points \<noteq> []" and "last points = cur" and "successively shares_axis points"
  shows "case route_waypoints points cur wps of
           (points', cur') \<Rightarrow>
             points' \<noteq> [] \<and> hd points' = hd points \<and> last points' = cur' \<and>
             successively shares_axis points' \<and>
             length points' = length points + 2 * length wps"
  using assms
proof (induction wps arbitrary: points cur)
  case Nil
  then show ?case by simp
next
  case (Cons w wps)
  obtain m where m: "drop 1 (create_orthogonal_segments cur w) = [m, w]"
    "shares_axis cur m" "shares_axis m w"
    using create_orthogonal_segments_tail by blast
  let ?ps = "points @ [m, w]"
  have "?ps \<noteq> []" "last ?ps = w" by simp_all
  moreover have "successively shares_axis ?ps"
    using Cons.prems m by (simp add: successively_append_iff)
  ultimately have "case route_waypoints ?ps w wps of
           (points', cur') \<Rightarrow>
             points' \<noteq> [] \<and> hd points' = hd ?ps \<and> last points' = cur' \<and>
             successively shares_axis points' \<and>
             length points' = length ?ps + 2 * length wps"
    by (rule Cons.IH)
  then show ?case using Cons.prems(1) m(1) by (auto split: prod.splits)
qed

lemma route_length:
  "length (calculate_orthogonal_path s e wps) = 2 * length wps + 3"
proof -
  obtain ps cur where r: "route_waypoints [s] s wps = (ps, cur)"
    by (cases "route_waypoints [s] s wps")
  have "case route_waypoints [s] s wps of
           (points', cur') \<Rightarrow>
             points' \<noteq> [] \<and> hd points' = hd [s] \<and> last points' = cur' \<and>
             successively shares_axis points' \<and>
             length points' = length [s] + 2 * length wps"
    by (rule route_waypoints_invariant) simp_all
  with r have "length ps = 1 + 2 * length wps" by simp
  moreover obtain m where "drop 1 (create_orthogonal_segments cur e) = [m, e]"
    using create_orthogonal_segments_tail by blast
  ultimately show ?thesis
    by (simp add: calculate_orthogonal_path_def r)
qed

text \<open>
  C3 (as amended).  For every start point, end point and list of waypoints the computed path
  starts at the start point, ends at the end point, has \<open>2 * n + 3\<close> points for \<open>n\<close>
  waypoints, and every two consecutive points agree in at least one coordinate: each segment
  is horizontal, vertical, or of length zero.
\<close>

theorem calculate_orthogonal_path_axis_aligned:
  "hd (calculate_orthogonal_path s e wps) = s \<and>
   last (calculate_orthogonal_path s e wps) = e \<and>
   length (calculate_orthogonal_path s e wps) = 2 * length wps + 3 \<and>
   successively shares_axis (calculate_orthogonal_path s e wps)"
proof -
  obtain ps cur where r: "route_waypoints [s] s wps = (ps, cur)"
    by (cases "route_waypoints [s] s wps")
  have "case route_waypoints [s] s wps of
           (points', cur') \<Rightarrow>
             points' \<noteq> [] \<and> hd points' = hd [s] \<and> last points' = cur' \<and>
             successively shares_axis points' \<and>
             length points' = length [s] + 2 * length wps"
    by (rule route_waypoints_invariant) simp_all
  with r have ps: "ps \<noteq> []" "hd ps = s" "last ps = cur" "successively shares_axis ps"
    "length ps = 1 + 2 * length wps"
    by simp_all
  obtain m where m: "drop 1 (create_orthogonal_segments cur e) = [m, e]"
    "shares_axis cur m" "shares_axis m e"
    using create_orthogonal_segments_tail by blast
  have path: "calculate_orthogonal_path s e wps = ps @ [m, e]"
    using m(1) by (simp add: calculate_orthogonal_path_def r)
  show ?thesis
    using ps m(2,3) by (simp add: path successively_append_iff)
qed

text \<open>
  The specification's reading fails when the two ends of a leg already share a coordinate:
  from \<open>(0, 0)\<close> to \<open>(5, 0)\<close> without waypoints the path is
  \<open>[(0, 0), (5, 0), (5, 0)]\<close>, whose last two points do not differ at all.
\<close>

theorem calculate_orthogonal_path_not_pure_counterexample:
  "calculate_orthogonal_path (0, 0) (5, 0) [] = [(0, 0), (5, 0), (5, 0)] \<and>
   \<not> successively pure_axis_segment (calculate_orthogonal_path (0, 0) (5, 0) [])"
  by (simp add: calculate_orthogonal_path_def create_orthogonal_segments_def
      pure_axis_segment_def)

subsection \<open>Recomputing the route of a pipe\<close>

text \<open>
  C9.  When the start port or the end port of a pipe cannot be found through its component
  references, \<open>update_orthogonal_path\<close> returns, reports that the ports were not found, and
  leaves the pipe as it was, path points and length included.  (The function is total: it
  has a result for every heap and pipe.)  When both ports are found the path is replaced by
  the route between the two port positions.
\<close>

theorem update_orthogonal_path_unresolved_port:
  "(get_port_by_id (h (start_component pipe)) (start_port pipe) = None \<or>
    get_port_by_id (h (end_component pipe)) (end_port pipe) = None \<longrightarrow>
      update_orthogonal_path h pipe = (pipe, Ports_not_found) \<and>
      path (fst (update_orthogonal_path h pipe)) = path pipe \<and>
      pipe_length (fst (update_orthogonal_path h pipe)) = pipe_length pipe) \<and>
   (\<forall>sp ep.
      get_port_by_id (h (start_component pipe)) (start_port pipe) = Some sp \<and>
      get_port_by_id (h (end_component pipe)) (end_port pipe) = Some ep \<longrightarrow>
        snd (update_orthogonal_path h pipe) = Path_updated \<and>
        path (fst (update_orthogonal_path h pipe)) =
          calculate_orthogonal_path (port_pos sp) (port_pos ep) (waypoints pipe))"
proof (intro conjI impI allI)
  assume unresolved:
    "get_port_by_id (h (start_component pipe)) (start_port pipe) = None \<or>
     get_port_by_id (h (end_component pipe)) (end_port pipe) = None"
  then show same: "update_orthogonal_path h pipe = (pipe, Ports_not_found)"
    by (auto simp: update_orthogonal_path_def Let_def split: option.splits)
  show "path (fst (update_orthogonal_path h pipe)) = path pipe"
    by (simp add: same)
  show "pipe_length (fst (update_orthogonal_path h pipe)) = pipe_length pipe"
    by (simp add: same)
next
  fix sp ep
  assume resolved:
    "get_port_by_id (h (start_component pipe)) (start_port pipe) = Some sp \<and>
     get_port_by_id (h (end_component pipe)) (end_port pipe) = Some ep"
  have "length (calculate_orthogonal_path (port_pos sp) (port_pos ep) (waypoints pipe)) =
      2 * length (waypoints pipe) + 3"
    by (rule route_length)
  then have ne: "calculate_orthogonal_path (port_pos sp) (port_pos ep) (waypoints pipe) \<noteq> []"
    by auto
  show "snd (update_orthogonal_path h pipe) = Path_updated"
    using resolved ne by (simp add: update_orthogonal_path_def Let_def)
  show "path (fst (update_orthogonal_path h pipe)) =
      calculate_orthogonal_path (port_pos sp) (port_pos ep) (waypoints pipe)"
    using resolved ne by (simp add: update_orthogonal_path_def Let_def)
qed

theorem update_orthogonal_path_unresolved_port_witness:
  "get_port_by_id (test_heap (end_component (test_pipe\<lparr>end_port := ''7''\<rparr>)))
     (end_port (test_pipe\<lparr>end_port := ''7''\<rparr>)) = None \<and>
   update_orthogonal_path test_heap (test_pipe\<lparr>end_port := ''7''\<rparr>) =
     (test_pipe\<lparr>end_port := ''7''\<rparr>, Ports_not_found) \<and>
   path (fst (update_orthogonal_path test_heap (test_pipe\<lparr>end_port := ''7''\<rparr>))) =
     [(110, 130), (210, 130), (210, 180)] \<and>
   pipe_length (fst (update_orthogonal_path test_heap (test_pipe\<lparr>end_port := ''7''\<rparr>))) = 75 \<and>
   snd (update_orthogonal_path test_heap (test_pipe\<lparr>waypoints := [(110, 200)]\<rparr>)) =
     Path_updated \<and>
   path (fst (update_orthogonal_path test_heap (test_pipe\<lparr>waypoints := [(110, 200)]\<rparr>))) =
     [(110, 130), (110, 200), (110, 200), (210, 200), (210, 180)]"
proof -
  let ?p = "test_pipe\<lparr>end_port := ''7''\<rparr>"
  let ?q = "test_pipe\<lparr>waypoints := [(110, 200)]\<rparr>"
  have none: "get_port_by_id (test_heap (end_component ?p)) (end_port ?p) = None"
    by (simp add: get_port_by_id_def test_heap_def test_pipe_def valve_002_def test_object_def
        new_port_def)
  note u = update_orthogonal_path_unresolved_port [of test_heap ?p]
  have same: "update_orthogonal_path test_heap ?p = (?p, Ports_not_found)"
    using u none by blast
  have pth: "path (fst (update_orthogonal_path test_heap ?p)) =
      [(110, 130), (210, 130), (210, 180)]"
    unfolding same by (simp add: test_pipe_def)
  have len: "pipe_length (fst (update_orthogonal_path test_heap ?p)) = 75"
    unfolding same by (simp add: test_pipe_def)
  have sp: "get_port_by_id (test_heap (start_component ?q)) (start_port ?q) =
      Some (hd (ports pump_001))"
    by (simp add: get_port_by_id_def test_heap_def test_pipe_def pump_001_def test_object_def
        new_port_def)
  have ep: "get_port_by_id (test_heap (end_component ?q)) (end_port ?q) =
      Some (hd (ports valve_002))"
    by (simp add: get_port_by_id_def test_heap_def test_pipe_def valve_002_def test_object_def
        new_port_def)
  note v = update_orthogonal_path_unresolved_port [of test_heap ?q]
  have upd: "snd (update_orthogonal_path test_heap ?q) = Path_updated"
    using v sp ep by blast
  have "path (fst (update_orthogonal_path test_heap ?q)) =
      calculate_orthogonal_path (port_pos (hd (ports pump_001))) (port_pos (hd (ports valve_002)))
        (waypoints ?q)"
    using v sp ep by blast
  also have "\<dots> = [(110, 130), (110, 200), (110, 200), (210, 200), (210, 180)]"
    by (simp add: calculate_orthogonal_path_def create_orthogonal_segments_def test_pipe_def
        pump_001_def valve_002_def test_object_def new_port_def point_add_def)
  finally have route: "path (fst (update_orthogonal_path test_heap ?q)) =
      [(110, 130), (110, 200), (110, 200), (210, 200), (210, 180)]" .
  show ?thesis
    by (intro conjI none same pth len upd route)
qed

section \<open>Properties of the transform controller\<close>

lemma filter_hydraulic_objects_map [simp]:
  "filter_hydraulic_objects (map Hydraulic objs) = objs"
  by (induction objs) simp_all

subsection \<open>Mirror\<close>

lemma flip_object_ports_horizontal:
  "flip_object_ports obj ''horizontal'' =
     obj\<lparr>ports := map (\<lambda>port. port\<lparr>initial_position :=
                                     (- fst (initial_position port), snd (initial_position port)),
                                   port_pos := point_add (scene_pos obj)
                                     (- fst (initial_position port), snd (initial_position port))\<rparr>)
                     (ports obj)\<rparr>"
  by (simp add: flip_object_ports_def Let_def)

lemma flip_object_ports_vertical:
  "flip_object_ports obj ''vertical'' =
     obj\<lparr>ports := map (\<lambda>port. port\<lparr>initial_position :=
                                     (fst (initial_position port), - snd (initial_position port)),
                                   port_pos := point_add (scene_pos obj)
                                     (fst (initial_position port), - snd (initial_position port))\<rparr>)
                     (ports obj)\<rparr>"
  by (simp add: flip_object_ports_def Let_def)

lemma flip_single_object_horizontal:
  "flip_single_object_around_center obj ''horizontal'' =
     (True, (flip_object_ports obj ''horizontal'')
              \<lparr>transform := transform_mult (transform obj) (scale_transform (- 1) 1)\<rparr>)"
  by (simp add: flip_single_object_around_center_def flip_object_ports_horizontal Let_def)

lemma flip_single_object_vertical:
  "flip_single_object_around_center obj ''vertical'' =
     (True, (flip_object_ports obj ''vertical'')
              \<lparr>transform := transform_mult (transform obj) (scale_transform 1 (- 1))\<rparr>)"
  by (simp add: flip_single_object_around_center_def flip_object_ports_vertical Let_def)

text \<open>
  C4.  Mirroring a component succeeds and leaves its scene position unchanged; a
  horizontal mirror negates the relative X of every port, a vertical mirror the relative Y;
  afterwards every port stands at the unchanged scene position plus its new relative
  position; and two horizontal mirrors in a row give every port its first relative position
  again.
\<close>

theorem flip_single_object_around_center_mirrors_ports:
  "fst (flip_single_object_around_center obj ''horizontal'') \<and>
   fst (flip_single_object_around_center obj ''vertical'') \<and>
   scene_pos (snd (flip_single_object_around_center obj ''horizontal'')) = scene_pos obj \<and>
   scene_pos (snd (flip_single_object_around_center obj ''vertical'')) = scene_pos obj \<and>
   map initial_position (ports (snd (flip_single_object_around_center obj ''horizontal''))) =
     map (\<lambda>p. (- fst (initial_position p), snd (initial_position p))) (ports obj) \<and>
   map initial_position (ports (snd (flip_single_object_around_center obj ''vertical''))) =
     map (\<lambda>p. (fst (initial_position p), - snd (initial_position p))) (ports obj) \<and>
   map port_pos (ports (snd (flip_single_object_around_center obj ''horizontal''))) =
     map (\<lambda>p. point_add (scene_pos obj) (initial_position p))
       (ports (snd (flip_single_object_around_center obj ''horizontal''))) \<and>
   map port_pos (ports (snd (flip_single_object_around_center obj ''vertical''))) =
     map (\<lambda>p. point_add (scene_pos obj) (initial_position p))
       (ports (snd (flip_single_object_around_center obj ''vertical''))) \<and>
   map initial_position
     (ports (snd (flip_single_object_around_center
                    (snd (flip_single_object_around_center obj ''horizontal'')) ''horizontal''))) =
     map initial_position (ports obj)"
proof -
  let ?h = "snd (flip_single_object_around_center obj ''horizontal'')"
  let ?v = "snd (flip_single_object_around_center obj ''vertical'')"
  have ok: "fst (flip_single_object_around_center obj ''horizontal'')"
    "fst (flip_single_object_around_center obj ''vertical'')"
    by (simp_all add: flip_single_object_horizontal flip_single_object_vertical)
  have pos: "scene_pos ?h = scene_pos obj" "scene_pos ?v = scene_pos obj"
    by (simp_all add: flip_single_object_horizontal flip_single_object_vertical
        flip_object_ports_horizontal flip_object_ports_vertical)
  have rel_h: "map initial_position (ports ?h) =
      map (\<lambda>p. (- fst (initial_position p), snd (initial_position p))) (ports obj)"
    by (simp add: flip_single_object_horizontal flip_object_ports_horizontal comp_def)
  have rel_v: "map initial_position (ports ?v) =
      map (\<lambda>p. (fst (initial_position p), - snd (initial_position p))) (ports obj)"
    by (simp add: flip_single_object_vertical flip_object_ports_vertical comp_def)
  have abs_h: "map port_pos (ports ?h) =
      map (\<lambda>p. point_add (scene_pos obj) (initial_position p)) (ports ?h)"
    by (simp add: flip_single_object_horizontal flip_object_ports_horizontal comp_def)
  have abs_v: "map port_pos (ports ?v) =
      map (\<lambda>p. point_add (scene_pos obj) (initial_position p)) (ports ?v)"
    by (simp add: flip_single_object_vertical flip_object_ports_vertical comp_def)
  have twice: "map initial_position
      (ports (snd (flip_single_object_around_center ?h ''horizontal''))) =
      map initial_position (ports obj)"
    by (simp add: flip_single_object_horizontal flip_object_ports_horizontal comp_def)
  show ?thesis
    by (intro conjI ok pos rel_h rel_v abs_h abs_v twice)
qed

theorem flip_single_object_around_center_witness:
  "map initial_position (ports pump_001) = [(10, 30)] \<and>
   map initial_position (ports (snd (flip_single_object_around_center pump_001 ''horizontal'')))
     = [(- 10, 30)] \<and>
   map port_pos (ports (snd (flip_single_object_around_center pump_001 ''horizontal'')))
     = [(90, 130)] \<and>
   scene_pos (snd (flip_single_object_around_center pump_001 ''horizontal'')) = (100, 100)"
proof -
  have p: "scene_pos pump_001 = (100, 100)" "map initial_position (ports pump_001) = [(10, 30)]"
    by (simp_all add: pump_001_def test_object_def new_port_def)
  note m = flip_single_object_around_center_mirrors_ports [of pump_001]
  have rel: "map initial_position
      (ports (snd (flip_single_object_around_center pump_001 ''horizontal''))) = [(- 10, 30)]"
    using m p by (simp add: pump_001_def test_object_def new_port_def)
  have "map port_pos (ports (snd (flip_single_object_around_center pump_001 ''horizontal''))) =
      map (\<lambda>p. point_add (scene_pos pump_001) (initial_position p))
       (ports (snd (flip_single_object_around_center pump_001 ''horizontal'')))"
    using m by (elim conjE)
  also have "\<dots> = map (point_add (scene_pos pump_001)) (map initial_position
       (ports (snd (flip_single_object_around_center pump_001 ''horizontal''))))"
    by (simp add: comp_def)
  also have "\<dots> = [(90, 130)]"
    unfolding rel by (simp add: p point_add_def)
  finally have abs: "map port_pos
      (ports (snd (flip_single_object_around_center pump_001 ''horizontal''))) = [(90, 130)]" .
  have sp: "scene_pos (snd (flip_single_object_around_center pump_001 ''horizontal'')) = (100, 100)"
    using m p(1) by simp
  show ?thesis
    by (intro conjI p(2) rel abs sp)
qed

subsection \<open>Alignment\<close>

lemma set_pos_then_update_ports:
  "update_ports_positions (setPos obj p) p =
     obj\<lparr>ports := map (\<lambda>port. port\<lparr>port_pos := point_add p (initial_position port)\<rparr>) (ports obj),
         scene_pos := p\<rparr>"
  by (simp add: setPos_def update_ports_positions_def comp_def)

lemma align_single_object_horizontal:
  "align_single_object obj r ''horizontal'' =
     (True, obj\<lparr>ports := map (\<lambda>port. port\<lparr>port_pos :=
                       point_add (fst (scene_pos obj), r) (initial_position port)\<rparr>) (ports obj),
                 scene_pos := (fst (scene_pos obj), r)\<rparr>)"
  by (simp add: align_single_object_def update_object_ports_after_move_def Let_def
      set_pos_then_update_ports)

lemma align_single_object_vertical:
  "align_single_object obj r ''vertical'' =
     (True, obj\<lparr>ports := map (\<lambda>port. port\<lparr>port_pos :=
                       point_add (r, snd (scene_pos obj)) (initial_position port)\<rparr>) (ports obj),
                 scene_pos := (r, snd (scene_pos obj))\<rparr>)"
  by (simp add: align_single_object_def update_object_ports_after_move_def Let_def
      set_pos_then_update_ports)

lemma align_objects_on_components:
  assumes "2 \<le> length objs" and "t = ''horizontal'' \<or> t = ''vertical''"
  shows "align_objects (map Hydraulic objs) t =
     (True, map (\<lambda>obj. Hydraulic (snd (align_single_object obj
        (if t = ''horizontal'' then snd (scene_pos (last objs)) else fst (scene_pos (last objs))) t)))
        objs)"
proof -
  from assms(1) have ne: "objs \<noteq> []" by auto
  have ref: "calculate_alignment_reference objs t =
    Inr (if t = ''horizontal'' then snd (scene_pos (last objs)) else fst (scene_pos (last objs)))"
    using ne assms(2) by (auto simp: calculate_alignment_reference_def Let_def)
  show ?thesis
    using assms(1) by (simp add: align_objects_def ref Let_def comp_def)
qed

text \<open>
  C6.  For a list of two or more components, horizontal alignment succeeds and gives every
  component the Y of the last component of the list while keeping its X; vertical
  alignment gives every component the X of the last component while keeping its Y.  The
  last component keeps its position.  Relative port positions do not change, and every port
  ends at its component's new position plus its relative position.
\<close>

theorem align_objects_reference_is_last:
  assumes "2 \<le> length objs"
  shows "(\<exists>aligned.
            align_objects_horizontal (map Hydraulic objs) = (True, map Hydraulic aligned) \<and>
            map scene_pos aligned =
              map (\<lambda>obj. (fst (scene_pos obj), snd (scene_pos (last objs)))) objs \<and>
            scene_pos (last aligned) = scene_pos (last objs) \<and>
            map (\<lambda>obj. map initial_position (ports obj)) aligned =
              map (\<lambda>obj. map initial_position (ports obj)) objs \<and>
            list_all (\<lambda>obj. list_all (\<lambda>p. port_pos p =
                point_add (scene_pos obj) (initial_position p)) (ports obj)) aligned) \<and>
         (\<exists>aligned.
            align_objects_vertical (map Hydraulic objs) = (True, map Hydraulic aligned) \<and>
            map scene_pos aligned =
              map (\<lambda>obj. (fst (scene_pos (last objs)), snd (scene_pos obj))) objs \<and>
            scene_pos (last aligned) = scene_pos (last objs) \<and>
            map (\<lambda>obj. map initial_position (ports obj)) aligned =
              map (\<lambda>obj. map initial_position (ports obj)) objs \<and>
            list_all (\<lambda>obj. list_all (\<lambda>p. port_pos p =
                point_add (scene_pos obj) (initial_position p)) (ports obj)) aligned)"
proof (intro conjI)
  from assms have ne: "objs \<noteq> []" by auto
  let ?h = "map (\<lambda>obj. snd (align_single_object obj (snd (scene_pos (last objs))) ''horizontal''))
              objs"
  let ?v = "map (\<lambda>obj. snd (align_single_object obj (fst (scene_pos (last objs))) ''vertical''))
              objs"
  have run_h: "align_objects_horizontal (map Hydraulic objs) = (True, map Hydraulic ?h)"
    using align_objects_on_components [OF assms, of "''horizontal''"]
    by (simp add: align_objects_horizontal_def comp_def)
  have run_v: "align_objects_vertical (map Hydraulic objs) = (True, map Hydraulic ?v)"
    using align_objects_on_components [OF assms, of "''vertical''"]
    by (simp add: align_objects_vertical_def comp_def)
  have pos_h: "map scene_pos ?h =
      map (\<lambda>obj. (fst (scene_pos obj), snd (scene_pos (last objs)))) objs"
    by (simp add: align_single_object_horizontal comp_def)
  have pos_v: "map scene_pos ?v =
      map (\<lambda>obj. (fst (scene_pos (last objs)), snd (scene_pos obj))) objs"
    by (simp add: align_single_object_vertical comp_def)
  have last_h: "scene_pos (last ?h) = scene_pos (last objs)"
    using ne by (simp add: last_map align_single_object_horizontal)
  have last_v: "scene_pos (last ?v) = scene_pos (last objs)"
    using ne by (simp add: last_map align_single_object_vertical)
  have rel_h: "map (\<lambda>obj. map initial_position (ports obj)) ?h =
      map (\<lambda>obj. map initial_position (ports obj)) objs"
    by (simp add: align_single_object_horizontal comp_def)
  have rel_v: "map (\<lambda>obj. map initial_position (ports obj)) ?v =
      map (\<lambda>obj. map initial_position (ports obj)) objs"
    by (simp add: align_single_object_vertical comp_def)
  have abs_h: "list_all (\<lambda>obj. list_all (\<lambda>p. port_pos p =
      point_add (scene_pos obj) (initial_position p)) (ports obj)) ?h"
    by (simp add: align_single_object_horizontal list_all_iff)
  have abs_v: "list_all (\<lambda>obj. list_all (\<lambda>p. port_pos p =
      point_add (scene_pos obj) (initial_position p)) (ports obj)) ?v"
    by (simp add: align_single_object_vertical list_all_iff)
  show "\<exists>aligned.
          align_objects_horizontal (map Hydraulic objs) = (True, map Hydraulic aligned) \<and>
          map scene_pos aligned =
            map (\<lambda>obj. (fst (scene_pos obj), snd (scene_pos (last objs)))) objs \<and>
          scene_pos (last aligned) = scene_pos (last objs) \<and>
          map (\<lambda>obj. map initial_position (ports obj)) aligned =
            map (\<lambda>obj. map initial_position (ports obj)) objs \<and>
          list_all (\<lambda>obj. list_all (\<lambda>p. port_pos p =
              point_add (scene_pos obj) (initial_position p)) (ports obj)) aligned"
    using run_h pos_h last_h rel_h abs_h by blast
  show "\<exists>aligned.
          align_objects_vertical (map Hydraulic objs) = (True, map Hydraulic aligned) \<and>
          map scene_pos aligned =
            map (\<lambda>obj. (fst (scene_pos (last objs)), snd (scene_pos obj))) objs \<and>
          scene_pos (last aligned) = scene_pos (last objs) \<and>
          map (\<lambda>obj. map initial_position (ports obj)) aligned =
            map (\<lambda>obj. map initial_position (ports obj)) objs \<and>
          list_all (\<lambda>obj. list_all (\<lambda>p. port_pos p =
              point_add (scene_pos obj) (initial_position p)) (ports obj)) aligned"
    using run_v pos_v last_v rel_v abs_v by blast
qed

lemma test_object_positions:
  "scene_pos pump_001 = (100, 100)" "scene_pos valve_002 = (200, 150)"
  "scene_pos tank_003 = (150, 200)"
  by (simp_all add: pump_001_def valve_002_def tank_003_def test_object_def)

theorem align_objects_reference_is_last_witness:
  "(2 :: nat) \<le> length [pump_001, valve_002, tank_003] \<and>
   (\<exists>aligned.
      align_objects_horizontal (map Hydraulic [pump_001, valve_002, tank_003]) =
        (True, map Hydraulic aligned) \<and>
      map scene_pos aligned = [(100, 200), (200, 200), (150, 200)]) \<and>
   (\<exists>aligned.
      align_objects_horizontal (map Hydraulic [tank_003, valve_002, pump_001]) =
        (True, map Hydraulic aligned) \<and>
      map scene_pos aligned = [(150, 100), (200, 100), (100, 100)])"
proof (intro conjI)
  show len: "(2 :: nat) \<le> length [pump_001, valve_002, tank_003]" by simp
  have len': "(2 :: nat) \<le> length [tank_003, valve_002, pump_001]" by simp
  from align_objects_reference_is_last [OF len]
  obtain aligned where
    "align_objects_horizontal (map Hydraulic [pump_001, valve_002, tank_003]) =
       (True, map Hydraulic aligned)"
    "map scene_pos aligned =
       map (\<lambda>obj. (fst (scene_pos obj), snd (scene_pos (last [pump_001, valve_002, tank_003]))))
         [pump_001, valve_002, tank_003]"
    by blast
  then show "\<exists>aligned.
      align_objects_horizontal (map Hydraulic [pump_001, valve_002, tank_003]) =
        (True, map Hydraulic aligned) \<and>
      map scene_pos aligned = [(100, 200), (200, 200), (150, 200)]"
    by (intro exI [of _ aligned]) (simp add: test_object_positions)
  from align_objects_reference_is_last [OF len']
  obtain aligned where
    "align_objects_horizontal (map Hydraulic [tank_003, valve_002, pump_001]) =
       (True, map Hydraulic aligned)"
    "map scene_pos aligned =
       map (\<lambda>obj. (fst (scene_pos obj), snd (scene_pos (last [tank_003, valve_002, pump_001]))))
         [tank_003, valve_002, pump_001]"
    by blast
  then show "\<exists>aligned.
      align_objects_horizontal (map Hydraulic [tank_003, valve_002, pump_001]) =
        (True, map Hydraulic aligned) \<and>
      map scene_pos aligned = [(150, 100), (200, 100), (100, 100)]"
    by (intro exI [of _ aligned]) (simp add: test_object_positions)
qed

subsection \<open>Rotation\<close>




lemma rotated_origin [simp]: "rotated math a (0, 0) = (0, 0)"
  by (simp add: rotated_def)












section \<open>Properties of the connection controller\<close>

subsection \<open>Ports and their owners\<close>

lemma can_connect_to_iff:
  "can_connect_to p q \<longleftrightarrow>
     \<not> is_connected p \<and> \<not> is_connected q \<and> port_self p \<noteq> port_self q \<and>
     parent_component p \<noteq> parent_component q"
  by (simp add: can_connect_to_def)

lemma list_all_alist_update:
  "P (k, v) \<Longrightarrow> list_all P al \<Longrightarrow> list_all P (AList.update k v al)"
  by (induction al) auto

lemma list_all_alist_delete:
  "list_all P al \<Longrightarrow> list_all P (AList.delete k al)"
  by (induction al) auto

lemma set_map_first: "set (map_first P f xs) \<subseteq> set xs \<union> f ` set xs"
  by (induction xs) auto

lemma owned_portsD:
  "owned_ports h \<Longrightarrow> p \<in> set (ports (h ref)) \<Longrightarrow> parent_component p = object_self (h ref)"
  unfolding owned_ports_def by blast

lemma update_port_by_id_self [simp]:
  "object_self (update_port_by_id obj pid f) = object_self obj"
  by (simp add: update_port_by_id_def)

lemma update_port_by_id_ports:
  assumes "p \<in> set (ports (update_port_by_id obj pid f))"
  shows "p \<in> set (map_first (\<lambda>port. port_id port = pid) f (ports obj))"
  using assms by (simp add: update_port_by_id_def)

lemma update_port_by_id_parent:
  assumes "\<And>q. parent_component (f q) = parent_component q"
    and "p \<in> set (ports (update_port_by_id obj pid f))"
  shows "\<exists>p0 \<in> set (ports obj). parent_component p = parent_component p0"
proof -
  from assms(2) have "p \<in> set (map_first (\<lambda>port. port_id port = pid) f (ports obj))"
    by (rule update_port_by_id_ports)
  moreover have "set (map_first (\<lambda>port. port_id port = pid) f (ports obj)) \<subseteq>
      set (ports obj) \<union> f ` set (ports obj)"
    by (rule set_map_first)
  ultimately have "p \<in> set (ports obj) \<union> f ` set (ports obj)"
    by (rule subsetD [rotated])
  then have "p \<in> set (ports obj) \<or> p \<in> f ` set (ports obj)"
    by (rule UnE) (rule disjI1, assumption, rule disjI2, assumption)
  then show ?thesis
  proof
    assume "p \<in> set (ports obj)"
    then show ?thesis by (rule bexI [rotated]) (rule refl)
  next
    assume "p \<in> f ` set (ports obj)"
    then obtain p0 where p0: "p0 \<in> set (ports obj)" and e: "p = f p0"
      by (rule imageE)
    have "parent_component p = parent_component p0"
      unfolding e by (rule assms(1))
    then show ?thesis using p0 by (rule bexI)
  qed
qed

lemma owned_portsI:
  "(\<And>ref p. p \<in> set (ports (h ref)) \<Longrightarrow> parent_component p = object_self (h ref)) \<Longrightarrow>
     owned_ports h"
  unfolding owned_ports_def by (intro allI ballI)

lemma owned_ports_update_object:
  assumes own: "owned_ports (objects w)"
    and keep: "\<And>q. parent_component (f q) = parent_component q"
  shows "owned_ports (objects (update_object w ref (\<lambda>obj. update_port_by_id obj pid f)))"
proof (rule owned_portsI)
  fix r p
  assume p: "p \<in> set (ports (objects (update_object w ref
      (\<lambda>obj. update_port_by_id obj pid f)) r))"
  show "parent_component p =
      object_self (objects (update_object w ref (\<lambda>obj. update_port_by_id obj pid f)) r)"
  proof (cases "r = ref")
    case False
    then have same: "objects (update_object w ref (\<lambda>obj. update_port_by_id obj pid f)) r =
        objects w r"
      by (simp add: update_object_def)
    from p have "p \<in> set (ports (objects w r))" unfolding same .
    with own have "parent_component p = object_self (objects w r)" by (rule owned_portsD)
    then show ?thesis unfolding same .
  next
    case True
    then have upd: "objects (update_object w ref (\<lambda>obj. update_port_by_id obj pid f)) r =
        update_port_by_id (objects w ref) pid f"
      by (simp add: update_object_def)
    from p have "p \<in> set (ports (update_port_by_id (objects w ref) pid f))" unfolding upd .
    with keep have "\<exists>p0 \<in> set (ports (objects w ref)). parent_component p = parent_component p0"
      by (rule update_port_by_id_parent)
    then obtain p0 where p0: "p0 \<in> set (ports (objects w ref))"
      and e: "parent_component p = parent_component p0"
      by (rule bexE)
    from own p0 have "parent_component p0 = object_self (objects w ref)" by (rule owned_portsD)
    with e have "parent_component p = object_self (objects w ref)" by (rule trans)
    then show ?thesis unfolding upd by (simp only: update_port_by_id_self)
  qed
qed

lemma connect_parent: "parent_component (connect_to_pipe q k) = parent_component q"
  by (simp add: connect_to_pipe_def)

lemma disconnect_parent: "parent_component (disconnect_from_pipe q) = parent_component q"
  by (simp add: disconnect_from_pipe_def)

lemma get_port_by_id_member:
  assumes "get_port_by_id obj pid = Some p"
  shows "p \<in> set (ports obj)"
proof -
  from assms have "find (\<lambda>port. port_id port = pid) (ports obj) = Some p"
    by (simp only: get_port_by_id_def)
  then have "\<exists>i<length (ports obj). (port_id (ports obj ! i) = pid) \<and> p = ports obj ! i \<and>
      (\<forall>j<i. \<not> port_id (ports obj ! j) = pid)"
    by (simp only: find_Some_iff)
  then obtain i where "i < length (ports obj)" "p = ports obj ! i"
    by (elim exE conjE)
  then show ?thesis by (simp only: nth_mem)
qed

subsection \<open>The steps of the controller\<close>

lemma finish_pipe_construction_cases:
  assumes "finish_pipe_construction w cc cid pid = Inr (w', cc')"
  shows "(w' = w \<and> cc' = cc) \<or>
     (\<exists>builder start_comp start_pid end_comp sp ep.
        pipe_builder cc = Some builder \<and> cc_start_component cc = Some start_comp \<and>
        cc_start_port_id cc = Some start_pid \<and>
        find_component_by_id w cid = Some end_comp \<and>
        get_port_by_id (objects w start_comp) start_pid = Some sp \<and>
        get_port_by_id (objects w end_comp) pid = Some ep \<and>
        can_connect_to sp ep \<and>
        cc' = cleanup_pipe_construction
                (fst (register_pipe cc (finish_pipe w builder end_comp pid))) \<and>
        w' = update_object
               (update_object (w\<lparr>next_identity := next_identity w + 1\<rparr>) start_comp
                  (\<lambda>obj. update_port_by_id obj start_pid
                     (\<lambda>p. connect_to_pipe p (pipe_self (finish_pipe w builder end_comp pid)))))
               end_comp
               (\<lambda>obj. update_port_by_id obj pid
                  (\<lambda>p. connect_to_pipe p (pipe_self (finish_pipe w builder end_comp pid)))))"
proof (cases "pipe_builder cc")
  case None
  with assms show ?thesis by (simp add: finish_pipe_construction_def)
next
  case builder: (Some builder)
  show ?thesis
  proof (cases "find_component_by_id w cid")
    case None
    with assms builder show ?thesis by (simp add: finish_pipe_construction_def)
  next
    case end_comp: (Some end_comp)
    show ?thesis
    proof (cases "cc_start_component cc")
      case None
      with assms builder end_comp show ?thesis by (simp add: finish_pipe_construction_def)
    next
      case start_comp: (Some start_comp)
      show ?thesis
      proof (cases "cc_start_port_id cc")
        case None
        with assms builder end_comp start_comp show ?thesis
          by (simp add: finish_pipe_construction_def can_connect_ports_def)
      next
        case start_pid: (Some start_pid)
        show ?thesis
        proof (cases "get_port_by_id (objects w start_comp) start_pid")
          case None
          with assms builder end_comp start_comp start_pid show ?thesis
            by (simp add: finish_pipe_construction_def can_connect_ports_def)
        next
          case sp: (Some sp)
          show ?thesis
          proof (cases "get_port_by_id (objects w end_comp) pid")
            case None
            with assms builder end_comp start_comp start_pid sp show ?thesis
              by (simp add: finish_pipe_construction_def can_connect_ports_def)
          next
            case ep: (Some ep)
            show ?thesis
            proof (cases "can_connect_to sp ep")
              case False
              with assms builder end_comp start_comp start_pid sp ep show ?thesis
                by (simp add: finish_pipe_construction_def can_connect_ports_def)
            next
              case True
              with assms builder end_comp start_comp start_pid sp ep
              have "cc' = cleanup_pipe_construction
                  (fst (register_pipe cc (finish_pipe w builder end_comp pid)))"
                and "w' = update_object
                 (update_object (w\<lparr>next_identity := next_identity w + 1\<rparr>) start_comp
                    (\<lambda>obj. update_port_by_id obj start_pid
                       (\<lambda>p. connect_to_pipe p (pipe_self (finish_pipe w builder end_comp pid)))))
                 end_comp
                 (\<lambda>obj. update_port_by_id obj pid
                    (\<lambda>p. connect_to_pipe p (pipe_self (finish_pipe w builder end_comp pid))))"
                by (simp_all add: finish_pipe_construction_def can_connect_ports_def Let_def)
              with True builder end_comp start_comp start_pid sp ep show ?thesis
                by (intro disjI2 exI conjI)
            qed
          qed
        qed
      qed
    qed
  qed
qed

lemma cleanup_agrees: "builder_agrees (cleanup_pipe_construction cc)"
  by (simp add: builder_agrees_def cleanup_pipe_construction_def)

lemma cleanup_pipes [simp]: "pipes (cleanup_pipe_construction cc) = pipes cc"
  by (simp add: cleanup_pipe_construction_def)

lemma cancel_agrees: "builder_agrees cc \<Longrightarrow> builder_agrees (cancel_pipe_construction cc)"
  by (simp add: cancel_pipe_construction_def cleanup_agrees)

lemma cancel_pipes [simp]: "pipes (cancel_pipe_construction cc) = pipes cc"
  by (simp add: cancel_pipe_construction_def)

lemma start_agrees: "builder_agrees (start_pipe_construction cc c p)"
  by (simp add: builder_agrees_def start_pipe_construction_def Let_def)

lemma start_pipes [simp]: "pipes (start_pipe_construction cc c p) = pipes cc"
  by (simp add: start_pipe_construction_def Let_def)

lemma add_waypoint_agrees: "builder_agrees cc \<Longrightarrow> builder_agrees (add_waypoint cc position)"
  by (simp add: builder_agrees_def add_waypoint_def split: option.splits)

lemma add_waypoint_pipes [simp]: "pipes (add_waypoint cc position) = pipes cc"
  by (simp add: add_waypoint_def split: option.splits)

lemma hover_agrees: "builder_agrees cc \<Longrightarrow> builder_agrees (on_port_hovered w cc c p e)"
  by (simp add: builder_agrees_def on_port_hovered_def split: option.splits)

lemma hover_pipes [simp]: "pipes (on_port_hovered w cc c p e) = pipes cc"
  by (simp add: on_port_hovered_def)

lemma toggle_agrees: "builder_agrees cc \<Longrightarrow> builder_agrees (toggle_mode cc a)"
proof -
  assume a: "builder_agrees cc"
  have m: "builder_agrees (cc\<lparr>connection_mode := b\<rparr>)" for b
    using a by (simp add: builder_agrees_def split: option.splits)
  show ?thesis
    by (simp add: toggle_mode_def Let_def a m cancel_agrees)
qed

lemma toggle_pipes [simp]: "pipes (toggle_mode cc a) = pipes cc"
  by (simp add: toggle_mode_def Let_def)

lemma finish_pipe_ends:
  "start_component (finish_pipe w builder end_comp pid) = builder_start_component builder"
  "end_component (finish_pipe w builder end_comp pid) = end_comp"
  "start_port (finish_pipe w builder end_comp pid) = builder_start_port builder"
  "end_port (finish_pipe w builder end_comp pid) = pid"
  by (simp_all add: finish_pipe_def new_orthogonal_pipe_def update_orthogonal_path_def Let_def
      split: option.splits)

subsection \<open>The invariant\<close>

lemma invariantI:
  "owned_ports (objects w) \<Longrightarrow> builder_agrees cc \<Longrightarrow> pipes_join_two_components cc \<Longrightarrow>
     controller_invariant (w, cc)"
  by (simp add: controller_invariant_def)

lemma invariantD:
  assumes "controller_invariant (w, cc)"
  shows "owned_ports (objects w)" "builder_agrees cc" "pipes_join_two_components cc"
  using assms by (simp_all add: controller_invariant_def)

lemma invariant_controller_only:
  assumes "controller_invariant (w, cc)" "builder_agrees cc'" "pipes cc' = pipes cc"
  shows "controller_invariant (w, cc')"
  using assms by (simp add: controller_invariant_def pipes_join_two_components_def)

text \<open>Two ports that may be connected sit on different components.\<close>

lemma connectable_ports_different_components:
  assumes own: "owned_ports (objects w)"
    and sp: "get_port_by_id (objects w start_comp) start_pid = Some sp"
    and ep: "get_port_by_id (objects w end_comp) pid = Some ep"
    and ok: "can_connect_to sp ep"
  shows "start_comp \<noteq> end_comp"
proof
  assume same: "start_comp = end_comp"
  from sp have "sp \<in> set (ports (objects w start_comp))" by (rule get_port_by_id_member)
  with own have a: "parent_component sp = object_self (objects w start_comp)"
    by (rule owned_portsD)
  from ep have "ep \<in> set (ports (objects w end_comp))" by (rule get_port_by_id_member)
  with own have b: "parent_component ep = object_self (objects w end_comp)"
    by (rule owned_portsD)
  from a b same have "parent_component sp = parent_component ep" by simp
  with ok show False by (simp add: can_connect_to_iff)
qed

lemma finish_preserves_invariant:
  assumes inv: "controller_invariant (w, cc)"
    and fin: "finish_pipe_construction w cc cid pid = Inr (w', cc')"
  shows "controller_invariant (w', cc')"
proof -
  note i = invariantD [OF inv]
  from finish_pipe_construction_cases [OF fin]
  show ?thesis
  proof
    assume "w' = w \<and> cc' = cc"
    with inv show ?thesis by simp
  next
    assume "\<exists>builder start_comp start_pid end_comp sp ep.
        pipe_builder cc = Some builder \<and> cc_start_component cc = Some start_comp \<and>
        cc_start_port_id cc = Some start_pid \<and>
        find_component_by_id w cid = Some end_comp \<and>
        get_port_by_id (objects w start_comp) start_pid = Some sp \<and>
        get_port_by_id (objects w end_comp) pid = Some ep \<and>
        can_connect_to sp ep \<and>
        cc' = cleanup_pipe_construction
                (fst (register_pipe cc (finish_pipe w builder end_comp pid))) \<and>
        w' = update_object
               (update_object (w\<lparr>next_identity := next_identity w + 1\<rparr>) start_comp
                  (\<lambda>obj. update_port_by_id obj start_pid
                     (\<lambda>p. connect_to_pipe p (pipe_self (finish_pipe w builder end_comp pid)))))
               end_comp
               (\<lambda>obj. update_port_by_id obj pid
                  (\<lambda>p. connect_to_pipe p (pipe_self (finish_pipe w builder end_comp pid))))"
    then obtain builder start_comp start_pid end_comp sp ep where
      b: "pipe_builder cc = Some builder" and sc: "cc_start_component cc = Some start_comp"
      and spid: "cc_start_port_id cc = Some start_pid"
      and sp: "get_port_by_id (objects w start_comp) start_pid = Some sp"
      and ep: "get_port_by_id (objects w end_comp) pid = Some ep"
      and ok: "can_connect_to sp ep"
      and cc': "cc' = cleanup_pipe_construction
                (fst (register_pipe cc (finish_pipe w builder end_comp pid)))"
      and w': "w' = update_object
               (update_object (w\<lparr>next_identity := next_identity w + 1\<rparr>) start_comp
                  (\<lambda>obj. update_port_by_id obj start_pid
                     (\<lambda>p. connect_to_pipe p (pipe_self (finish_pipe w builder end_comp pid)))))
               end_comp
               (\<lambda>obj. update_port_by_id obj pid
                  (\<lambda>p. connect_to_pipe p (pipe_self (finish_pipe w builder end_comp pid))))"
      by (elim exE conjE)
    have diff: "start_comp \<noteq> end_comp"
      using i(1) sp ep ok by (rule connectable_ports_different_components)
    have agree: "builder_start_component builder = start_comp"
      using i(2) b sc by (simp add: builder_agrees_def)
    have "owned_ports (objects (w\<lparr>next_identity := next_identity w + 1\<rparr>))"
      using i(1) by simp
    then have "owned_ports (objects (update_object (w\<lparr>next_identity := next_identity w + 1\<rparr>)
        start_comp (\<lambda>obj. update_port_by_id obj start_pid
           (\<lambda>p. connect_to_pipe p (pipe_self (finish_pipe w builder end_comp pid))))))"
      by (rule owned_ports_update_object) (rule connect_parent)
    then have own': "owned_ports (objects w')"
      unfolding w' by (rule owned_ports_update_object) (rule connect_parent)
    have agrees': "builder_agrees cc'"
      unfolding cc' by (rule cleanup_agrees)
    have new: "start_component ((finish_pipe w builder end_comp pid)\<lparr>pipe_id := pipe_counter cc + 1\<rparr>)
        \<noteq> end_component ((finish_pipe w builder end_comp pid)\<lparr>pipe_id := pipe_counter cc + 1\<rparr>)"
      using diff agree by (simp add: finish_pipe_ends)
    have "pipes cc' = AList.update (pipe_counter cc + 1)
        ((finish_pipe w builder end_comp pid)\<lparr>pipe_id := pipe_counter cc + 1\<rparr>) (pipes cc)"
      by (simp add: cc' register_pipe_def Let_def)
    moreover have "list_all (\<lambda>entry. start_component (snd entry) \<noteq> end_component (snd entry))
        (AList.update (pipe_counter cc + 1)
          ((finish_pipe w builder end_comp pid)\<lparr>pipe_id := pipe_counter cc + 1\<rparr>) (pipes cc))"
    proof (rule list_all_alist_update)
      show "start_component (snd (pipe_counter cc + 1,
          (finish_pipe w builder end_comp pid)\<lparr>pipe_id := pipe_counter cc + 1\<rparr>)) \<noteq>
        end_component (snd (pipe_counter cc + 1,
          (finish_pipe w builder end_comp pid)\<lparr>pipe_id := pipe_counter cc + 1\<rparr>))"
        using new by simp
      show "list_all (\<lambda>entry. start_component (snd entry) \<noteq> end_component (snd entry)) (pipes cc)"
        using i(3) by (simp only: pipes_join_two_components_def)
    qed
    ultimately have join': "pipes_join_two_components cc'"
      by (simp only: pipes_join_two_components_def)
    from own' agrees' join' show ?thesis by (rule invariantI)
  qed
qed

lemma remove_pipe_preserves_invariant:
  assumes inv: "controller_invariant (w, cc)"
  shows "controller_invariant (fst (remove_pipe w cc key))"
proof (cases "map_of (pipes cc) key")
  case None
  then show ?thesis using inv by (simp add: remove_pipe_def)
next
  case (Some pipe)
  note i = invariantD [OF inv]
  let ?w1 = "update_object w (start_component pipe)
               (\<lambda>obj. update_port_by_id obj (start_port pipe) disconnect_from_pipe)"
  let ?w2 = "update_object ?w1 (end_component pipe)
               (\<lambda>obj. update_port_by_id obj (end_port pipe) disconnect_from_pipe)"
  have r: "fst (remove_pipe w cc key) = (?w2, cc\<lparr>pipes := AList.delete key (pipes cc)\<rparr>)"
    using Some by (simp add: remove_pipe_def Let_def)
  have "owned_ports (objects ?w1)"
    using i(1) by (rule owned_ports_update_object) (rule disconnect_parent)
  then have own: "owned_ports (objects ?w2)"
    by (rule owned_ports_update_object) (rule disconnect_parent)
  have agrees: "builder_agrees (cc\<lparr>pipes := AList.delete key (pipes cc)\<rparr>)"
    using i(2) by (simp add: builder_agrees_def split: option.splits)
  have "list_all (\<lambda>entry. start_component (snd entry) \<noteq> end_component (snd entry))
      (AList.delete key (pipes cc))"
    using i(3) unfolding pipes_join_two_components_def by (rule list_all_alist_delete)
  then have join: "pipes_join_two_components (cc\<lparr>pipes := AList.delete key (pipes cc)\<rparr>)"
    by (simp add: pipes_join_two_components_def)
  show ?thesis unfolding r using own agrees join by (rule invariantI)
qed

lemma fold_remove_preserves_invariant:
  "controller_invariant s \<Longrightarrow>
     controller_invariant (fold (\<lambda>key s. fst (remove_pipe (fst s) (snd s) key)) keys s)"
proof (induction keys arbitrary: s)
  case Nil
  then show ?case by simp
next
  case (Cons key keys)
  from Cons.prems have "controller_invariant (fst s, snd s)" by simp
  then have "controller_invariant (fst (remove_pipe (fst s) (snd s) key))"
    by (rule remove_pipe_preserves_invariant)
  then have "controller_invariant
      (fold (\<lambda>key s. fst (remove_pipe (fst s) (snd s) key)) keys
         (fst (remove_pipe (fst s) (snd s) key)))"
    by (rule Cons.IH)
  then show ?case by simp
qed

lemma on_port_clicked_preserves_invariant:
  assumes inv: "controller_invariant (w, cc)"
    and r: "on_port_clicked w cc component pid = Inr s'"
  shows "controller_invariant s'"
proof -
  note i = invariantD [OF inv]
  have started: "controller_invariant (w, start_pipe_construction cc component pid)"
    using inv by (rule invariant_controller_only) (simp_all add: start_agrees)
  have cancelled: "controller_invariant (w, cancel_pipe_construction cc)"
    using inv by (rule invariant_controller_only) (simp_all add: cancel_agrees i(2))
  have finished: "controller_invariant s'"
    if "finish_pipe_construction w cc (component_id (objects w component)) pid = Inr s'"
  proof -
    from that have "finish_pipe_construction w cc (component_id (objects w component)) pid =
        Inr (fst s', snd s')" by simp
    with inv have "controller_invariant (fst s', snd s')" by (rule finish_preserves_invariant)
    then show ?thesis by simp
  qed
  from r started cancelled finished inv show ?thesis
    by (simp add: on_port_clicked_def split: if_splits option.splits)
qed

lemma handle_mouse_click_preserves_invariant:
  assumes inv: "controller_invariant (w, cc)"
    and r: "handle_mouse_click w cc position left_button = Inr s'"
  shows "controller_invariant s'"
proof -
  note i = invariantD [OF inv]
  have added: "controller_invariant (w, add_waypoint cc position)"
    using inv by (rule invariant_controller_only) (simp_all add: add_waypoint_agrees i(2))
  have finished: "controller_invariant s'"
    if "finish_pipe_construction w cc cid pid = Inr s'" for cid pid
  proof -
    from that have "finish_pipe_construction w cc cid pid = Inr (fst s', snd s')" by simp
    with inv have "controller_invariant (fst s', snd s')" by (rule finish_preserves_invariant)
    then show ?thesis by simp
  qed
  from r added finished inv show ?thesis
    by (simp add: handle_mouse_click_def split: if_splits option.splits prod.splits)
qed

lemma clear_all_preserves_invariant:
  assumes inv: "controller_invariant (w, cc)"
  shows "controller_invariant (clear_all w cc)"
proof -
  note i = invariantD [OF inv]
  define cc1 where "cc1 = (if pipe_builder cc \<noteq> None then cancel_pipe_construction cc else cc)"
  define s2 where
    "s2 = fold (\<lambda>key s. fst (remove_pipe (fst s) (snd s) key)) (map fst (pipes cc1)) (w, cc1)"
  define cc3 where "cc3 = (snd s2)\<lparr>pipe_counter := 0\<rparr>"
  have c: "clear_all w cc =
      (fst s2, if connection_mode cc3 then toggle_mode cc3 (Some False) else cc3)"
    by (simp add: clear_all_def Let_def cc1_def s2_def cc3_def)
  have "controller_invariant (w, cc1)"
    using inv by (rule invariant_controller_only) (simp_all add: cc1_def cancel_agrees i(2))
  then have "controller_invariant s2"
    unfolding s2_def by (rule fold_remove_preserves_invariant)
  then have inv2: "controller_invariant (fst s2, snd s2)" by simp
  note j = invariantD [OF inv2]
  have a3: "builder_agrees cc3"
    using j(2) by (simp add: cc3_def builder_agrees_def split: option.splits)
  have inv3: "controller_invariant (fst s2, cc3)"
    using inv2 a3 by (rule invariant_controller_only) (simp add: cc3_def)
  have "controller_invariant (fst s2, toggle_mode cc3 (Some False))"
    using inv3 by (rule invariant_controller_only) (simp_all add: toggle_agrees a3)
  with inv3 show ?thesis unfolding c by simp
qed

lemma handle_event_preserves_invariant:
  assumes inv: "controller_invariant s"
    and r: "handle_event e s = Inr s'"
  shows "controller_invariant s'"
proof -
  obtain w cc where s: "s = (w, cc)" by (cases s)
  note inv' = inv [unfolded s]
  note i = invariantD [OF inv']
  show ?thesis
  proof (cases e)
    case (Port_clicked component pid)
    with r s have "on_port_clicked w cc component pid = Inr s'" by simp
    with inv' show ?thesis by (rule on_port_clicked_preserves_invariant)
  next
    case (Port_hovered component pid is_entering)
    with r s have "s' = (w, on_port_hovered w cc component pid is_entering)" by simp
    moreover have "controller_invariant (w, on_port_hovered w cc component pid is_entering)"
      using inv' by (rule invariant_controller_only) (simp_all add: hover_agrees i(2))
    ultimately show ?thesis by simp
  next
    case (Mouse_clicked position left_button)
    with r s have "handle_mouse_click w cc position left_button = Inr s'" by simp
    with inv' show ?thesis by (rule handle_mouse_click_preserves_invariant)
  next
    case (Toggle_mode active)
    with r s have "s' = (w, toggle_mode cc active)" by simp
    moreover have "controller_invariant (w, toggle_mode cc active)"
      using inv' by (rule invariant_controller_only) (simp_all add: toggle_agrees i(2))
    ultimately show ?thesis by simp
  next
    case (Start_construction component pid)
    with r s have "s' = (w, start_pipe_construction cc component pid)" by simp
    moreover have "controller_invariant (w, start_pipe_construction cc component pid)"
      using inv' by (rule invariant_controller_only) (simp_all add: start_agrees)
    ultimately show ?thesis by simp
  next
    case (Add_waypoint position)
    with r s have "s' = (w, add_waypoint cc position)" by simp
    moreover have "controller_invariant (w, add_waypoint cc position)"
      using inv' by (rule invariant_controller_only) (simp_all add: add_waypoint_agrees i(2))
    ultimately show ?thesis by simp
  next
    case (Finish_construction cid pid)
    with r s have "finish_pipe_construction w cc cid pid = Inr (fst s', snd s')" by simp
    with inv' have "controller_invariant (fst s', snd s')" by (rule finish_preserves_invariant)
    then show ?thesis by simp
  next
    case Cancel_construction
    with r s have "s' = (w, cancel_pipe_construction cc)" by simp
    moreover have "controller_invariant (w, cancel_pipe_construction cc)"
      using inv' by (rule invariant_controller_only) (simp_all add: cancel_agrees i(2))
    ultimately show ?thesis by simp
  next
    case (Remove_pipe key)
    with r s have "s' = fst (remove_pipe w cc key)" by simp
    with remove_pipe_preserves_invariant [OF inv'] show ?thesis by simp
  next
    case Clear_all
    with r s have "s' = clear_all w cc" by simp
    with clear_all_preserves_invariant [OF inv'] show ?thesis by simp
  qed
qed

lemma reachable_invariant: "reachable s \<Longrightarrow> controller_invariant s"
proof (induction rule: reachable.induct)
  case (initial w)
  then show ?case
    by (simp add: controller_invariant_def builder_agrees_def pipes_join_two_components_def
        new_connection_controller_def)
next
  case (step s e s')
  then show ?case by (simp add: handle_event_preserves_invariant)
next
  case (environment w cc w')
  then show ?case by (simp add: controller_invariant_def)
qed

subsection \<open>Connections of the ports\<close>

lemma find_map_first:
  assumes "\<And>p. port_id (f p) = port_id p"
  shows "find (\<lambda>port. port_id port = q) (map_first (\<lambda>port. port_id port = pid) f xs) =
     (if q = pid then map_option f (find (\<lambda>port. port_id port = pid) xs)
      else find (\<lambda>port. port_id port = q) xs)"
proof (cases "q = pid")
  case True
  show ?thesis unfolding True by (induction xs) (simp_all add: assms)
next
  case False
  have "find (\<lambda>port. port_id port = q) (map_first (\<lambda>port. port_id port = pid) f xs) =
      find (\<lambda>port. port_id port = q) xs"
    using False by (induction xs) (simp_all add: assms)
  with False show ?thesis by simp
qed

lemma get_port_by_id_update_port:
  assumes "\<And>p. port_id (f p) = port_id p"
  shows "get_port_by_id (update_port_by_id obj pid f) q =
     (if q = pid then map_option f (get_port_by_id obj pid) else get_port_by_id obj q)"
  by (simp add: get_port_by_id_def update_port_by_id_def find_map_first [OF assms])

lemma connect_port_id: "port_id (connect_to_pipe p k) = port_id p"
  by (simp add: connect_to_pipe_def)

lemma disconnect_port_id: "port_id (disconnect_from_pipe p) = port_id p"
  by (simp add: disconnect_from_pipe_def)

lemma connect_is_connected: "is_connected (connect_to_pipe p k)"
  by (simp add: connect_to_pipe_def)

lemma disconnect_is_connected: "\<not> is_connected (disconnect_from_pipe p)"
  by (simp add: disconnect_from_pipe_def)

lemma connected_at_next_identity [simp]:
  "connected_at (w\<lparr>next_identity := n\<rparr>) component pid = connected_at w component pid"
  by (simp add: connected_at_def)

lemma connected_at_connect:
  "connected_at (update_object w ref (\<lambda>obj. update_port_by_id obj pid (\<lambda>p. connect_to_pipe p k)))
       component q \<longleftrightarrow>
     connected_at w component q \<or>
     (component = ref \<and> q = pid \<and> get_port_by_id (objects w ref) pid \<noteq> None)"
  by (simp add: connected_at_def update_object_def
      get_port_by_id_update_port [of "\<lambda>p. connect_to_pipe p k", OF connect_port_id]
      connect_is_connected split: option.splits)

lemma connected_at_disconnect:
  "connected_at (update_object w ref (\<lambda>obj. update_port_by_id obj pid disconnect_from_pipe))
       component q \<longleftrightarrow>
     connected_at w component q \<and> \<not> (component = ref \<and> q = pid)"
  by (simp add: connected_at_def update_object_def
      get_port_by_id_update_port [of disconnect_from_pipe, OF disconnect_port_id]
      disconnect_is_connected split: option.splits)

lemma set_alist_update: "set (AList.update k v al) \<subseteq> insert (k, v) (set al)"
  by (induction al) auto

lemma set_alist_delete: "set (AList.delete k al) = {e \<in> set al. fst e \<noteq> k}"
  by (induction al) auto

lemma connected_at_found:
  "get_port_by_id (objects w component) pid = Some p \<Longrightarrow>
     connected_at w component pid = is_connected p"
  by (simp add: connected_at_def)

lemma connection_invariantI:
  "pipes_on_connected_ports w cc \<Longrightarrow> no_shared_port cc \<Longrightarrow> connection_invariant (w, cc)"
  by (simp add: connection_invariant_def)

lemma connection_invariantD:
  assumes "connection_invariant (w, cc)"
  shows "pipes_on_connected_ports w cc" "no_shared_port cc"
  using assms by (simp_all add: connection_invariant_def)

lemma connection_controller_only:
  assumes "connection_invariant (w, cc)" "pipes cc' = pipes cc"
  shows "connection_invariant (w, cc')"
  using assms by (simp add: connection_invariant_def pipes_on_connected_ports_def no_shared_port_def)

lemma pipes_on_connected_portsI:
  assumes "\<And>e. e \<in> set (pipes cc) \<Longrightarrow>
      connected_at w (start_component (snd e)) (start_port (snd e)) \<and>
      connected_at w (end_component (snd e)) (end_port (snd e))"
  shows "pipes_on_connected_ports w cc"
  unfolding pipes_on_connected_ports_def list_all_iff using assms by (rule ballI)

lemma pipes_on_connected_portsD:
  assumes "pipes_on_connected_ports w cc" "e \<in> set (pipes cc)"
  shows "connected_at w (start_component (snd e)) (start_port (snd e))"
    and "connected_at w (end_component (snd e)) (end_port (snd e))"
proof -
  from assms(1) have "\<forall>e \<in> set (pipes cc).
      connected_at w (start_component (snd e)) (start_port (snd e)) \<and>
      connected_at w (end_component (snd e)) (end_port (snd e))"
    by (simp only: pipes_on_connected_ports_def list_all_iff)
  then have "connected_at w (start_component (snd e)) (start_port (snd e)) \<and>
      connected_at w (end_component (snd e)) (end_port (snd e))"
    using assms(2) by (rule bspec)
  then show "connected_at w (start_component (snd e)) (start_port (snd e))"
    and "connected_at w (end_component (snd e)) (end_port (snd e))"
    by (rule conjunct1, rule conjunct2)
qed

lemma pipe_end_connected:
  assumes "pipes_on_connected_ports w cc" "e \<in> set (pipes cc)" "x \<in> pipe_ends (snd e)"
  shows "connected_at w (fst x) (snd x)"
proof -
  note c = pipes_on_connected_portsD [OF assms(1,2)]
  from assms(3) have "x = (start_component (snd e), start_port (snd e)) \<or>
      x = (end_component (snd e), end_port (snd e))"
    by (simp add: pipe_ends_def)
  then show ?thesis
  proof
    assume "x = (start_component (snd e), start_port (snd e))"
    with c(1) show ?thesis by simp
  next
    assume "x = (end_component (snd e), end_port (snd e))"
    with c(2) show ?thesis by simp
  qed
qed

lemma no_shared_portI:
  assumes "\<And>e1 e2. e1 \<in> set (pipes cc) \<Longrightarrow> e2 \<in> set (pipes cc) \<Longrightarrow> e1 \<noteq> e2 \<Longrightarrow>
      pipe_ends (snd e1) \<inter> pipe_ends (snd e2) = {}"
  shows "no_shared_port cc"
  unfolding no_shared_port_def using assms by (intro ballI impI)

lemma no_shared_portD:
  assumes "no_shared_port cc" "e1 \<in> set (pipes cc)" "e2 \<in> set (pipes cc)" "e1 \<noteq> e2"
  shows "pipe_ends (snd e1) \<inter> pipe_ends (snd e2) = {}"
proof -
  from assms(1) have "\<forall>e1 \<in> set (pipes cc). \<forall>e2 \<in> set (pipes cc).
        e1 \<noteq> e2 \<longrightarrow> pipe_ends (snd e1) \<inter> pipe_ends (snd e2) = {}"
    by (simp only: no_shared_port_def)
  then have "\<forall>e2 \<in> set (pipes cc). e1 \<noteq> e2 \<longrightarrow> pipe_ends (snd e1) \<inter> pipe_ends (snd e2) = {}"
    using assms(2) by (rule bspec)
  then have "e1 \<noteq> e2 \<longrightarrow> pipe_ends (snd e1) \<inter> pipe_ends (snd e2) = {}"
    using assms(3) by (rule bspec)
  then show ?thesis using assms(4) by (rule mp)
qed

text \<open>
  What \<open>finish_pipe_construction\<close> does to the connections when it registers a pipe: the
  two ports it checked are connected afterwards, and no port loses its connection.
\<close>

lemma connect_both_ends:
  assumes sp: "get_port_by_id (objects w start_comp) start_pid = Some sp"
    and ep: "get_port_by_id (objects w end_comp) pid = Some ep"
    and w': "w' = update_object
               (update_object (w\<lparr>next_identity := n\<rparr>) start_comp
                  (\<lambda>obj. update_port_by_id obj start_pid (\<lambda>p. connect_to_pipe p k)))
               end_comp
               (\<lambda>obj. update_port_by_id obj pid (\<lambda>p. connect_to_pipe p k))"
  shows "connected_at w' component q \<longleftrightarrow>
     connected_at w component q \<or> (component = start_comp \<and> q = start_pid) \<or>
     (component = end_comp \<and> q = pid)"
proof -
  let ?w1 = "update_object (w\<lparr>next_identity := n\<rparr>) start_comp
                  (\<lambda>obj. update_port_by_id obj start_pid (\<lambda>p. connect_to_pipe p k))"
  have first: "connected_at ?w1 component q \<longleftrightarrow>
      connected_at w component q \<or> (component = start_comp \<and> q = start_pid)" for component q
    by (simp add: connected_at_connect sp)
  have found: "get_port_by_id (objects ?w1 end_comp) pid \<noteq> None"
    using sp ep
    by (auto simp add: update_object_def
        get_port_by_id_update_port [of "\<lambda>p. connect_to_pipe p k", OF connect_port_id])
  show ?thesis
    unfolding w' by (simp add: connected_at_connect [of ?w1] first found del: connected_at_connect) 
qed

lemma register_keeps_connections:
  assumes con: "connection_invariant (w, cc)"
    and sp: "get_port_by_id (objects w start_comp) start_pid = Some sp"
    and ep: "get_port_by_id (objects w end_comp) pid = Some ep"
    and ok: "can_connect_to sp ep"
    and ends: "pipe_ends pipe = {(start_comp, start_pid), (end_comp, pid)}"
    and w': "\<And>component q. connected_at w' component q \<longleftrightarrow>
        connected_at w component q \<or> (component = start_comp \<and> q = start_pid) \<or>
        (component = end_comp \<and> q = pid)"
    and cc': "pipes cc' = AList.update k pipe (pipes cc)"
  shows "connection_invariant (w', cc')"
    and "\<forall>e \<in> set (pipes cc). pipe_ends pipe \<inter> pipe_ends (snd e) = {}"
proof -
  note c = connection_invariantD [OF con]
  from ok have free: "\<not> is_connected sp" "\<not> is_connected ep"
    by (simp_all add: can_connect_to_iff)
  have free_start: "\<not> connected_at w start_comp start_pid"
    using free(1) by (simp add: connected_at_found [OF sp])
  have free_end: "\<not> connected_at w end_comp pid"
    using free(2) by (simp add: connected_at_found [OF ep])
  have fresh: "pipe_ends pipe \<inter> pipe_ends (snd e) = {}" if e: "e \<in> set (pipes cc)" for e
  proof (rule ccontr)
    assume "pipe_ends pipe \<inter> pipe_ends (snd e) \<noteq> {}"
    then have "\<exists>x. x \<in> pipe_ends pipe \<inter> pipe_ends (snd e)"
      by (simp only: ex_in_conv not_False_eq_True)
    then obtain x where "x \<in> pipe_ends pipe \<inter> pipe_ends (snd e)" by (rule exE)
    then have x: "x \<in> pipe_ends pipe" "x \<in> pipe_ends (snd e)"
      by (rule IntD1, rule IntD2)
    from c(1) e x(2) have "connected_at w (fst x) (snd x)" by (rule pipe_end_connected)
    moreover from x(1) have "x = (start_comp, start_pid) \<or> x = (end_comp, pid)"
      by (simp add: ends)
    ultimately show False
      using free_start free_end by (elim disjE) simp_all
  qed
  then show "\<forall>e \<in> set (pipes cc). pipe_ends pipe \<inter> pipe_ends (snd e) = {}"
    by (rule ballI)
  have sub: "set (pipes cc') \<subseteq> insert (k, pipe) (set (pipes cc))"
    unfolding cc' by (rule set_alist_update)
  have mem: "e = (k, pipe) \<or> e \<in> set (pipes cc)" if "e \<in> set (pipes cc')" for e
  proof -
    from sub that have "e \<in> insert (k, pipe) (set (pipes cc))" by (rule subsetD)
    then show ?thesis by (simp only: insert_iff)
  qed
  have new_ends: "connected_at w' (start_component pipe) (start_port pipe) \<and>
      connected_at w' (end_component pipe) (end_port pipe)"
  proof -
    have "(start_component pipe, start_port pipe) \<in> pipe_ends pipe"
      "(end_component pipe, end_port pipe) \<in> pipe_ends pipe"
      by (simp_all add: pipe_ends_def)
    then have "(start_component pipe, start_port pipe) \<in> {(start_comp, start_pid), (end_comp, pid)}"
      "(end_component pipe, end_port pipe) \<in> {(start_comp, start_pid), (end_comp, pid)}"
      by (simp_all only: ends)
    then show ?thesis by (auto simp add: w')
  qed
  have on: "pipes_on_connected_ports w' cc'"
  proof (rule pipes_on_connected_portsI)
    fix e
    assume "e \<in> set (pipes cc')"
    then have "e = (k, pipe) \<or> e \<in> set (pipes cc)" by (rule mem)
    then show "connected_at w' (start_component (snd e)) (start_port (snd e)) \<and>
      connected_at w' (end_component (snd e)) (end_port (snd e))"
    proof
      assume "e = (k, pipe)"
      with new_ends show ?thesis by simp
    next
      assume "e \<in> set (pipes cc)"
      note pipes_on_connected_portsD [OF c(1) this]
      then show ?thesis by (simp add: w')
    qed
  qed
  have no: "no_shared_port cc'"
  proof (rule no_shared_portI)
    fix e1 e2
    assume e1: "e1 \<in> set (pipes cc')" and e2: "e2 \<in> set (pipes cc')" and ne: "e1 \<noteq> e2"
    from e1 have a: "e1 = (k, pipe) \<or> e1 \<in> set (pipes cc)" by (rule mem)
    from e2 have b: "e2 = (k, pipe) \<or> e2 \<in> set (pipes cc)" by (rule mem)
    from a show "pipe_ends (snd e1) \<inter> pipe_ends (snd e2) = {}"
    proof
      assume n1: "e1 = (k, pipe)"
      from b show ?thesis
      proof
        assume "e2 = (k, pipe)"
        with n1 ne show ?thesis by simp
      next
        assume "e2 \<in> set (pipes cc)"
        then have "pipe_ends pipe \<inter> pipe_ends (snd e2) = {}" by (rule fresh)
        with n1 show ?thesis by simp
      qed
    next
      assume o1: "e1 \<in> set (pipes cc)"
      from b show ?thesis
      proof
        assume n2: "e2 = (k, pipe)"
        from o1 have "pipe_ends pipe \<inter> pipe_ends (snd e1) = {}" by (rule fresh)
        then have "pipe_ends (snd e1) \<inter> pipe_ends pipe = {}" by (simp only: Int_commute)
        with n2 show ?thesis by simp
      next
        assume "e2 \<in> set (pipes cc)"
        with c(2) o1 show ?thesis using ne by (rule no_shared_portD)
      qed
    qed
  qed
  from on no show "connection_invariant (w', cc')" by (rule connection_invariantI)
qed

lemma finish_preserves_connections:
  assumes inv: "controller_invariant (w, cc)"
    and con: "connection_invariant (w, cc)"
    and fin: "finish_pipe_construction w cc cid pid = Inr (w', cc')"
  shows "connection_invariant (w', cc')"
proof -
  note i = invariantD [OF inv]
  from finish_pipe_construction_cases [OF fin]
  show ?thesis
  proof
    assume "w' = w \<and> cc' = cc"
    with con show ?thesis by simp
  next
    assume "\<exists>builder start_comp start_pid end_comp sp ep.
        pipe_builder cc = Some builder \<and> cc_start_component cc = Some start_comp \<and>
        cc_start_port_id cc = Some start_pid \<and>
        find_component_by_id w cid = Some end_comp \<and>
        get_port_by_id (objects w start_comp) start_pid = Some sp \<and>
        get_port_by_id (objects w end_comp) pid = Some ep \<and>
        can_connect_to sp ep \<and>
        cc' = cleanup_pipe_construction
                (fst (register_pipe cc (finish_pipe w builder end_comp pid))) \<and>
        w' = update_object
               (update_object (w\<lparr>next_identity := next_identity w + 1\<rparr>) start_comp
                  (\<lambda>obj. update_port_by_id obj start_pid
                     (\<lambda>p. connect_to_pipe p (pipe_self (finish_pipe w builder end_comp pid)))))
               end_comp
               (\<lambda>obj. update_port_by_id obj pid
                  (\<lambda>p. connect_to_pipe p (pipe_self (finish_pipe w builder end_comp pid))))"
    then obtain builder start_comp start_pid end_comp sp ep where
      b: "pipe_builder cc = Some builder" and sc: "cc_start_component cc = Some start_comp"
      and spid: "cc_start_port_id cc = Some start_pid"
      and sp: "get_port_by_id (objects w start_comp) start_pid = Some sp"
      and ep: "get_port_by_id (objects w end_comp) pid = Some ep"
      and ok: "can_connect_to sp ep"
      and cc': "cc' = cleanup_pipe_construction
                (fst (register_pipe cc (finish_pipe w builder end_comp pid)))"
      and w': "w' = update_object
               (update_object (w\<lparr>next_identity := next_identity w + 1\<rparr>) start_comp
                  (\<lambda>obj. update_port_by_id obj start_pid
                     (\<lambda>p. connect_to_pipe p (pipe_self (finish_pipe w builder end_comp pid)))))
               end_comp
               (\<lambda>obj. update_port_by_id obj pid
                  (\<lambda>p. connect_to_pipe p (pipe_self (finish_pipe w builder end_comp pid))))"
      by (elim exE conjE)
    define pipe where
      "pipe = (finish_pipe w builder end_comp pid)\<lparr>pipe_id := pipe_counter cc + 1\<rparr>"
    from i(2) b sc spid have start:
      "builder_start_component builder = start_comp" "builder_start_port builder = start_pid"
      by (simp_all add: builder_agrees_def)
    have ends: "pipe_ends pipe = {(start_comp, start_pid), (end_comp, pid)}"
      by (simp add: pipe_ends_def pipe_def finish_pipe_ends start)
    have registered: "pipes cc' = AList.update (pipe_counter cc + 1) pipe (pipes cc)"
      by (simp add: cc' pipe_def register_pipe_def Let_def)
    note after = connect_both_ends [OF sp ep w']
    from con sp ep ok ends after registered show ?thesis
      by (rule register_keeps_connections(1))
  qed
qed

lemma remove_pipe_preserves_connections:
  assumes con: "connection_invariant (w, cc)"
  shows "connection_invariant (fst (remove_pipe w cc key))"
proof (cases "map_of (pipes cc) key")
  case None
  then show ?thesis using con by (simp add: remove_pipe_def)
next
  case (Some pipe)
  note c = connection_invariantD [OF con]
  let ?w1 = "update_object w (start_component pipe)
               (\<lambda>obj. update_port_by_id obj (start_port pipe) disconnect_from_pipe)"
  let ?w2 = "update_object ?w1 (end_component pipe)
               (\<lambda>obj. update_port_by_id obj (end_port pipe) disconnect_from_pipe)"
  let ?cc = "cc\<lparr>pipes := AList.delete key (pipes cc)\<rparr>"
  have r: "fst (remove_pipe w cc key) = (?w2, ?cc)"
    using Some by (simp add: remove_pipe_def Let_def)
  from Some have removed: "(key, pipe) \<in> set (pipes cc)" by (rule map_of_SomeD)
  have after: "connected_at ?w2 component q \<longleftrightarrow>
      connected_at w component q \<and> (component, q) \<notin> pipe_ends pipe" for component q
    by (simp add: connected_at_disconnect pipe_ends_def)
  have rest: "e \<in> set (pipes cc) \<and> e \<noteq> (key, pipe)" if "e \<in> set (pipes ?cc)" for e
  proof -
    from that have "e \<in> {e \<in> set (pipes cc). fst e \<noteq> key}"
      by (simp only: set_alist_delete [symmetric]) simp
    then have "e \<in> set (pipes cc)" "fst e \<noteq> key" by simp_all
    moreover from this(2) have "e \<noteq> (key, pipe)" by (cases e) simp
    ultimately show ?thesis by (intro conjI)
  qed
  have on: "pipes_on_connected_ports ?w2 ?cc"
  proof (rule pipes_on_connected_portsI)
    fix e
    assume "e \<in> set (pipes ?cc)"
    then have "e \<in> set (pipes cc) \<and> e \<noteq> (key, pipe)" by (rule rest)
    then have e: "e \<in> set (pipes cc)" and ne: "e \<noteq> (key, pipe)" by simp_all
    from c(2) e removed ne have disjoint: "pipe_ends (snd e) \<inter> pipe_ends (snd (key, pipe)) = {}"
      by (rule no_shared_portD)
    have "(start_component (snd e), start_port (snd e)) \<in> pipe_ends (snd e)"
      "(end_component (snd e), end_port (snd e)) \<in> pipe_ends (snd e)"
      by (simp_all add: pipe_ends_def)
    with disjoint have "(start_component (snd e), start_port (snd e)) \<notin> pipe_ends pipe"
      "(end_component (snd e), end_port (snd e)) \<notin> pipe_ends pipe"
      by auto
    with pipes_on_connected_portsD [OF c(1) e]
    show "connected_at ?w2 (start_component (snd e)) (start_port (snd e)) \<and>
      connected_at ?w2 (end_component (snd e)) (end_port (snd e))"
      by (simp only: after) simp
  qed
  have no: "no_shared_port ?cc"
  proof (rule no_shared_portI)
    fix e1 e2
    assume a: "e1 \<in> set (pipes ?cc)" and b: "e2 \<in> set (pipes ?cc)" and ne: "e1 \<noteq> e2"
    from a have "e1 \<in> set (pipes cc) \<and> e1 \<noteq> (key, pipe)" by (rule rest)
    then have e1: "e1 \<in> set (pipes cc)" by (rule conjunct1)
    from b have "e2 \<in> set (pipes cc) \<and> e2 \<noteq> (key, pipe)" by (rule rest)
    then have e2: "e2 \<in> set (pipes cc)" by (rule conjunct1)
    from c(2) e1 e2 show "pipe_ends (snd e1) \<inter> pipe_ends (snd e2) = {}" using ne by (rule no_shared_portD)
  qed
  show ?thesis unfolding r using on no by (rule connection_invariantI)
qed

lemma fold_remove_preserves_connections:
  "connection_invariant s \<Longrightarrow>
     connection_invariant (fold (\<lambda>key s. fst (remove_pipe (fst s) (snd s) key)) keys s)"
proof (induction keys arbitrary: s)
  case Nil
  then show ?case by simp
next
  case (Cons key keys)
  from Cons.prems have "connection_invariant (fst s, snd s)" by simp
  then have "connection_invariant (fst (remove_pipe (fst s) (snd s) key))"
    by (rule remove_pipe_preserves_connections)
  then have "connection_invariant
      (fold (\<lambda>key s. fst (remove_pipe (fst s) (snd s) key)) keys
         (fst (remove_pipe (fst s) (snd s) key)))"
    by (rule Cons.IH)
  then show ?case by simp
qed

lemma on_port_clicked_preserves_connections:
  assumes inv: "controller_invariant (w, cc)"
    and con: "connection_invariant (w, cc)"
    and r: "on_port_clicked w cc component pid = Inr s'"
  shows "connection_invariant s'"
proof -
  have started: "connection_invariant (w, start_pipe_construction cc component pid)"
    using con by (rule connection_controller_only) simp
  have cancelled: "connection_invariant (w, cancel_pipe_construction cc)"
    using con by (rule connection_controller_only) simp
  have finished: "connection_invariant s'"
    if "finish_pipe_construction w cc (component_id (objects w component)) pid = Inr s'"
  proof -
    from that have "finish_pipe_construction w cc (component_id (objects w component)) pid =
        Inr (fst s', snd s')" by simp
    with inv con have "connection_invariant (fst s', snd s')"
      by (rule finish_preserves_connections)
    then show ?thesis by simp
  qed
  from r started cancelled finished con show ?thesis
    by (simp add: on_port_clicked_def split: if_splits option.splits)
qed

lemma handle_mouse_click_preserves_connections:
  assumes inv: "controller_invariant (w, cc)"
    and con: "connection_invariant (w, cc)"
    and r: "handle_mouse_click w cc position left_button = Inr s'"
  shows "connection_invariant s'"
proof -
  have added: "connection_invariant (w, add_waypoint cc position)"
    using con by (rule connection_controller_only) simp
  have finished: "connection_invariant s'"
    if "finish_pipe_construction w cc cid pid = Inr s'" for cid pid
  proof -
    from that have "finish_pipe_construction w cc cid pid = Inr (fst s', snd s')" by simp
    with inv con have "connection_invariant (fst s', snd s')"
      by (rule finish_preserves_connections)
    then show ?thesis by simp
  qed
  from r added finished con show ?thesis
    by (simp add: handle_mouse_click_def split: if_splits option.splits prod.splits)
qed

lemma clear_all_preserves_connections:
  assumes con: "connection_invariant (w, cc)"
  shows "connection_invariant (clear_all w cc)"
proof -
  define cc1 where "cc1 = (if pipe_builder cc \<noteq> None then cancel_pipe_construction cc else cc)"
  define s2 where
    "s2 = fold (\<lambda>key s. fst (remove_pipe (fst s) (snd s) key)) (map fst (pipes cc1)) (w, cc1)"
  define cc3 where "cc3 = (snd s2)\<lparr>pipe_counter := 0\<rparr>"
  have c: "clear_all w cc =
      (fst s2, if connection_mode cc3 then toggle_mode cc3 (Some False) else cc3)"
    by (simp add: clear_all_def Let_def cc1_def s2_def cc3_def)
  have "connection_invariant (w, cc1)"
    using con by (rule connection_controller_only) (simp add: cc1_def)
  then have "connection_invariant s2"
    unfolding s2_def by (rule fold_remove_preserves_connections)
  then have con2: "connection_invariant (fst s2, snd s2)" by simp
  have con3: "connection_invariant (fst s2, cc3)"
    using con2 by (rule connection_controller_only) (simp add: cc3_def)
  have "connection_invariant (fst s2, toggle_mode cc3 (Some False))"
    using con3 by (rule connection_controller_only) simp
  with con3 show ?thesis unfolding c by simp
qed

lemma handle_event_preserves_connections:
  assumes inv: "controller_invariant s"
    and con: "connection_invariant s"
    and r: "handle_event e s = Inr s'"
  shows "connection_invariant s'"
proof -
  obtain w cc where s: "s = (w, cc)" by (cases s)
  note inv' = inv [unfolded s]
  note con' = con [unfolded s]
  show ?thesis
  proof (cases e)
    case (Port_clicked component pid)
    with r s have "on_port_clicked w cc component pid = Inr s'" by simp
    with inv' con' show ?thesis by (rule on_port_clicked_preserves_connections)
  next
    case (Port_hovered component pid is_entering)
    with r s have "s' = (w, on_port_hovered w cc component pid is_entering)" by simp
    moreover have "connection_invariant (w, on_port_hovered w cc component pid is_entering)"
      using con' by (rule connection_controller_only) simp
    ultimately show ?thesis by simp
  next
    case (Mouse_clicked position left_button)
    with r s have "handle_mouse_click w cc position left_button = Inr s'" by simp
    with inv' con' show ?thesis by (rule handle_mouse_click_preserves_connections)
  next
    case (Toggle_mode active)
    with r s have "s' = (w, toggle_mode cc active)" by simp
    moreover have "connection_invariant (w, toggle_mode cc active)"
      using con' by (rule connection_controller_only) simp
    ultimately show ?thesis by simp
  next
    case (Start_construction component pid)
    with r s have "s' = (w, start_pipe_construction cc component pid)" by simp
    moreover have "connection_invariant (w, start_pipe_construction cc component pid)"
      using con' by (rule connection_controller_only) simp
    ultimately show ?thesis by simp
  next
    case (Add_waypoint position)
    with r s have "s' = (w, add_waypoint cc position)" by simp
    moreover have "connection_invariant (w, add_waypoint cc position)"
      using con' by (rule connection_controller_only) simp
    ultimately show ?thesis by simp
  next
    case (Finish_construction cid pid)
    with r s have "finish_pipe_construction w cc cid pid = Inr (fst s', snd s')" by simp
    with inv' con' have "connection_invariant (fst s', snd s')"
      by (rule finish_preserves_connections)
    then show ?thesis by simp
  next
    case Cancel_construction
    with r s have "s' = (w, cancel_pipe_construction cc)" by simp
    moreover have "connection_invariant (w, cancel_pipe_construction cc)"
      using con' by (rule connection_controller_only) simp
    ultimately show ?thesis by simp
  next
    case (Remove_pipe key)
    with r s have "s' = fst (remove_pipe w cc key)" by simp
    with remove_pipe_preserves_connections [OF con'] show ?thesis by simp
  next
    case Clear_all
    with r s have "s' = clear_all w cc" by simp
    with clear_all_preserves_connections [OF con'] show ?thesis by simp
  qed
qed

lemma environment_preserves_connections:
  assumes con: "connection_invariant (w, cc)"
    and keep: "\<forall>component pid. connected_at w component pid \<longrightarrow> connected_at w' component pid"
  shows "connection_invariant (w', cc)"
proof -
  note c = connection_invariantD [OF con]
  have "pipes_on_connected_ports w' cc"
  proof (rule pipes_on_connected_portsI)
    fix e
    assume "e \<in> set (pipes cc)"
    note pipes_on_connected_portsD [OF c(1) this]
    with keep show "connected_at w' (start_component (snd e)) (start_port (snd e)) \<and>
      connected_at w' (end_component (snd e)) (end_port (snd e))"
      by simp
  qed
  then show ?thesis using c(2) by (rule connection_invariantI)
qed

lemma reachable_keeping_connections_reachable:
  "reachable_keeping_connections s \<Longrightarrow> reachable s"
proof (induction rule: reachable_keeping_connections.induct)
  case (initial w)
  then show ?case by (rule reachable.initial)
next
  case (step s e s')
  from step.IH step.hyps(2) show ?case by (rule reachable.step)
next
  case (environment w cc w')
  from environment.IH environment.hyps(2) show ?case by (rule reachable.environment)
qed

lemma reachable_connection_invariant:
  "reachable_keeping_connections s \<Longrightarrow> connection_invariant s"
proof (induction rule: reachable_keeping_connections.induct)
  case (initial w)
  then show ?case
    by (simp add: connection_invariant_def pipes_on_connected_ports_def no_shared_port_def
        new_connection_controller_def)
next
  case (step s e s')
  from step.hyps(1) have "reachable s" by (rule reachable_keeping_connections_reachable)
  then have "controller_invariant s" by (rule reachable_invariant)
  then show ?case using step.IH step.hyps(2) by (rule handle_event_preserves_connections)
next
  case (environment w cc w')
  from environment.IH environment.hyps(3) show ?case
    by (rule environment_preserves_connections)
qed

subsection \<open>Pipes join admissible ports only\<close>

text \<open>
  C10.  The admissibility check of two ports holds exactly when neither port is connected,
  the two ports are different objects and they have different parent components; so it
  fails whenever a port is already connected, the ports are the same object, or both belong
  to one component.  In a reachable state \<open>finish_pipe_construction\<close> changes the state only
  by registering one new pipe, under the next counter value, and then the start port and
  the end port of that pipe were found on its two components and passed the check: neither
  held a connection before and both hold one afterwards; when the rest of the program has
  taken no connection from a port, neither is an end of a pipe registered before.  Hence in
  every reachable state every registered pipe joins two different components (so never a
  port to itself), and, when the rest of the program has taken no connection from a port,
  both ends of every registered pipe hold a connection and no port is an end of two
  registered pipes.
\<close>

theorem pipes_only_between_admissible_ports:
  "(can_connect_to p q \<longleftrightarrow>
      \<not> is_connected p \<and> \<not> is_connected q \<and> port_self p \<noteq> port_self q \<and>
      parent_component p \<noteq> parent_component q) \<and>
   (reachable (w, cc) \<and> finish_pipe_construction w cc cid pid = Inr (w', cc') \<and>
    (w', cc') \<noteq> (w, cc) \<longrightarrow>
      (\<exists>pipe sp ep.
         pipes cc' = AList.update (pipe_counter cc + 1) pipe (pipes cc) \<and>
         cc_start_component cc = Some (start_component pipe) \<and>
         cc_start_port_id cc = Some (start_port pipe) \<and>
         find_component_by_id w cid = Some (end_component pipe) \<and>
         end_port pipe = pid \<and>
         get_port_by_id (objects w (start_component pipe)) (start_port pipe) = Some sp \<and>
         get_port_by_id (objects w (end_component pipe)) (end_port pipe) = Some ep \<and>
         can_connect_to sp ep \<and>
         \<not> connected_at w (start_component pipe) (start_port pipe) \<and>
         \<not> connected_at w (end_component pipe) (end_port pipe) \<and>
         connected_at w' (start_component pipe) (start_port pipe) \<and>
         connected_at w' (end_component pipe) (end_port pipe) \<and>
         (reachable_keeping_connections (w, cc) \<longrightarrow>
            (\<forall>entry \<in> set (pipes cc). pipe_ends pipe \<inter> pipe_ends (snd entry) = {})))) \<and>
   (reachable (w, cc) \<longrightarrow>
      list_all (\<lambda>entry. start_component (snd entry) \<noteq> end_component (snd entry) \<and>
                       (start_component (snd entry), start_port (snd entry)) \<noteq>
                       (end_component (snd entry), end_port (snd entry))) (pipes cc)) \<and>
   (reachable_keeping_connections (w, cc) \<longrightarrow>
      pipes_on_connected_ports w cc \<and> no_shared_port cc)"
proof (intro conjI impI)
  show "can_connect_to p q \<longleftrightarrow>
      \<not> is_connected p \<and> \<not> is_connected q \<and> port_self p \<noteq> port_self q \<and>
      parent_component p \<noteq> parent_component q"
    by (rule can_connect_to_iff)
next
  assume a: "reachable (w, cc) \<and> finish_pipe_construction w cc cid pid = Inr (w', cc') \<and>
    (w', cc') \<noteq> (w, cc)"
  then have reach: "reachable (w, cc)"
    and fin: "finish_pipe_construction w cc cid pid = Inr (w', cc')"
    and changed: "(w', cc') \<noteq> (w, cc)"
    by simp_all
  from reach have "controller_invariant (w, cc)" by (rule reachable_invariant)
  then have agrees: "builder_agrees cc" by (simp add: controller_invariant_def)
  from finish_pipe_construction_cases [OF fin]
  show "\<exists>pipe sp ep.
         pipes cc' = AList.update (pipe_counter cc + 1) pipe (pipes cc) \<and>
         cc_start_component cc = Some (start_component pipe) \<and>
         cc_start_port_id cc = Some (start_port pipe) \<and>
         find_component_by_id w cid = Some (end_component pipe) \<and>
         end_port pipe = pid \<and>
         get_port_by_id (objects w (start_component pipe)) (start_port pipe) = Some sp \<and>
         get_port_by_id (objects w (end_component pipe)) (end_port pipe) = Some ep \<and>
         can_connect_to sp ep \<and>
         \<not> connected_at w (start_component pipe) (start_port pipe) \<and>
         \<not> connected_at w (end_component pipe) (end_port pipe) \<and>
         connected_at w' (start_component pipe) (start_port pipe) \<and>
         connected_at w' (end_component pipe) (end_port pipe) \<and>
         (reachable_keeping_connections (w, cc) \<longrightarrow>
            (\<forall>entry \<in> set (pipes cc). pipe_ends pipe \<inter> pipe_ends (snd entry) = {}))"
  proof
    assume "w' = w \<and> cc' = cc"
    with changed show ?thesis by simp
  next
    assume "\<exists>builder start_comp start_pid end_comp sp ep.
        pipe_builder cc = Some builder \<and> cc_start_component cc = Some start_comp \<and>
        cc_start_port_id cc = Some start_pid \<and>
        find_component_by_id w cid = Some end_comp \<and>
        get_port_by_id (objects w start_comp) start_pid = Some sp \<and>
        get_port_by_id (objects w end_comp) pid = Some ep \<and>
        can_connect_to sp ep \<and>
        cc' = cleanup_pipe_construction
                (fst (register_pipe cc (finish_pipe w builder end_comp pid))) \<and>
        w' = update_object
               (update_object (w\<lparr>next_identity := next_identity w + 1\<rparr>) start_comp
                  (\<lambda>obj. update_port_by_id obj start_pid
                     (\<lambda>p. connect_to_pipe p (pipe_self (finish_pipe w builder end_comp pid)))))
               end_comp
               (\<lambda>obj. update_port_by_id obj pid
                  (\<lambda>p. connect_to_pipe p (pipe_self (finish_pipe w builder end_comp pid))))"
    then obtain builder start_comp start_pid end_comp sp ep where
      f: "pipe_builder cc = Some builder" "cc_start_component cc = Some start_comp"
        "cc_start_port_id cc = Some start_pid"
        "find_component_by_id w cid = Some end_comp"
      and sp: "get_port_by_id (objects w start_comp) start_pid = Some sp"
      and ep: "get_port_by_id (objects w end_comp) pid = Some ep"
      and ok: "can_connect_to sp ep"
      and cc': "cc' = cleanup_pipe_construction
                (fst (register_pipe cc (finish_pipe w builder end_comp pid)))"
      and w': "w' = update_object
               (update_object (w\<lparr>next_identity := next_identity w + 1\<rparr>) start_comp
                  (\<lambda>obj. update_port_by_id obj start_pid
                     (\<lambda>p. connect_to_pipe p (pipe_self (finish_pipe w builder end_comp pid)))))
               end_comp
               (\<lambda>obj. update_port_by_id obj pid
                  (\<lambda>p. connect_to_pipe p (pipe_self (finish_pipe w builder end_comp pid))))"
      by (elim exE conjE)
    define pipe where
      "pipe = (finish_pipe w builder end_comp pid)\<lparr>pipe_id := pipe_counter cc + 1\<rparr>"
    from agrees f(1,2,3) have start:
      "builder_start_component builder = start_comp" "builder_start_port builder = start_pid"
      by (simp_all add: builder_agrees_def)
    have ends: "start_component pipe = start_comp" "start_port pipe = start_pid"
      "end_component pipe = end_comp" "end_port pipe = pid"
      by (simp_all add: pipe_def finish_pipe_ends start)
    have pipe_ends: "pipe_ends pipe = {(start_comp, start_pid), (end_comp, pid)}"
      by (simp add: pipe_ends_def ends)
    have registered: "pipes cc' = AList.update (pipe_counter cc + 1) pipe (pipes cc)"
      by (simp add: cc' pipe_def register_pipe_def Let_def)
    note after = connect_both_ends [OF sp ep w']
    from ok have free: "\<not> is_connected sp" "\<not> is_connected ep"
      by (simp_all add: can_connect_to_iff)
    have free_start: "\<not> connected_at w start_comp start_pid"
      using free(1) by (simp add: connected_at_found [OF sp])
    have free_end: "\<not> connected_at w end_comp pid"
      using free(2) by (simp add: connected_at_found [OF ep])
    have fresh: "reachable_keeping_connections (w, cc) \<longrightarrow>
        (\<forall>entry \<in> set (pipes cc). pipe_ends pipe \<inter> pipe_ends (snd entry) = {})"
    proof
      assume "reachable_keeping_connections (w, cc)"
      then have "connection_invariant (w, cc)" by (rule reachable_connection_invariant)
      then show "\<forall>entry \<in> set (pipes cc). pipe_ends pipe \<inter> pipe_ends (snd entry) = {}"
        using sp ep ok pipe_ends after registered by (rule register_keeps_connections(2))
    qed
    have now_start: "connected_at w' start_comp start_pid" by (simp add: after)
    have now_end: "connected_at w' end_comp pid" by (simp add: after)
    have "pipes cc' = AList.update (pipe_counter cc + 1) pipe (pipes cc) \<and>
         cc_start_component cc = Some (start_component pipe) \<and>
         cc_start_port_id cc = Some (start_port pipe) \<and>
         find_component_by_id w cid = Some (end_component pipe) \<and>
         end_port pipe = pid \<and>
         get_port_by_id (objects w (start_component pipe)) (start_port pipe) = Some sp \<and>
         get_port_by_id (objects w (end_component pipe)) (end_port pipe) = Some ep \<and>
         can_connect_to sp ep \<and>
         \<not> connected_at w (start_component pipe) (start_port pipe) \<and>
         \<not> connected_at w (end_component pipe) (end_port pipe) \<and>
         connected_at w' (start_component pipe) (start_port pipe) \<and>
         connected_at w' (end_component pipe) (end_port pipe) \<and>
         (reachable_keeping_connections (w, cc) \<longrightarrow>
            (\<forall>entry \<in> set (pipes cc). pipe_ends pipe \<inter> pipe_ends (snd entry) = {}))"
      unfolding ends
      by (intro conjI registered f(2) f(3) f(4) refl sp ep ok free_start free_end
          now_start now_end fresh)
    then show ?thesis by (intro exI)
  qed
next
  assume "reachable (w, cc)"
  then have "controller_invariant (w, cc)" by (rule reachable_invariant)
  then have "pipes_join_two_components cc" by (simp add: controller_invariant_def)
  then have "list_all (\<lambda>entry. start_component (snd entry) \<noteq> end_component (snd entry))
      (pipes cc)"
    by (simp only: pipes_join_two_components_def)
  then show "list_all (\<lambda>entry. start_component (snd entry) \<noteq> end_component (snd entry) \<and>
                       (start_component (snd entry), start_port (snd entry)) \<noteq>
                       (end_component (snd entry), end_port (snd entry))) (pipes cc)"
    by (rule list.pred_mono_strong) simp
next
  assume "reachable_keeping_connections (w, cc)"
  then have "connection_invariant (w, cc)" by (rule reachable_connection_invariant)
  then show "pipes_on_connected_ports w cc" by (rule connection_invariantD(1))
next
  assume "reachable_keeping_connections (w, cc)"
  then have "connection_invariant (w, cc)" by (rule reachable_connection_invariant)
  then show "no_shared_port cc" by (rule connection_invariantD(2))
qed

text \<open>
  The pump, the valve and the tank of the test world: a construction started at port \<open>1\<close>
  of the pump and finished at port \<open>1\<close> of the valve registers the pipe \<open>1\<close> between the
  two; a second construction from the same port of the pump to the free port of the tank is
  refused.
\<close>

lemma test_heap_owned: "owned_ports (objects test_world)"
  by (simp add: owned_ports_def test_world_def test_heap_def pump_001_def valve_002_def
      tank_003_def test_object_def new_port_def)

lemma test_next_identity: "next_identity test_world = 40"
  by (simp add: test_world_def)

lemma test_ports_connectable: "can_connect_to (hd (ports pump_001)) (hd (ports valve_002))"
  by (simp add: can_connect_to_def pump_001_def valve_002_def test_object_def new_port_def)

lemma test_finish:
  "\<exists>w' cc'. finish_pipe_construction test_world
       (start_pipe_construction new_connection_controller 10 ''1'') ''valve_002'' ''1'' =
       Inr (w', cc') \<and> next_identity w' = 41 \<and>
       find_component_by_id w' ''tank_003'' = Some 30 \<and>
       get_port_by_id (objects w' 30) ''1'' = Some (hd (ports tank_003)) \<and>
       \<not> connected_at w' 30 ''1''"
  by (simp add: finish_pipe_construction_def start_pipe_construction_def
      new_connection_controller_def find_component_by_id_def get_port_by_id_def
      can_connect_ports_def can_connect_to_def connected_at_def Let_def update_object_def
      update_port_by_id_def test_world_def test_heap_def pump_001_def valve_002_def
      tank_003_def test_object_def new_port_def)

theorem pipes_only_between_admissible_ports_witness:
  "can_connect_to (hd (ports pump_001)) (hd (ports valve_002)) \<and>
   \<not> can_connect_to (hd (ports pump_001)) (hd (ports pump_001)) \<and>
   reachable (test_world, start_pipe_construction new_connection_controller 10 ''1'') \<and>
   reachable_keeping_connections
     (test_world, start_pipe_construction new_connection_controller 10 ''1'') \<and>
   (\<exists>w' cc' pipe.
      finish_pipe_construction test_world
        (start_pipe_construction new_connection_controller 10 ''1'') ''valve_002'' ''1'' =
        Inr (w', cc') \<and>
      (w', cc') \<noteq> (test_world, start_pipe_construction new_connection_controller 10 ''1'') \<and>
      reachable (w', cc') \<and> reachable_keeping_connections (w', cc') \<and>
      pipes cc' = [(1, pipe)] \<and>
      start_component pipe = 10 \<and> start_port pipe = ''1'' \<and>
      end_component pipe = 20 \<and> end_port pipe = ''1'' \<and>
      \<not> connected_at test_world 10 ''1'' \<and> \<not> connected_at test_world 20 ''1'' \<and>
      connected_at w' 10 ''1'' \<and> connected_at w' 20 ''1'' \<and>
      list_all (\<lambda>entry. start_component (snd entry) \<noteq> end_component (snd entry) \<and>
                       (start_component (snd entry), start_port (snd entry)) \<noteq>
                       (end_component (snd entry), end_port (snd entry))) (pipes cc') \<and>
      pipes_on_connected_ports w' cc' \<and> no_shared_port cc' \<and>
      find_component_by_id w' ''tank_003'' = Some 30 \<and> \<not> connected_at w' 30 ''1'' \<and>
      reachable_keeping_connections (w', start_pipe_construction cc' 10 ''1'') \<and>
      finish_pipe_construction w' (start_pipe_construction cc' 10 ''1'') ''tank_003'' ''1'' =
        Inr (w', start_pipe_construction cc' 10 ''1''))"
proof -
  define cc1 where "cc1 = start_pipe_construction new_connection_controller 10 ''1''"
  have cc1: "pipes cc1 = []" "pipe_counter cc1 = 0" "cc_start_component cc1 = Some 10"
    "cc_start_port_id cc1 = Some ''1''"
    by (simp_all add: cc1_def start_pipe_construction_def new_connection_controller_def)
  have "reachable_keeping_connections (test_world, new_connection_controller)"
    using test_heap_owned by (rule reachable_keeping_connections.initial)
  moreover have "handle_event (Start_construction 10 ''1'') (test_world, new_connection_controller) =
      Inr (test_world, cc1)"
    by (simp add: cc1_def)
  ultimately have k1: "reachable_keeping_connections (test_world, cc1)"
    by (rule reachable_keeping_connections.step)
  then have r1: "reachable (test_world, cc1)" by (rule reachable_keeping_connections_reachable)
  from test_finish obtain w' cc' where
    fin: "finish_pipe_construction test_world cc1 ''valve_002'' ''1'' = Inr (w', cc')"
    and next_id: "next_identity w' = 41"
    and tank: "find_component_by_id w' ''tank_003'' = Some 30"
    and tank_port: "get_port_by_id (objects w' 30) ''1'' = Some (hd (ports tank_003))"
    and tank_free: "\<not> connected_at w' 30 ''1''"
    unfolding cc1_def by (elim exE conjE)
  from next_id have changed: "(w', cc') \<noteq> (test_world, cc1)"
    using test_next_identity by auto
  have "handle_event (Finish_construction ''valve_002'' ''1'') (test_world, cc1) = Inr (w', cc')"
    using fin by simp
  with k1 have k2: "reachable_keeping_connections (w', cc')"
    by (rule reachable_keeping_connections.step)
  then have r2: "reachable (w', cc')" by (rule reachable_keeping_connections_reachable)
  note at_first =
    pipes_only_between_admissible_ports
      [of "hd (ports pump_001)" "hd (ports valve_002)" test_world cc1 "''valve_002''" "''1''" w' cc']
  note at_second =
    pipes_only_between_admissible_ports
      [of "hd (ports pump_001)" "hd (ports pump_001)" w' cc' "''valve_002''" "''1''" w' cc']
  from at_first have yes: "can_connect_to (hd (ports pump_001)) (hd (ports valve_002))"
    by (simp add: pump_001_def valve_002_def test_object_def new_port_def)
  from at_second have no: "\<not> can_connect_to (hd (ports pump_001)) (hd (ports pump_001))"
    by simp
  note created =
    at_first [THEN conjunct2, THEN conjunct1, THEN mp, OF conjI [OF r1 conjI [OF fin changed]]]
  then obtain pipe sp ep where
    p: "pipes cc' = AList.update (pipe_counter cc1 + 1) pipe (pipes cc1)"
      "cc_start_component cc1 = Some (start_component pipe)"
      "cc_start_port_id cc1 = Some (start_port pipe)"
      "find_component_by_id test_world ''valve_002'' = Some (end_component pipe)"
      "end_port pipe = ''1''"
      "get_port_by_id (objects test_world (start_component pipe)) (start_port pipe) = Some sp"
      "get_port_by_id (objects test_world (end_component pipe)) (end_port pipe) = Some ep"
      "can_connect_to sp ep"
      "\<not> connected_at test_world (start_component pipe) (start_port pipe)"
      "\<not> connected_at test_world (end_component pipe) (end_port pipe)"
      "connected_at w' (start_component pipe) (start_port pipe)"
      "connected_at w' (end_component pipe) (end_port pipe)"
    by (elim exE conjE)
  from p(1) have registered: "pipes cc' = [(1, pipe)]" by (simp add: cc1)
  from p(2) have sc: "start_component pipe = 10" by (simp add: cc1)
  from p(3) have sp: "start_port pipe = ''1''" by (simp add: cc1)
  from p(4) have ec: "end_component pipe = 20"
    by (simp add: find_component_by_id_def test_world_def test_heap_def pump_001_def
        valve_002_def test_object_def)
  note before_start = p(9) [unfolded sc sp]
  note before_end = p(10) [unfolded ec p(5)]
  note after_start = p(11) [unfolded sc sp]
  note after_end = p(12) [unfolded ec p(5)]
  note all = at_second [THEN conjunct2, THEN conjunct2, THEN conjunct1, THEN mp, OF r2]
  note invariant = at_second [THEN conjunct2, THEN conjunct2, THEN conjunct2, THEN mp, OF k2]
  note on = invariant [THEN conjunct1]
  note shared = invariant [THEN conjunct2]
  define cc2 where "cc2 = start_pipe_construction cc' 10 ''1''"
  have cc2: "pipe_builder cc2 \<noteq> None" "cc_start_component cc2 = Some 10"
    "cc_start_port_id cc2 = Some ''1''"
    by (simp_all add: cc2_def start_pipe_construction_def Let_def)
  have "handle_event (Start_construction 10 ''1'') (w', cc') = Inr (w', cc2)"
    by (simp add: cc2_def)
  with k2 have r3: "reachable_keeping_connections (w', cc2)"
    by (rule reachable_keeping_connections.step)
  from after_start obtain held where
    held: "get_port_by_id (objects w' 10) ''1'' = Some held" "is_connected held"
    by (auto simp add: connected_at_def split: option.splits)
  have refused: "finish_pipe_construction w' cc2 ''tank_003'' ''1'' = Inr (w', cc2)"
    using cc2(1)
    by (auto simp add: finish_pipe_construction_def tank cc2(2,3) held tank_port
        can_connect_ports_def can_connect_to_def)
  show ?thesis
    unfolding cc1_def [symmetric]
    by (intro conjI yes no r1 k1 exI [of _ w'] exI [of _ cc'] exI [of _ pipe] fin changed r2 k2
        registered sc sp ec p(5) before_start before_end after_start after_end all on shared
        tank tank_free r3 [unfolded cc2_def] refused [unfolded cc2_def])
qed

end
